(* ===== verification/Prelude.thy ===== *)
theory Prelude
  imports Main "HOL-Library.Word" "HOL-Library.Sublist"
begin

text \<open>
  What every other theory of the development shares: the collections its lemmas are declared
  into, the names of the types that stand for Go's own types, the result type of operations
  that may panic, and a few facts on lists and maps that several components use.
\<close>

section \<open>Collections\<close>

named_theorems getter_simps \<open>generated accessors on messages that a builder made\<close>
named_theorems go_std \<open>definitions of the Go standard library functions the sources call\<close>
named_theorems store_simps \<open>frame equations of the span store's operations\<close>

section \<open>Go's types\<close>

text \<open>
  A Go string is a sequence of bytes, a \<open>string\<close> of HOL is a list of 8-bit characters.
  A \<open>time.Time\<close> is its wall clock reading in nanoseconds since the Unix epoch (UTC); the
  zero value of \<open>time.Time\<close>, what \<open>IsZero\<close> tests, is the first instant of year 1.
  A \<open>time.Duration\<close> is a signed 64-bit count of nanoseconds; the functions that can leave
  that range write out the wrap-around or the saturation.
  An address names an object allocated with \<open>&T{...}\<close> or \<open>make\<close>; \<open>nil\<close> is an address
  that no heap maps.
\<close>

type_synonym go_time = int
type_synonym go_duration = int
type_synonym int32 = "32 word"
type_synonym addr = nat

definition zero_time :: go_time where
  "zero_time = - 62135596800000000000"

definition unix_epoch :: go_time where
  "unix_epoch = 0"

definition IsZero :: "go_time \<Rightarrow> bool" where
  "IsZero t \<longleftrightarrow> t = zero_time"

lemma IsZero_zero_time [simp]: "IsZero zero_time"
  by (simp add: IsZero_def)

lemma not_IsZero_epoch [simp]: "\<not> IsZero unix_epoch"
  by (simp add: IsZero_def zero_time_def unix_epoch_def)

section \<open>Panics\<close>

text \<open>An operation that may panic returns \<open>Inl\<close> of the panic or \<open>Inr\<close> of its result.\<close>

datatype panic =
    SendOnClosedChannel
  | CloseOfClosedChannel
  | CloseOfNilChannel
  | RandReadFailed string
  | NilHub
  | NilDereference

type_synonym 'a go_result = "panic + 'a"

definition bind_result :: "'a go_result \<Rightarrow> ('a \<Rightarrow> 'b go_result) \<Rightarrow> 'b go_result" where
  "bind_result r k = (case r of Inl p \<Rightarrow> Inl p | Inr x \<Rightarrow> k x)"

lemma bind_result_simps [simp]:
  "bind_result (Inl p) k = Inl p"
  "bind_result (Inr x) k = k x"
  by (simp_all add: bind_result_def)

lemma bind_result_Inr_iff:
  "bind_result r k = Inr y \<longleftrightarrow> (\<exists>x. r = Inr x \<and> k x = Inr y)"
  by (cases r) auto

section \<open>Lists and maps\<close>

lemma subseq_set: "subseq xs ys \<Longrightarrow> set xs \<subseteq> set ys"
  by (induction rule: list_emb.induct) auto

lemma subseq_distinct: "subseq xs ys \<Longrightarrow> distinct ys \<Longrightarrow> distinct xs"
  by (induction rule: list_emb.induct) (auto dest: subseq_set)

lemma restrict_map_id: "dom m \<subseteq> A \<Longrightarrow> m |` A = m"
  by (rule ext) (metis domIff restrict_map_def subsetD)

end
