(* ===== verification/Gostd.thy ===== *)
theory Gostd
  imports Prelude
begin

text \<open>
  The functions of the Go standard library that the sources call and whose result the
  properties depend on: decimal and boolean formatting (\<open>strconv\<close>), hexadecimal encoding
  (\<open>encoding/hex\<close>), prefixes (\<open>strings\<close>) and durations (\<open>time\<close>).
\<close>

section \<open>strconv\<close>

definition digit_char :: "nat \<Rightarrow> char" where
  "digit_char d = (''0123456789abcdef'' ! d)"

definition digit_value :: "char \<Rightarrow> nat" where
  "digit_value c = (if of_char c < (58 :: nat) then of_char c - 48 else of_char c - 87)"

fun format_nat :: "nat \<Rightarrow> string" where
  "format_nat n = (if n < 10 then [digit_char n] else format_nat (n div 10) @ [digit_char (n mod 10)])"

declare format_nat.simps [simp del]

definition Itoa :: "int \<Rightarrow> string" where
  "Itoa n = (if n < 0 then CHR ''-'' # format_nat (nat (- n)) else format_nat (nat n))"

definition FormatInt10 :: "64 word \<Rightarrow> string" where
  "FormatInt10 w = Itoa (sint w)"

definition FormatBool :: "bool \<Rightarrow> string" where
  "FormatBool b = (if b then ''true'' else ''false'')"

text \<open>The reader of a decimal numeral, the specification side of \<open>Itoa\<close>.\<close>

definition read_nat :: "string \<Rightarrow> nat" where
  "read_nat s = foldl (\<lambda>n c. 10 * n + digit_value c) 0 s"

definition read_int :: "string \<Rightarrow> int" where
  "read_int s = (case s of [] \<Rightarrow> 0
     | c # cs \<Rightarrow> if c = CHR ''-'' then - int (read_nat cs) else int (read_nat s))"

lemma less_16_cases:
  assumes "d < (16 :: nat)"
  shows "d \<in> {0, 1, 2, 3, 4, 5, 6, 7, 8, 9, 10, 11, 12, 13, 14, 15}"
  using assms by (simp, presburger)

lemma digit_value_char [simp]: "d < 16 \<Longrightarrow> digit_value (digit_char d) = d"
  by (drule less_16_cases) (auto simp: digit_value_def digit_char_def)

lemma digit_char_not_minus [simp]:
  assumes "d < 16"
  shows "digit_char d \<noteq> CHR ''-''" "CHR ''-'' \<noteq> digit_char d"
  using less_16_cases [OF assms] by (auto simp: digit_char_def)

lemma format_nat_not_Nil [simp]: "format_nat n \<noteq> []"
  by (subst format_nat.simps) simp

lemma format_nat_not_minus: "c \<in> set (format_nat n) \<Longrightarrow> c \<noteq> CHR ''-''"
proof (induction n rule: format_nat.induct)
  case (1 n)
  then show ?case
    by (subst (asm) (2) format_nat.simps) (auto split: if_splits)
qed

lemma read_nat_format_nat [simp]: "read_nat (format_nat n) = n"
proof (induction n rule: format_nat.induct)
  case (1 n)
  then show ?case
    by (subst format_nat.simps) (auto simp: read_nat_def)
qed

lemma read_int_Itoa [simp]: "read_int (Itoa n) = n"
proof (cases "n < 0")
  case True
  then show ?thesis by (simp add: Itoa_def read_int_def)
next
  case False
  obtain c cs where c: "format_nat (nat n) = c # cs"
    by (meson format_nat_not_Nil neq_Nil_conv)
  then have "c \<noteq> CHR ''-''" and "read_nat (c # cs) = nat n"
    using format_nat_not_minus [of c "nat n"] read_nat_format_nat [of "nat n"] by auto
  with c False show ?thesis
    by (simp add: Itoa_def read_int_def)
qed

lemma Itoa_not_Nil [simp]: "Itoa n \<noteq> []"
  by (simp add: Itoa_def)

section \<open>encoding/hex\<close>

definition hex_byte :: "8 word \<Rightarrow> string" where
  "hex_byte b = [digit_char (unat b div 16), digit_char (unat b mod 16)]"

definition EncodeToString :: "8 word list \<Rightarrow> string" where
  "EncodeToString bs = concat (map hex_byte bs)"

lemma digit_char_inj: "a < 16 \<Longrightarrow> b < 16 \<Longrightarrow> digit_char a = digit_char b \<longleftrightarrow> a = b"
  by (metis digit_value_char)

lemma unat_byte_bounds: "unat (b :: 8 word) div 16 < 16" "unat b mod 16 < 16"
  using unsigned_less [of b, where ?'a = nat] by auto

lemma hex_byte_inj: "hex_byte a = hex_byte b \<longleftrightarrow> a = b"
proof
  assume "hex_byte a = hex_byte b"
  then have "unat a div 16 = unat b div 16" and "unat a mod 16 = unat b mod 16"
    by (simp_all add: hex_byte_def digit_char_inj unat_byte_bounds)
  then have "unat a = unat b"
    by (metis div_mult_mod_eq)
  then show "a = b"
    by (simp add: word_unat_eq_iff)
qed simp

lemma length_EncodeToString: "length (EncodeToString bs) = 2 * length bs"
  by (induction bs) (simp_all add: EncodeToString_def hex_byte_def)

lemma EncodeToString_inj: "EncodeToString as = EncodeToString bs \<longleftrightarrow> as = bs"
proof (induction as arbitrary: bs)
  case Nil
  then show ?case by (cases bs) (auto simp: EncodeToString_def hex_byte_def)
next
  case (Cons a as)
  then show ?case
    by (cases bs) (auto simp: EncodeToString_def simp: hex_byte_inj [symmetric] hex_byte_def)
qed

section \<open>strings\<close>

definition HasPrefix :: "string \<Rightarrow> string \<Rightarrow> bool" where
  "HasPrefix s p \<longleftrightarrow> take (length p) s = p"

definition TrimPrefix :: "string \<Rightarrow> string \<Rightarrow> string" where
  "TrimPrefix s p = (if HasPrefix s p then drop (length p) s else s)"

lemma HasPrefix_append [simp]: "HasPrefix (p @ s) p"
  by (simp add: HasPrefix_def)

lemma HasPrefix_iff: "HasPrefix s p \<longleftrightarrow> (\<exists>t. s = p @ t)"
  by (metis HasPrefix_append HasPrefix_def append_take_drop_id)

section \<open>time\<close>

text \<open>
  \<open>Duration.String\<close>: \<open>fmtFrac\<close> writes the digits of a fraction from the right and drops
  trailing zeros, \<open>format\<close> chooses the unit. \<open>u\<close> is the magnitude as an unsigned 64-bit
  value, which the magnitude of every 64-bit signed duration fits.
\<close>

definition Nanosecond :: go_duration where "Nanosecond = 1"
definition Microsecond :: go_duration where "Microsecond = 1000"
definition Millisecond :: go_duration where "Millisecond = 1000000"
definition Second :: go_duration where "Second = 1000000000"
definition Minute :: go_duration where "Minute = 60000000000"

lemmas duration_units = Nanosecond_def Microsecond_def Millisecond_def Second_def Minute_def

fun fmtFrac :: "nat \<Rightarrow> nat \<Rightarrow> bool \<Rightarrow> string \<Rightarrow> string \<times> nat" where
  "fmtFrac 0 v print acc = (if print then CHR ''.'' # acc else acc, v)"
| "fmtFrac (Suc prec) v print acc =
     (let digit = v mod 10; print = print \<or> digit \<noteq> 0
      in fmtFrac prec (v div 10) print (if print then digit_char digit # acc else acc))"

definition micro_sign :: string where
  "micro_sign = [char_of (194 :: nat), char_of (181 :: nat)]"

definition format_below_second :: "nat \<Rightarrow> string" where
  "format_below_second u =
    (if u = 0 then ''0s''
     else if u < nat Microsecond then (case fmtFrac 0 u False ''ns'' of (acc, u) \<Rightarrow> format_nat u @ acc)
     else if u < nat Millisecond then (case fmtFrac 3 u False (micro_sign @ ''s'') of (acc, u) \<Rightarrow> format_nat u @ acc)
     else (case fmtFrac 6 u False ''ms'' of (acc, u) \<Rightarrow> format_nat u @ acc))"

definition format_seconds_up :: "nat \<Rightarrow> string" where
  "format_seconds_up u =
    (case fmtFrac 9 u False ''s'' of (acc, u) \<Rightarrow>
       let acc = format_nat (u mod 60) @ acc; u = u div 60
       in if u > 0 then
            (let acc = format_nat (u mod 60) @ CHR ''m'' # acc; u = u div 60
             in if u > 0 then format_nat u @ CHR ''h'' # acc else acc)
          else acc)"

definition Duration_String :: "go_duration \<Rightarrow> string" where
  "Duration_String d =
    (let u = nat \<bar>d\<bar>; body = (if u < nat Second then format_below_second u else format_seconds_up u)
     in if d < 0 then CHR ''-'' # body else body)"

end
