(* ===== verification/Proto.thy ===== *)
theory Proto
  imports Gostd
begin

text \<open>
  The generated protobuf records of \<open>gen/sap/v1/record.pb.go\<close>: the messages with their
  hidden fields and presence bits, the builders, the getters with their nil checks and
  defaults, and the presence tests. A pointer to a message is an \<open>option\<close>, \<open>None\<close> being
  \<open>nil\<close>; messages are values here, since nothing in the sources mutates one after it was built.

  The protobuf runtime is not part of the sources. What they call of it is the argument
  \<open>rt\<close> of the definitions that need it, a record of functions; \<open>pb_laws\<close> is the documented
  behaviour of those functions that properties may assume, and \<open>ref_runtime\<close> an instance
  of it on which the hypotheses are discharged at concrete inputs.
\<close>

section \<open>Enumerations\<close>

text \<open>Open protobuf enums are 32-bit integers in Go: a peer may send a number without a name.\<close>

type_synonym SpanEnded_TerminalType = int32
type_synonym SpanEvent_Severity = int32

definition TERMINAL_TYPE_UNSPECIFIED :: SpanEnded_TerminalType where
  "TERMINAL_TYPE_UNSPECIFIED = 0"

definition TERMINAL_TYPE_COMPLETE :: SpanEnded_TerminalType where
  "TERMINAL_TYPE_COMPLETE = 1"

definition TERMINAL_TYPE_ERROR :: SpanEnded_TerminalType where
  "TERMINAL_TYPE_ERROR = 2"

definition SEVERITY_UNSPECIFIED :: SpanEvent_Severity where
  "SEVERITY_UNSPECIFIED = 0"

definition SEVERITY_INFO :: SpanEvent_Severity where
  "SEVERITY_INFO = 1"

definition SEVERITY_WARN :: SpanEvent_Severity where
  "SEVERITY_WARN = 2"

definition SEVERITY_ERROR :: SpanEvent_Severity where
  "SEVERITY_ERROR = 3"

definition Default_SpanEvent_Severity :: SpanEvent_Severity where
  "Default_SpanEvent_Severity = SEVERITY_INFO"

lemmas severity_defs = SEVERITY_UNSPECIFIED_def SEVERITY_INFO_def SEVERITY_WARN_def
  SEVERITY_ERROR_def Default_SpanEvent_Severity_def

lemmas terminal_defs = TERMINAL_TYPE_UNSPECIFIED_def TERMINAL_TYPE_COMPLETE_def
  TERMINAL_TYPE_ERROR_def

section \<open>Messages\<close>

record timestamp =
  ts_seconds :: int
  ts_nanos :: int

record attribute =
  attr_Key :: "string option"
  attr_Value :: "string option"
  attr_DisplayHints :: "string list"
  attr_presence :: int32

record span_started =
  started_TraceId :: "string option"
  started_SpanId :: "string option"
  started_ParentSpanId :: "string option"
  started_Name :: "string option"
  started_StartedAt :: "timestamp option"
  started_Attributes :: "attribute option list option"
  started_presence :: int32

record span_updated =
  updated_TraceId :: "string option"
  updated_SpanId :: "string option"
  updated_Attributes :: "attribute option list option"
  updated_presence :: int32

record span_ended =
  ended_TraceId :: "string option"
  ended_SpanId :: "string option"
  ended_EndedAt :: "timestamp option"
  ended_TerminalType :: SpanEnded_TerminalType
  ended_ErrorMessage :: "string option"
  ended_presence :: int32

record span_event =
  event_TraceId :: "string option"
  event_SpanId :: "string option"
  event_Name :: "string option"
  event_EventAt :: "timestamp option"
  event_Attributes :: "attribute option list option"
  event_Severity :: SpanEvent_Severity
  event_presence :: int32

datatype isRecord_Kind =
    record_SpanStarted "span_started option"
  | record_SpanUpdated "span_updated option"
  | record_SpanEnded "span_ended option"
  | record_SpanEvent "span_event option"

record sap_record =
  rec_EmittedAt :: "timestamp option"
  rec_Kind :: "isRecord_Kind option"

section \<open>The protobuf runtime\<close>

text \<open>
  \<open>SetPresent\<close>, \<open>Present\<close> and \<open>ClearPresent\<close> of \<open>protoimpl.X\<close> on a presence bitmap,
  \<open>proto.CloneOf\<close> on attributes, and \<open>timestamppb.New\<close> and \<open>(*Timestamp).AsTime\<close>.
\<close>

record pb_runtime =
  SetPresentNonAtomic :: "int32 \<Rightarrow> nat \<Rightarrow> nat \<Rightarrow> int32"
  Present :: "int32 \<Rightarrow> nat \<Rightarrow> bool"
  CloneOf :: "attribute \<Rightarrow> attribute"
  TimestampNew :: "go_time \<Rightarrow> timestamp"
  AsTime :: "timestamp option \<Rightarrow> go_time"

text \<open>
  The documented behaviour: a presence bit is set exactly by setting it, a fresh bitmap has
  none, a clone has the fields of the original, a timestamp converts back to the time it was
  made from, and a nil timestamp reads as zero seconds and nanoseconds, the Unix epoch.
\<close>

definition pb_laws :: "pb_runtime \<Rightarrow> bool" where
  "pb_laws rt \<longleftrightarrow>
     (\<forall>i. \<not> Present rt 0 i) \<and>
     (\<forall>b i n k. i < n \<and> n \<le> 32 \<longrightarrow> (Present rt (SetPresentNonAtomic rt b i n) k \<longleftrightarrow> k = i \<or> Present rt b k)) \<and>
     (\<forall>a. CloneOf rt a = a) \<and>
     (\<forall>t. AsTime rt (Some (TimestampNew rt t)) = t) \<and>
     AsTime rt None = unix_epoch"

lemma pb_lawsD:
  assumes "pb_laws rt"
  shows "\<not> Present rt 0 i"
    and "i < n \<Longrightarrow> n \<le> 32 \<Longrightarrow> Present rt (SetPresentNonAtomic rt b i n) k \<longleftrightarrow> k = i \<or> Present rt b k"
    and "CloneOf rt a = a"
    and "AsTime rt (Some (TimestampNew rt t)) = t"
    and "AsTime rt None = unix_epoch"
  using assms by (auto simp: pb_laws_def)

definition ref_runtime :: pb_runtime where
  "ref_runtime = \<lparr>
     SetPresentNonAtomic = (\<lambda>b i n. set_bit i b),
     Present = (\<lambda>b i. bit b i),
     CloneOf = (\<lambda>a. a),
     TimestampNew = (\<lambda>t. \<lparr>ts_seconds = t div 1000000000, ts_nanos = t mod 1000000000\<rparr>),
     AsTime = (\<lambda>ts. case ts of None \<Rightarrow> 0 | Some s \<Rightarrow> ts_seconds s * 1000000000 + ts_nanos s)\<rparr>"

lemma pb_laws_ref_runtime [simp]: "pb_laws ref_runtime"
  by (auto simp: pb_laws_def ref_runtime_def unix_epoch_def bit_set_bit_iff possible_bit_def)

section \<open>Attribute\<close>

definition Attribute_GetKey :: "attribute option \<Rightarrow> string" where
  "Attribute_GetKey x = (case x of
     Some x \<Rightarrow> (case attr_Key x of Some v \<Rightarrow> v | None \<Rightarrow> []) | None \<Rightarrow> [])"

definition Attribute_GetValue :: "attribute option \<Rightarrow> string" where
  "Attribute_GetValue x = (case x of
     Some x \<Rightarrow> (case attr_Value x of Some v \<Rightarrow> v | None \<Rightarrow> []) | None \<Rightarrow> [])"

definition Attribute_GetDisplayHints :: "attribute option \<Rightarrow> string list" where
  "Attribute_GetDisplayHints x = (case x of Some x \<Rightarrow> attr_DisplayHints x | None \<Rightarrow> [])"

definition Attribute_HasKey :: "pb_runtime \<Rightarrow> attribute option \<Rightarrow> bool" where
  "Attribute_HasKey rt x = (case x of None \<Rightarrow> False | Some x \<Rightarrow> Present rt (attr_presence x) 0)"

definition Attribute_HasValue :: "pb_runtime \<Rightarrow> attribute option \<Rightarrow> bool" where
  "Attribute_HasValue rt x = (case x of None \<Rightarrow> False | Some x \<Rightarrow> Present rt (attr_presence x) 1)"

record Attribute_builder =
  ab_Key :: "string option"
  ab_Value :: "string option"
  ab_DisplayHints :: "string list"

definition Attribute_Build :: "pb_runtime \<Rightarrow> Attribute_builder \<Rightarrow> attribute" where
  "Attribute_Build rt b =
    (let x = \<lparr>attr_Key = None, attr_Value = None, attr_DisplayHints = [], attr_presence = 0\<rparr>;
         x = (if ab_Key b \<noteq> None
              then x\<lparr>attr_presence := SetPresentNonAtomic rt (attr_presence x) 0 3, attr_Key := ab_Key b\<rparr> else x);
         x = (if ab_Value b \<noteq> None
              then x\<lparr>attr_presence := SetPresentNonAtomic rt (attr_presence x) 1 3, attr_Value := ab_Value b\<rparr> else x)
     in x\<lparr>attr_DisplayHints := ab_DisplayHints b\<rparr>)"

section \<open>SpanStarted\<close>

definition SpanStarted_GetTraceId :: "span_started option \<Rightarrow> string" where
  "SpanStarted_GetTraceId x = (case x of
     Some x \<Rightarrow> (case started_TraceId x of Some v \<Rightarrow> v | None \<Rightarrow> []) | None \<Rightarrow> [])"

definition SpanStarted_GetSpanId :: "span_started option \<Rightarrow> string" where
  "SpanStarted_GetSpanId x = (case x of
     Some x \<Rightarrow> (case started_SpanId x of Some v \<Rightarrow> v | None \<Rightarrow> []) | None \<Rightarrow> [])"

definition SpanStarted_GetParentSpanId :: "span_started option \<Rightarrow> string" where
  "SpanStarted_GetParentSpanId x = (case x of
     Some x \<Rightarrow> (case started_ParentSpanId x of Some v \<Rightarrow> v | None \<Rightarrow> []) | None \<Rightarrow> [])"

definition SpanStarted_GetName :: "span_started option \<Rightarrow> string" where
  "SpanStarted_GetName x = (case x of
     Some x \<Rightarrow> (case started_Name x of Some v \<Rightarrow> v | None \<Rightarrow> []) | None \<Rightarrow> [])"

definition SpanStarted_GetStartedAt :: "span_started option \<Rightarrow> timestamp option" where
  "SpanStarted_GetStartedAt x = (case x of Some x \<Rightarrow> started_StartedAt x | None \<Rightarrow> None)"

definition SpanStarted_GetAttributes :: "span_started option \<Rightarrow> attribute option list" where
  "SpanStarted_GetAttributes x = (case x of
     Some x \<Rightarrow> (case started_Attributes x of Some v \<Rightarrow> v | None \<Rightarrow> []) | None \<Rightarrow> [])"

definition SpanStarted_HasTraceId :: "pb_runtime \<Rightarrow> span_started option \<Rightarrow> bool" where
  "SpanStarted_HasTraceId rt x = (case x of None \<Rightarrow> False | Some x \<Rightarrow> Present rt (started_presence x) 0)"

definition SpanStarted_HasSpanId :: "pb_runtime \<Rightarrow> span_started option \<Rightarrow> bool" where
  "SpanStarted_HasSpanId rt x = (case x of None \<Rightarrow> False | Some x \<Rightarrow> Present rt (started_presence x) 1)"

definition SpanStarted_HasParentSpanId :: "pb_runtime \<Rightarrow> span_started option \<Rightarrow> bool" where
  "SpanStarted_HasParentSpanId rt x = (case x of None \<Rightarrow> False | Some x \<Rightarrow> Present rt (started_presence x) 2)"

definition SpanStarted_HasName :: "pb_runtime \<Rightarrow> span_started option \<Rightarrow> bool" where
  "SpanStarted_HasName rt x = (case x of None \<Rightarrow> False | Some x \<Rightarrow> Present rt (started_presence x) 3)"

definition SpanStarted_HasStartedAt :: "span_started option \<Rightarrow> bool" where
  "SpanStarted_HasStartedAt x = (case x of None \<Rightarrow> False | Some x \<Rightarrow> started_StartedAt x \<noteq> None)"

record SpanStarted_builder =
  stb_TraceId :: "string option"
  stb_SpanId :: "string option"
  stb_ParentSpanId :: "string option"
  stb_Name :: "string option"
  stb_StartedAt :: "timestamp option"
  stb_Attributes :: "attribute option list"

definition SpanStarted_Build :: "pb_runtime \<Rightarrow> SpanStarted_builder \<Rightarrow> span_started" where
  "SpanStarted_Build rt b =
    (let x = \<lparr>started_TraceId = None, started_SpanId = None, started_ParentSpanId = None, started_Name = None, started_StartedAt = None, started_Attributes = None, started_presence = 0\<rparr>;
         x = (if stb_TraceId b \<noteq> None
              then x\<lparr>started_presence := SetPresentNonAtomic rt (started_presence x) 0 6, started_TraceId := stb_TraceId b\<rparr> else x);
         x = (if stb_SpanId b \<noteq> None
              then x\<lparr>started_presence := SetPresentNonAtomic rt (started_presence x) 1 6, started_SpanId := stb_SpanId b\<rparr> else x);
         x = (if stb_ParentSpanId b \<noteq> None
              then x\<lparr>started_presence := SetPresentNonAtomic rt (started_presence x) 2 6, started_ParentSpanId := stb_ParentSpanId b\<rparr> else x);
         x = (if stb_Name b \<noteq> None
              then x\<lparr>started_presence := SetPresentNonAtomic rt (started_presence x) 3 6, started_Name := stb_Name b\<rparr> else x);
         x = x\<lparr>started_StartedAt := stb_StartedAt b\<rparr>;
         x = x\<lparr>started_Attributes := Some (stb_Attributes b)\<rparr>
     in x)"

section \<open>SpanUpdated\<close>

definition SpanUpdated_GetTraceId :: "span_updated option \<Rightarrow> string" where
  "SpanUpdated_GetTraceId x = (case x of
     Some x \<Rightarrow> (case updated_TraceId x of Some v \<Rightarrow> v | None \<Rightarrow> []) | None \<Rightarrow> [])"

definition SpanUpdated_GetSpanId :: "span_updated option \<Rightarrow> string" where
  "SpanUpdated_GetSpanId x = (case x of
     Some x \<Rightarrow> (case updated_SpanId x of Some v \<Rightarrow> v | None \<Rightarrow> []) | None \<Rightarrow> [])"

definition SpanUpdated_GetAttributes :: "span_updated option \<Rightarrow> attribute option list" where
  "SpanUpdated_GetAttributes x = (case x of
     Some x \<Rightarrow> (case updated_Attributes x of Some v \<Rightarrow> v | None \<Rightarrow> []) | None \<Rightarrow> [])"

definition SpanUpdated_HasTraceId :: "pb_runtime \<Rightarrow> span_updated option \<Rightarrow> bool" where
  "SpanUpdated_HasTraceId rt x = (case x of None \<Rightarrow> False | Some x \<Rightarrow> Present rt (updated_presence x) 0)"

definition SpanUpdated_HasSpanId :: "pb_runtime \<Rightarrow> span_updated option \<Rightarrow> bool" where
  "SpanUpdated_HasSpanId rt x = (case x of None \<Rightarrow> False | Some x \<Rightarrow> Present rt (updated_presence x) 1)"

record SpanUpdated_builder =
  upb_TraceId :: "string option"
  upb_SpanId :: "string option"
  upb_Attributes :: "attribute option list"

definition SpanUpdated_Build :: "pb_runtime \<Rightarrow> SpanUpdated_builder \<Rightarrow> span_updated" where
  "SpanUpdated_Build rt b =
    (let x = \<lparr>updated_TraceId = None, updated_SpanId = None, updated_Attributes = None, updated_presence = 0\<rparr>;
         x = (if upb_TraceId b \<noteq> None
              then x\<lparr>updated_presence := SetPresentNonAtomic rt (updated_presence x) 0 3, updated_TraceId := upb_TraceId b\<rparr> else x);
         x = (if upb_SpanId b \<noteq> None
              then x\<lparr>updated_presence := SetPresentNonAtomic rt (updated_presence x) 1 3, updated_SpanId := upb_SpanId b\<rparr> else x);
         x = x\<lparr>updated_Attributes := Some (upb_Attributes b)\<rparr>
     in x)"

section \<open>SpanEnded\<close>

definition SpanEnded_GetTraceId :: "span_ended option \<Rightarrow> string" where
  "SpanEnded_GetTraceId x = (case x of
     Some x \<Rightarrow> (case ended_TraceId x of Some v \<Rightarrow> v | None \<Rightarrow> []) | None \<Rightarrow> [])"

definition SpanEnded_GetSpanId :: "span_ended option \<Rightarrow> string" where
  "SpanEnded_GetSpanId x = (case x of
     Some x \<Rightarrow> (case ended_SpanId x of Some v \<Rightarrow> v | None \<Rightarrow> []) | None \<Rightarrow> [])"

definition SpanEnded_GetEndedAt :: "span_ended option \<Rightarrow> timestamp option" where
  "SpanEnded_GetEndedAt x = (case x of Some x \<Rightarrow> ended_EndedAt x | None \<Rightarrow> None)"

definition SpanEnded_GetTerminalType :: "pb_runtime \<Rightarrow> span_ended option \<Rightarrow> SpanEnded_TerminalType" where
  "SpanEnded_GetTerminalType rt x = (case x of
     Some x \<Rightarrow> (if Present rt (ended_presence x) 3 then ended_TerminalType x else TERMINAL_TYPE_UNSPECIFIED)
   | None \<Rightarrow> TERMINAL_TYPE_UNSPECIFIED)"

definition SpanEnded_GetErrorMessage :: "span_ended option \<Rightarrow> string" where
  "SpanEnded_GetErrorMessage x = (case x of
     Some x \<Rightarrow> (case ended_ErrorMessage x of Some v \<Rightarrow> v | None \<Rightarrow> []) | None \<Rightarrow> [])"

definition SpanEnded_HasTraceId :: "pb_runtime \<Rightarrow> span_ended option \<Rightarrow> bool" where
  "SpanEnded_HasTraceId rt x = (case x of None \<Rightarrow> False | Some x \<Rightarrow> Present rt (ended_presence x) 0)"

definition SpanEnded_HasSpanId :: "pb_runtime \<Rightarrow> span_ended option \<Rightarrow> bool" where
  "SpanEnded_HasSpanId rt x = (case x of None \<Rightarrow> False | Some x \<Rightarrow> Present rt (ended_presence x) 1)"

definition SpanEnded_HasEndedAt :: "span_ended option \<Rightarrow> bool" where
  "SpanEnded_HasEndedAt x = (case x of None \<Rightarrow> False | Some x \<Rightarrow> ended_EndedAt x \<noteq> None)"

definition SpanEnded_HasTerminalType :: "pb_runtime \<Rightarrow> span_ended option \<Rightarrow> bool" where
  "SpanEnded_HasTerminalType rt x = (case x of None \<Rightarrow> False | Some x \<Rightarrow> Present rt (ended_presence x) 3)"

definition SpanEnded_HasErrorMessage :: "pb_runtime \<Rightarrow> span_ended option \<Rightarrow> bool" where
  "SpanEnded_HasErrorMessage rt x = (case x of None \<Rightarrow> False | Some x \<Rightarrow> Present rt (ended_presence x) 4)"

record SpanEnded_builder =
  enb_TraceId :: "string option"
  enb_SpanId :: "string option"
  enb_EndedAt :: "timestamp option"
  enb_TerminalType :: "SpanEnded_TerminalType option"
  enb_ErrorMessage :: "string option"

definition SpanEnded_Build :: "pb_runtime \<Rightarrow> SpanEnded_builder \<Rightarrow> span_ended" where
  "SpanEnded_Build rt b =
    (let x = \<lparr>ended_TraceId = None, ended_SpanId = None, ended_EndedAt = None, ended_TerminalType = TERMINAL_TYPE_UNSPECIFIED, ended_ErrorMessage = None, ended_presence = 0\<rparr>;
         x = (if enb_TraceId b \<noteq> None
              then x\<lparr>ended_presence := SetPresentNonAtomic rt (ended_presence x) 0 5, ended_TraceId := enb_TraceId b\<rparr> else x);
         x = (if enb_SpanId b \<noteq> None
              then x\<lparr>ended_presence := SetPresentNonAtomic rt (ended_presence x) 1 5, ended_SpanId := enb_SpanId b\<rparr> else x);
         x = x\<lparr>ended_EndedAt := enb_EndedAt b\<rparr>;
         x = (case enb_TerminalType b of None \<Rightarrow> x
              | Some v \<Rightarrow> x\<lparr>ended_presence := SetPresentNonAtomic rt (ended_presence x) 3 5, ended_TerminalType := v\<rparr>);
         x = (if enb_ErrorMessage b \<noteq> None
              then x\<lparr>ended_presence := SetPresentNonAtomic rt (ended_presence x) 4 5, ended_ErrorMessage := enb_ErrorMessage b\<rparr> else x)
     in x)"

section \<open>SpanEvent\<close>

definition SpanEvent_GetTraceId :: "span_event option \<Rightarrow> string" where
  "SpanEvent_GetTraceId x = (case x of
     Some x \<Rightarrow> (case event_TraceId x of Some v \<Rightarrow> v | None \<Rightarrow> []) | None \<Rightarrow> [])"

definition SpanEvent_GetSpanId :: "span_event option \<Rightarrow> string" where
  "SpanEvent_GetSpanId x = (case x of
     Some x \<Rightarrow> (case event_SpanId x of Some v \<Rightarrow> v | None \<Rightarrow> []) | None \<Rightarrow> [])"

definition SpanEvent_GetName :: "span_event option \<Rightarrow> string" where
  "SpanEvent_GetName x = (case x of
     Some x \<Rightarrow> (case event_Name x of Some v \<Rightarrow> v | None \<Rightarrow> []) | None \<Rightarrow> [])"

definition SpanEvent_GetEventAt :: "span_event option \<Rightarrow> timestamp option" where
  "SpanEvent_GetEventAt x = (case x of Some x \<Rightarrow> event_EventAt x | None \<Rightarrow> None)"

definition SpanEvent_GetAttributes :: "span_event option \<Rightarrow> attribute option list" where
  "SpanEvent_GetAttributes x = (case x of
     Some x \<Rightarrow> (case event_Attributes x of Some v \<Rightarrow> v | None \<Rightarrow> []) | None \<Rightarrow> [])"

definition SpanEvent_GetSeverity :: "pb_runtime \<Rightarrow> span_event option \<Rightarrow> SpanEvent_Severity" where
  "SpanEvent_GetSeverity rt x = (case x of
     Some x \<Rightarrow> (if Present rt (event_presence x) 5 then event_Severity x else Default_SpanEvent_Severity)
   | None \<Rightarrow> Default_SpanEvent_Severity)"

definition SpanEvent_HasTraceId :: "pb_runtime \<Rightarrow> span_event option \<Rightarrow> bool" where
  "SpanEvent_HasTraceId rt x = (case x of None \<Rightarrow> False | Some x \<Rightarrow> Present rt (event_presence x) 0)"

definition SpanEvent_HasSpanId :: "pb_runtime \<Rightarrow> span_event option \<Rightarrow> bool" where
  "SpanEvent_HasSpanId rt x = (case x of None \<Rightarrow> False | Some x \<Rightarrow> Present rt (event_presence x) 1)"

definition SpanEvent_HasName :: "pb_runtime \<Rightarrow> span_event option \<Rightarrow> bool" where
  "SpanEvent_HasName rt x = (case x of None \<Rightarrow> False | Some x \<Rightarrow> Present rt (event_presence x) 2)"

definition SpanEvent_HasEventAt :: "span_event option \<Rightarrow> bool" where
  "SpanEvent_HasEventAt x = (case x of None \<Rightarrow> False | Some x \<Rightarrow> event_EventAt x \<noteq> None)"

definition SpanEvent_HasSeverity :: "pb_runtime \<Rightarrow> span_event option \<Rightarrow> bool" where
  "SpanEvent_HasSeverity rt x = (case x of None \<Rightarrow> False | Some x \<Rightarrow> Present rt (event_presence x) 5)"

record SpanEvent_builder =
  evb_TraceId :: "string option"
  evb_SpanId :: "string option"
  evb_Name :: "string option"
  evb_EventAt :: "timestamp option"
  evb_Attributes :: "attribute option list"
  evb_Severity :: "SpanEvent_Severity option"

definition SpanEvent_Build :: "pb_runtime \<Rightarrow> SpanEvent_builder \<Rightarrow> span_event" where
  "SpanEvent_Build rt b =
    (let x = \<lparr>event_TraceId = None, event_SpanId = None, event_Name = None, event_EventAt = None, event_Attributes = None, event_Severity = SEVERITY_UNSPECIFIED, event_presence = 0\<rparr>;
         x = (if evb_TraceId b \<noteq> None
              then x\<lparr>event_presence := SetPresentNonAtomic rt (event_presence x) 0 6, event_TraceId := evb_TraceId b\<rparr> else x);
         x = (if evb_SpanId b \<noteq> None
              then x\<lparr>event_presence := SetPresentNonAtomic rt (event_presence x) 1 6, event_SpanId := evb_SpanId b\<rparr> else x);
         x = (if evb_Name b \<noteq> None
              then x\<lparr>event_presence := SetPresentNonAtomic rt (event_presence x) 2 6, event_Name := evb_Name b\<rparr> else x);
         x = x\<lparr>event_EventAt := evb_EventAt b\<rparr>;
         x = x\<lparr>event_Attributes := Some (evb_Attributes b)\<rparr>;
         x = (case evb_Severity b of None \<Rightarrow> x
              | Some v \<Rightarrow> x\<lparr>event_presence := SetPresentNonAtomic rt (event_presence x) 5 6, event_Severity := v\<rparr>)
     in x)"
section \<open>Record\<close>

datatype case_Record_Kind =
    Record_Kind_not_set_case
  | Record_SpanStarted_case
  | Record_SpanUpdated_case
  | Record_SpanEnded_case
  | Record_SpanEvent_case

definition Record_WhichKind :: "sap_record option \<Rightarrow> case_Record_Kind" where
  "Record_WhichKind x = (case x of None \<Rightarrow> Record_Kind_not_set_case
   | Some x \<Rightarrow> (case rec_Kind x of
       Some (record_SpanStarted _) \<Rightarrow> Record_SpanStarted_case
     | Some (record_SpanUpdated _) \<Rightarrow> Record_SpanUpdated_case
     | Some (record_SpanEnded _) \<Rightarrow> Record_SpanEnded_case
     | Some (record_SpanEvent _) \<Rightarrow> Record_SpanEvent_case
     | None \<Rightarrow> Record_Kind_not_set_case))"

definition Record_GetEmittedAt :: "sap_record option \<Rightarrow> timestamp option" where
  "Record_GetEmittedAt x = (case x of Some x \<Rightarrow> rec_EmittedAt x | None \<Rightarrow> None)"

definition Record_GetSpanStarted :: "sap_record option \<Rightarrow> span_started option" where
  "Record_GetSpanStarted x = (case x of
     Some x \<Rightarrow> (case rec_Kind x of Some (record_SpanStarted v) \<Rightarrow> v | _ \<Rightarrow> None) | None \<Rightarrow> None)"

definition Record_GetSpanUpdated :: "sap_record option \<Rightarrow> span_updated option" where
  "Record_GetSpanUpdated x = (case x of
     Some x \<Rightarrow> (case rec_Kind x of Some (record_SpanUpdated v) \<Rightarrow> v | _ \<Rightarrow> None) | None \<Rightarrow> None)"

definition Record_GetSpanEnded :: "sap_record option \<Rightarrow> span_ended option" where
  "Record_GetSpanEnded x = (case x of
     Some x \<Rightarrow> (case rec_Kind x of Some (record_SpanEnded v) \<Rightarrow> v | _ \<Rightarrow> None) | None \<Rightarrow> None)"

definition Record_GetSpanEvent :: "sap_record option \<Rightarrow> span_event option" where
  "Record_GetSpanEvent x = (case x of
     Some x \<Rightarrow> (case rec_Kind x of Some (record_SpanEvent v) \<Rightarrow> v | _ \<Rightarrow> None) | None \<Rightarrow> None)"

record Record_builder =
  rb_EmittedAt :: "timestamp option"
  rb_SpanStarted :: "span_started option"
  rb_SpanUpdated :: "span_updated option"
  rb_SpanEnded :: "span_ended option"
  rb_SpanEvent :: "span_event option"

text \<open>The fields of a composite literal that the source leaves out are nil.\<close>

definition empty_Record_builder :: Record_builder where
  "empty_Record_builder = \<lparr>rb_EmittedAt = None, rb_SpanStarted = None, rb_SpanUpdated = None,
     rb_SpanEnded = None, rb_SpanEvent = None\<rparr>"

definition Record_Build :: "Record_builder \<Rightarrow> sap_record" where
  "Record_Build b =
    (let x = \<lparr>rec_EmittedAt = None, rec_Kind = None\<rparr>;
         x = x\<lparr>rec_EmittedAt := rb_EmittedAt b\<rparr>;
         x = (if rb_SpanStarted b \<noteq> None then x\<lparr>rec_Kind := Some (record_SpanStarted (rb_SpanStarted b))\<rparr> else x);
         x = (if rb_SpanUpdated b \<noteq> None then x\<lparr>rec_Kind := Some (record_SpanUpdated (rb_SpanUpdated b))\<rparr> else x);
         x = (if rb_SpanEnded b \<noteq> None then x\<lparr>rec_Kind := Some (record_SpanEnded (rb_SpanEnded b))\<rparr> else x);
         x = (if rb_SpanEvent b \<noteq> None then x\<lparr>rec_Kind := Some (record_SpanEvent (rb_SpanEvent b))\<rparr> else x)
     in x)"

section \<open>Reading back what a builder wrote\<close>

text \<open>
  A getter on a built message returns the builder's field, the type's zero value where the
  builder left it nil. The enums go through the presence bitmap and need the runtime's laws.
\<close>

definition value_or :: "'a \<Rightarrow> 'a option \<Rightarrow> 'a" where
  "value_or d x = (case x of Some v \<Rightarrow> v | None \<Rightarrow> d)"

lemma value_or_simps [simp]: "value_or d (Some v) = v" "value_or d None = d"
  by (simp_all add: value_or_def)

lemma Attribute_Build_getters [getter_simps]:
  "Attribute_GetKey (Some (Attribute_Build rt b)) = value_or [] (ab_Key b)"
  "Attribute_GetValue (Some (Attribute_Build rt b)) = value_or [] (ab_Value b)"
  "Attribute_GetDisplayHints (Some (Attribute_Build rt b)) = ab_DisplayHints b"
  by (auto simp: Attribute_GetKey_def Attribute_GetValue_def Attribute_GetDisplayHints_def
      Attribute_Build_def value_or_def Let_def split: option.splits)

lemma SpanStarted_Build_getters [getter_simps]:
  "SpanStarted_GetTraceId (Some (SpanStarted_Build rt b)) = value_or [] (stb_TraceId b)"
  "SpanStarted_GetSpanId (Some (SpanStarted_Build rt b)) = value_or [] (stb_SpanId b)"
  "SpanStarted_GetParentSpanId (Some (SpanStarted_Build rt b)) = value_or [] (stb_ParentSpanId b)"
  "SpanStarted_GetName (Some (SpanStarted_Build rt b)) = value_or [] (stb_Name b)"
  "SpanStarted_GetStartedAt (Some (SpanStarted_Build rt b)) = stb_StartedAt b"
  "SpanStarted_GetAttributes (Some (SpanStarted_Build rt b)) = stb_Attributes b"
  by (auto simp: SpanStarted_GetTraceId_def SpanStarted_GetSpanId_def SpanStarted_GetParentSpanId_def SpanStarted_GetName_def SpanStarted_GetStartedAt_def SpanStarted_GetAttributes_def
      SpanStarted_Build_def value_or_def Let_def split: option.splits)

lemma SpanUpdated_Build_getters [getter_simps]:
  "SpanUpdated_GetTraceId (Some (SpanUpdated_Build rt b)) = value_or [] (upb_TraceId b)"
  "SpanUpdated_GetSpanId (Some (SpanUpdated_Build rt b)) = value_or [] (upb_SpanId b)"
  "SpanUpdated_GetAttributes (Some (SpanUpdated_Build rt b)) = upb_Attributes b"
  by (auto simp: SpanUpdated_GetTraceId_def SpanUpdated_GetSpanId_def SpanUpdated_GetAttributes_def
      SpanUpdated_Build_def value_or_def Let_def split: option.splits)

lemma SpanEnded_Build_getters [getter_simps]:
  "SpanEnded_GetTraceId (Some (SpanEnded_Build rt b)) = value_or [] (enb_TraceId b)"
  "SpanEnded_GetSpanId (Some (SpanEnded_Build rt b)) = value_or [] (enb_SpanId b)"
  "SpanEnded_GetEndedAt (Some (SpanEnded_Build rt b)) = enb_EndedAt b"
  "SpanEnded_GetErrorMessage (Some (SpanEnded_Build rt b)) = value_or [] (enb_ErrorMessage b)"
  by (auto simp: SpanEnded_GetTraceId_def SpanEnded_GetSpanId_def SpanEnded_GetEndedAt_def SpanEnded_GetErrorMessage_def
      SpanEnded_Build_def value_or_def Let_def split: option.splits)

lemma SpanEvent_Build_getters [getter_simps]:
  "SpanEvent_GetTraceId (Some (SpanEvent_Build rt b)) = value_or [] (evb_TraceId b)"
  "SpanEvent_GetSpanId (Some (SpanEvent_Build rt b)) = value_or [] (evb_SpanId b)"
  "SpanEvent_GetName (Some (SpanEvent_Build rt b)) = value_or [] (evb_Name b)"
  "SpanEvent_GetEventAt (Some (SpanEvent_Build rt b)) = evb_EventAt b"
  "SpanEvent_GetAttributes (Some (SpanEvent_Build rt b)) = evb_Attributes b"
  by (auto simp: SpanEvent_GetTraceId_def SpanEvent_GetSpanId_def SpanEvent_GetName_def SpanEvent_GetEventAt_def SpanEvent_GetAttributes_def
      SpanEvent_Build_def value_or_def Let_def split: option.splits)

lemma SpanEnded_Build_TerminalType [getter_simps]:
  assumes "pb_laws rt"
  shows "SpanEnded_GetTerminalType rt (Some (SpanEnded_Build rt b)) = value_or TERMINAL_TYPE_UNSPECIFIED (enb_TerminalType b)"
    and "SpanEnded_HasTerminalType rt (Some (SpanEnded_Build rt b)) \<longleftrightarrow> enb_TerminalType b \<noteq> None"
  by (auto simp: SpanEnded_GetTerminalType_def SpanEnded_HasTerminalType_def SpanEnded_Build_def Let_def value_or_def
      pb_lawsD(1,2) [OF assms] split: option.splits)

lemma SpanEvent_Build_Severity [getter_simps]:
  assumes "pb_laws rt"
  shows "SpanEvent_GetSeverity rt (Some (SpanEvent_Build rt b)) = value_or Default_SpanEvent_Severity (evb_Severity b)"
    and "SpanEvent_HasSeverity rt (Some (SpanEvent_Build rt b)) \<longleftrightarrow> evb_Severity b \<noteq> None"
  by (auto simp: SpanEvent_GetSeverity_def SpanEvent_HasSeverity_def SpanEvent_Build_def Let_def value_or_def
      pb_lawsD(1,2) [OF assms] split: option.splits)

lemma Record_Build_emitted [getter_simps]:
  "Record_GetEmittedAt (Some (Record_Build b)) = rb_EmittedAt b"
  by (auto simp: Record_GetEmittedAt_def Record_Build_def Let_def)

text \<open>Of several set members of the oneof, the last one in field order is kept.\<close>

lemma Record_Build_Kind:
  "rec_Kind (Record_Build b) =
     (if rb_SpanEvent b \<noteq> None then Some (record_SpanEvent (rb_SpanEvent b))
      else if rb_SpanEnded b \<noteq> None then Some (record_SpanEnded (rb_SpanEnded b))
      else if rb_SpanUpdated b \<noteq> None then Some (record_SpanUpdated (rb_SpanUpdated b))
      else if rb_SpanStarted b \<noteq> None then Some (record_SpanStarted (rb_SpanStarted b))
      else None)"
  by (simp add: Record_Build_def Let_def)

lemmas Record_getter_defs = Record_WhichKind_def Record_GetSpanStarted_def Record_GetSpanUpdated_def
  Record_GetSpanEnded_def Record_GetSpanEvent_def

text \<open>A record is of one kind, and only the getter of that kind can return a message.\<close>

lemma Record_GetSpanStarted_kind:
  "Record_GetSpanStarted x \<noteq> None \<Longrightarrow> Record_WhichKind x = Record_SpanStarted_case"
  by (auto simp: Record_getter_defs split: option.splits isRecord_Kind.splits)

lemma Record_GetSpanUpdated_kind:
  "Record_GetSpanUpdated x \<noteq> None \<Longrightarrow> Record_WhichKind x = Record_SpanUpdated_case"
  by (auto simp: Record_getter_defs split: option.splits isRecord_Kind.splits)

lemma Record_GetSpanEnded_kind:
  "Record_GetSpanEnded x \<noteq> None \<Longrightarrow> Record_WhichKind x = Record_SpanEnded_case"
  by (auto simp: Record_getter_defs split: option.splits isRecord_Kind.splits)

lemma Record_GetSpanEvent_kind:
  "Record_GetSpanEvent x \<noteq> None \<Longrightarrow> Record_WhichKind x = Record_SpanEvent_case"
  by (auto simp: Record_getter_defs split: option.splits isRecord_Kind.splits)

end
