(* ===== verification/Attr.thy ===== *)
theory Attr
  imports Proto
begin

text \<open>
  The attribute constructors of \<open>attr.go\<close>: typed helpers that format a value as a string,
  the removal of duplicate display hints, and the copy of an attribute list that drops nil
  entries. The text of a float is \<open>strconv.FormatFloat\<close>'s shortest form, which is an argument.
\<close>

section \<open>Display hints\<close>

text \<open>
  The loop of \<open>dedupeStrings\<close>: \<open>seen\<close> is the set built as a map, \<open>result\<close> the slice
  appended to.
\<close>

fun dedupe_loop :: "string list \<Rightarrow> (string \<rightharpoonup> unit) \<Rightarrow> string list \<Rightarrow> string list" where
  "dedupe_loop [] seen result = result"
| "dedupe_loop (value # values) seen result =
     (if value = [] then dedupe_loop values seen result
      else if seen value \<noteq> None then dedupe_loop values seen result
      else dedupe_loop values (seen(value \<mapsto> ())) (result @ [value]))"

definition dedupeStrings :: "string list \<Rightarrow> string list" where
  "dedupeStrings values = (if length values = 0 then [] else dedupe_loop values Map.empty [])"

section \<open>Constructors\<close>

definition String_attr :: "pb_runtime \<Rightarrow> string \<Rightarrow> string \<Rightarrow> string list \<Rightarrow> attribute" where
  "String_attr rt key value hints =
     Attribute_Build rt \<lparr>ab_Key = Some key, ab_Value = Some value, ab_DisplayHints = dedupeStrings hints\<rparr>"

definition Bool_attr :: "pb_runtime \<Rightarrow> string \<Rightarrow> bool \<Rightarrow> string list \<Rightarrow> attribute" where
  "Bool_attr rt key value hints = String_attr rt key (FormatBool value) hints"

definition Int_attr :: "pb_runtime \<Rightarrow> string \<Rightarrow> 64 word \<Rightarrow> string list \<Rightarrow> attribute" where
  "Int_attr rt key value hints = String_attr rt key (Itoa (sint value)) hints"

definition Int64_attr :: "pb_runtime \<Rightarrow> string \<Rightarrow> 64 word \<Rightarrow> string list \<Rightarrow> attribute" where
  "Int64_attr rt key value hints = String_attr rt key (FormatInt10 value) hints"

definition Float64_attr :: "('f \<Rightarrow> string) \<Rightarrow> pb_runtime \<Rightarrow> string \<Rightarrow> 'f \<Rightarrow> string list \<Rightarrow> attribute" where
  "Float64_attr FormatFloat rt key value hints = String_attr rt key (FormatFloat value) hints"

definition Duration_attr :: "pb_runtime \<Rightarrow> string \<Rightarrow> go_duration \<Rightarrow> string list \<Rightarrow> attribute" where
  "Duration_attr rt key value hints = String_attr rt key (Duration_String value) hints"

section \<open>Copying attribute lists\<close>

fun clone_loop :: "pb_runtime \<Rightarrow> attribute option list \<Rightarrow> attribute option list \<Rightarrow> attribute option list" where
  "clone_loop rt [] cloned = cloned"
| "clone_loop rt (attr # attrs) cloned =
     (case attr of None \<Rightarrow> clone_loop rt attrs cloned
      | Some a \<Rightarrow> clone_loop rt attrs (cloned @ [Some (CloneOf rt a)]))"

definition cloneAttributes :: "pb_runtime \<Rightarrow> attribute option list \<Rightarrow> attribute option list" where
  "cloneAttributes rt attrs = (if length attrs = 0 then [] else clone_loop rt attrs [])"

section \<open>Properties of the helpers\<close>

definition keep_first :: "'a list \<Rightarrow> 'a list" where
  "keep_first xs = rev (remdups (rev xs))"

lemma keep_first_snoc: "keep_first (xs @ [x]) = (if x \<in> set xs then keep_first xs else keep_first xs @ [x])"
  by (simp add: keep_first_def)

lemma set_keep_first [simp]: "set (keep_first xs) = set xs"
  by (simp add: keep_first_def)

lemma distinct_keep_first [simp]: "distinct (keep_first xs)"
  by (simp add: keep_first_def)

lemma keep_first_distinct [simp]: "distinct xs \<Longrightarrow> keep_first xs = xs"
  by (simp add: keep_first_def distinct_remdups_id)

lemma dedupe_loop_keep_first:
  assumes "dom seen = set past" and "result = keep_first past"
  shows "dedupe_loop vals seen result = keep_first (past @ filter (\<lambda>v. v \<noteq> []) vals)"
  using assms
proof (induction vals arbitrary: seen past result)
  case Nil
  then show ?case by simp
next
  case (Cons v vs)
  show ?case
  proof (cases "v = []")
    case True
    with Cons show ?thesis by simp
  next
    case False
    from Cons.prems have dom: "seen v \<noteq> None \<longleftrightarrow> v \<in> set past" by (auto simp: dom_def)
    have "dedupe_loop (v # vs) seen result = keep_first ((past @ [v]) @ filter (\<lambda>v. v \<noteq> []) vs)"
    proof (cases "v \<in> set past")
      case True
      then have "dedupe_loop (v # vs) seen result = dedupe_loop vs seen result"
        using dom False by simp
      also have "\<dots> = keep_first ((past @ [v]) @ filter (\<lambda>v. v \<noteq> []) vs)"
        using True Cons.prems by (intro Cons.IH) (auto simp: keep_first_snoc)
      finally show ?thesis .
    next
      case nin: False
      then have "dedupe_loop (v # vs) seen result = dedupe_loop vs (seen(v \<mapsto> ())) (result @ [v])"
        using dom False by simp
      also have "\<dots> = keep_first ((past @ [v]) @ filter (\<lambda>v. v \<noteq> []) vs)"
        using nin Cons.prems by (intro Cons.IH) (auto simp: keep_first_snoc)
      finally show ?thesis .
    qed
    with False show ?thesis by simp
  qed
qed

lemma dedupeStrings_eq: "dedupeStrings vals = keep_first (filter (\<lambda>v. v \<noteq> []) vals)"
  using dedupe_loop_keep_first [of Map.empty "[]" "[]" "vals"]
  by (auto simp: dedupeStrings_def keep_first_def)

lemma clone_loop_eq:
  "clone_loop rt attrs cloned = cloned @ map (map_option (CloneOf rt)) (filter (\<lambda>a. a \<noteq> None) attrs)"
  by (induction attrs arbitrary: cloned) (auto split: option.splits)

lemma cloneAttributes_eq:
  "cloneAttributes rt attrs = map (map_option (CloneOf rt)) (filter (\<lambda>a. a \<noteq> None) attrs)"
  by (auto simp: cloneAttributes_def clone_loop_eq)

lemma cloneAttributes_laws:
  assumes "pb_laws rt"
  shows "cloneAttributes rt attrs = filter (\<lambda>a. a \<noteq> None) attrs"
proof -
  have "map_option (CloneOf rt) = id"
  proof
    fix x
    show "map_option (CloneOf rt) x = id x"
      by (cases x) (simp_all add: pb_lawsD(3) [OF assms])
  qed
  then show ?thesis by (simp add: cloneAttributes_eq)
qed

lemma cloneAttributes_no_nil: "None \<notin> set (cloneAttributes rt attrs)"
  by (auto simp: cloneAttributes_eq)

lemma String_attr_getters [getter_simps]:
  "Attribute_GetKey (Some (String_attr rt k v hs)) = k"
  "Attribute_GetValue (Some (String_attr rt k v hs)) = v"
  "Attribute_GetDisplayHints (Some (String_attr rt k v hs)) = dedupeStrings hs"
  by (simp_all add: String_attr_def getter_simps)

section \<open>What a constructed attribute holds\<close>

text \<open>An attribute carries its key, and its hints without empty and repeated ones, each at the
  place of its first occurrence; the text of an integer or a boolean reads back as the value
  it was made from, over the whole range of 64-bit integers.\<close>

theorem attribute_reads_back:
  "Attribute_GetKey (Some (Int_attr rt key i hints)) = key
    \<and> read_int (Attribute_GetValue (Some (Int_attr rt key i hints))) = sint i
    \<and> Attribute_GetValue (Some (Int64_attr rt key i hints)) = Attribute_GetValue (Some (Int_attr rt key i hints))
    \<and> (Attribute_GetValue (Some (Bool_attr rt key b hints)) = ''true'' \<longleftrightarrow> b)
    \<and> Attribute_GetDisplayHints (Some (String_attr rt key v hints)) = keep_first (filter (\<lambda>h. h \<noteq> []) hints)
    \<and> distinct (Attribute_GetDisplayHints (Some (String_attr rt key v hints)))
    \<and> set (Attribute_GetDisplayHints (Some (String_attr rt key v hints))) = set hints - {[]}"
  by (auto simp: Int_attr_def Int64_attr_def Bool_attr_def FormatInt10_def FormatBool_def String_attr_getters dedupeStrings_eq)

end
