(* ===== verification/Proto_Setters.thy ===== *)
theory Proto_Setters
  imports Proto
begin

text \<open>
  The methods of \<open>gen/sap/v1/record.pb.go\<close> that change a message: setters, clears and resets, and
  the presence tests of the oneof. A receiver is \<open>None\<close> for a nil pointer, on which every one of
  them panics; the result is the message as the method leaves it. Nothing in the sources calls
  them, other users of the package do. What they keep is stated once for all fields in the
  locale \<open>message_field\<close>; a builder is the same as setting its fields on a new message.
\<close>

section \<open>The protobuf runtime\<close>

text \<open>\<open>SetPresent\<close> is the atomic variant of \<open>SetPresentNonAtomic\<close>, \<open>ClearPresent\<close> removes the bit.\<close>

record pb_mutable =
  pm_rt :: pb_runtime
  SetPresent :: "int32 \<Rightarrow> nat \<Rightarrow> nat \<Rightarrow> int32"
  ClearPresent :: "int32 \<Rightarrow> nat \<Rightarrow> int32"

definition pb_mutable_laws :: "pb_mutable \<Rightarrow> bool" where
  "pb_mutable_laws rt \<longleftrightarrow> pb_laws (pm_rt rt) \<and> SetPresent rt = SetPresentNonAtomic (pm_rt rt) \<and>
     (\<forall>b i k. i < 32 \<longrightarrow> (Present (pm_rt rt) (ClearPresent rt b i) k \<longleftrightarrow> k \<noteq> i \<and> Present (pm_rt rt) b k))"

lemma pb_mutable_lawsD:
  assumes "pb_mutable_laws rt"
  shows "i < n \<Longrightarrow> n \<le> 32 \<Longrightarrow> Present (pm_rt rt) (SetPresent rt b i n) k \<longleftrightarrow> k = i \<or> Present (pm_rt rt) b k"
    and "i < 32 \<Longrightarrow> Present (pm_rt rt) (ClearPresent rt b i) k \<longleftrightarrow> k \<noteq> i \<and> Present (pm_rt rt) b k"
    and "SetPresent rt = SetPresentNonAtomic (pm_rt rt)"
  using assms by (auto simp: pb_mutable_laws_def pb_lawsD(2))

definition ref_mutable :: pb_mutable where
  "ref_mutable = \<lparr>pm_rt = ref_runtime, SetPresent = SetPresentNonAtomic ref_runtime, ClearPresent = (\<lambda>b i. unset_bit i b)\<rparr>"

lemma pb_mutable_laws_ref [simp]: "pb_mutable_laws ref_mutable"
  unfolding pb_mutable_laws_def ref_mutable_def by simp (auto simp: ref_runtime_def bit_unset_bit_iff)

definition on_message :: "('m \<Rightarrow> 'm) \<Rightarrow> 'm option \<Rightarrow> 'm go_result" where
  "on_message f x = (case x of None \<Rightarrow> Inl NilDereference | Some x \<Rightarrow> Inr (f x))"

lemma on_message_simps [simp]: "on_message f None = Inl NilDereference" "on_message f (Some x) = Inr (f x)"
  by (simp_all add: on_message_def)

section \<open>Enumerations\<close>

definition SpanEvent_Severity_name :: "int32 \<rightharpoonup> string" where
  "SpanEvent_Severity_name = [0 \<mapsto> ''SEVERITY_UNSPECIFIED'', 1 \<mapsto> ''SEVERITY_INFO'', 2 \<mapsto> ''SEVERITY_WARN'', 3 \<mapsto> ''SEVERITY_ERROR'']"

definition SpanEvent_Severity_value :: "string \<rightharpoonup> int32" where
  "SpanEvent_Severity_value = [''SEVERITY_UNSPECIFIED'' \<mapsto> 0, ''SEVERITY_INFO'' \<mapsto> 1, ''SEVERITY_WARN'' \<mapsto> 2, ''SEVERITY_ERROR'' \<mapsto> 3]"

definition SpanEnded_TerminalType_name :: "int32 \<rightharpoonup> string" where
  "SpanEnded_TerminalType_name = [0 \<mapsto> ''TERMINAL_TYPE_UNSPECIFIED'', 1 \<mapsto> ''TERMINAL_TYPE_COMPLETE'', 2 \<mapsto> ''TERMINAL_TYPE_ERROR'']"

definition SpanEnded_TerminalType_value :: "string \<rightharpoonup> int32" where
  "SpanEnded_TerminalType_value = [''TERMINAL_TYPE_UNSPECIFIED'' \<mapsto> 0, ''TERMINAL_TYPE_COMPLETE'' \<mapsto> 1, ''TERMINAL_TYPE_ERROR'' \<mapsto> 2]"

text \<open>Names and numbers are inverse to each other.\<close>

lemma severity_names: "SpanEvent_Severity_name n = Some s \<longleftrightarrow> SpanEvent_Severity_value s = Some n"
  by (auto simp: SpanEvent_Severity_name_def SpanEvent_Severity_value_def split: if_splits)

lemma terminal_names: "SpanEnded_TerminalType_name n = Some s \<longleftrightarrow> SpanEnded_TerminalType_value s = Some n"
  by (auto simp: SpanEnded_TerminalType_name_def SpanEnded_TerminalType_value_def split: if_splits)

section \<open>Attribute\<close>

definition Attribute_Reset :: "attribute option \<Rightarrow> attribute go_result" where
  "Attribute_Reset x = on_message (\<lambda>_. \<lparr>attr_Key = None, attr_Value = None, attr_DisplayHints = [], attr_presence = 0\<rparr>) x"

definition Attribute_SetKey :: "pb_mutable \<Rightarrow> string \<Rightarrow> attribute option \<Rightarrow> attribute go_result" where
  "Attribute_SetKey rt v x = on_message (\<lambda>x. x\<lparr>attr_Key := Some v, attr_presence := SetPresent rt (attr_presence x) 0 3\<rparr>) x"

definition Attribute_SetValue :: "pb_mutable \<Rightarrow> string \<Rightarrow> attribute option \<Rightarrow> attribute go_result" where
  "Attribute_SetValue rt v x = on_message (\<lambda>x. x\<lparr>attr_Value := Some v, attr_presence := SetPresent rt (attr_presence x) 1 3\<rparr>) x"

definition Attribute_SetDisplayHints :: "string list \<Rightarrow> attribute option \<Rightarrow> attribute go_result" where
  "Attribute_SetDisplayHints v x = on_message (\<lambda>x. x\<lparr>attr_DisplayHints := v\<rparr>) x"

definition Attribute_ClearKey :: "pb_mutable \<Rightarrow> attribute option \<Rightarrow> attribute go_result" where
  "Attribute_ClearKey rt x = on_message (\<lambda>x. x\<lparr>attr_presence := ClearPresent rt (attr_presence x) 0, attr_Key := None\<rparr>) x"

definition Attribute_ClearValue :: "pb_mutable \<Rightarrow> attribute option \<Rightarrow> attribute go_result" where
  "Attribute_ClearValue rt x = on_message (\<lambda>x. x\<lparr>attr_presence := ClearPresent rt (attr_presence x) 1, attr_Value := None\<rparr>) x"

section \<open>SpanStarted\<close>

definition SpanStarted_Reset :: "span_started option \<Rightarrow> span_started go_result" where
  "SpanStarted_Reset x = on_message (\<lambda>_. \<lparr>started_TraceId = None, started_SpanId = None, started_ParentSpanId = None, started_Name = None, started_StartedAt = None, started_Attributes = None, started_presence = 0\<rparr>) x"

definition SpanStarted_SetTraceId :: "pb_mutable \<Rightarrow> string \<Rightarrow> span_started option \<Rightarrow> span_started go_result" where
  "SpanStarted_SetTraceId rt v x = on_message (\<lambda>x. x\<lparr>started_TraceId := Some v, started_presence := SetPresent rt (started_presence x) 0 6\<rparr>) x"

definition SpanStarted_SetSpanId :: "pb_mutable \<Rightarrow> string \<Rightarrow> span_started option \<Rightarrow> span_started go_result" where
  "SpanStarted_SetSpanId rt v x = on_message (\<lambda>x. x\<lparr>started_SpanId := Some v, started_presence := SetPresent rt (started_presence x) 1 6\<rparr>) x"

definition SpanStarted_SetParentSpanId :: "pb_mutable \<Rightarrow> string \<Rightarrow> span_started option \<Rightarrow> span_started go_result" where
  "SpanStarted_SetParentSpanId rt v x = on_message (\<lambda>x. x\<lparr>started_ParentSpanId := Some v, started_presence := SetPresent rt (started_presence x) 2 6\<rparr>) x"

definition SpanStarted_SetName :: "pb_mutable \<Rightarrow> string \<Rightarrow> span_started option \<Rightarrow> span_started go_result" where
  "SpanStarted_SetName rt v x = on_message (\<lambda>x. x\<lparr>started_Name := Some v, started_presence := SetPresent rt (started_presence x) 3 6\<rparr>) x"

definition SpanStarted_SetStartedAt :: "timestamp option \<Rightarrow> span_started option \<Rightarrow> span_started go_result" where
  "SpanStarted_SetStartedAt v x = on_message (\<lambda>x. x\<lparr>started_StartedAt := v\<rparr>) x"

definition SpanStarted_SetAttributes :: "attribute option list \<Rightarrow> span_started option \<Rightarrow> span_started go_result" where
  "SpanStarted_SetAttributes v x = on_message (\<lambda>x. x\<lparr>started_Attributes := Some v\<rparr>) x"

definition SpanStarted_ClearTraceId :: "pb_mutable \<Rightarrow> span_started option \<Rightarrow> span_started go_result" where
  "SpanStarted_ClearTraceId rt x = on_message (\<lambda>x. x\<lparr>started_presence := ClearPresent rt (started_presence x) 0, started_TraceId := None\<rparr>) x"

definition SpanStarted_ClearSpanId :: "pb_mutable \<Rightarrow> span_started option \<Rightarrow> span_started go_result" where
  "SpanStarted_ClearSpanId rt x = on_message (\<lambda>x. x\<lparr>started_presence := ClearPresent rt (started_presence x) 1, started_SpanId := None\<rparr>) x"

definition SpanStarted_ClearParentSpanId :: "pb_mutable \<Rightarrow> span_started option \<Rightarrow> span_started go_result" where
  "SpanStarted_ClearParentSpanId rt x = on_message (\<lambda>x. x\<lparr>started_presence := ClearPresent rt (started_presence x) 2, started_ParentSpanId := None\<rparr>) x"

definition SpanStarted_ClearName :: "pb_mutable \<Rightarrow> span_started option \<Rightarrow> span_started go_result" where
  "SpanStarted_ClearName rt x = on_message (\<lambda>x. x\<lparr>started_presence := ClearPresent rt (started_presence x) 3, started_Name := None\<rparr>) x"

definition SpanStarted_ClearStartedAt :: "span_started option \<Rightarrow> span_started go_result" where
  "SpanStarted_ClearStartedAt x = on_message (\<lambda>x. x\<lparr>started_StartedAt := None\<rparr>) x"

section \<open>SpanUpdated\<close>

definition SpanUpdated_Reset :: "span_updated option \<Rightarrow> span_updated go_result" where
  "SpanUpdated_Reset x = on_message (\<lambda>_. \<lparr>updated_TraceId = None, updated_SpanId = None, updated_Attributes = None, updated_presence = 0\<rparr>) x"

definition SpanUpdated_SetTraceId :: "pb_mutable \<Rightarrow> string \<Rightarrow> span_updated option \<Rightarrow> span_updated go_result" where
  "SpanUpdated_SetTraceId rt v x = on_message (\<lambda>x. x\<lparr>updated_TraceId := Some v, updated_presence := SetPresent rt (updated_presence x) 0 3\<rparr>) x"

definition SpanUpdated_SetSpanId :: "pb_mutable \<Rightarrow> string \<Rightarrow> span_updated option \<Rightarrow> span_updated go_result" where
  "SpanUpdated_SetSpanId rt v x = on_message (\<lambda>x. x\<lparr>updated_SpanId := Some v, updated_presence := SetPresent rt (updated_presence x) 1 3\<rparr>) x"

definition SpanUpdated_SetAttributes :: "attribute option list \<Rightarrow> span_updated option \<Rightarrow> span_updated go_result" where
  "SpanUpdated_SetAttributes v x = on_message (\<lambda>x. x\<lparr>updated_Attributes := Some v\<rparr>) x"

definition SpanUpdated_ClearTraceId :: "pb_mutable \<Rightarrow> span_updated option \<Rightarrow> span_updated go_result" where
  "SpanUpdated_ClearTraceId rt x = on_message (\<lambda>x. x\<lparr>updated_presence := ClearPresent rt (updated_presence x) 0, updated_TraceId := None\<rparr>) x"

definition SpanUpdated_ClearSpanId :: "pb_mutable \<Rightarrow> span_updated option \<Rightarrow> span_updated go_result" where
  "SpanUpdated_ClearSpanId rt x = on_message (\<lambda>x. x\<lparr>updated_presence := ClearPresent rt (updated_presence x) 1, updated_SpanId := None\<rparr>) x"

section \<open>SpanEnded\<close>

definition SpanEnded_Reset :: "span_ended option \<Rightarrow> span_ended go_result" where
  "SpanEnded_Reset x = on_message (\<lambda>_. \<lparr>ended_TraceId = None, ended_SpanId = None, ended_EndedAt = None, ended_TerminalType = TERMINAL_TYPE_UNSPECIFIED, ended_ErrorMessage = None, ended_presence = 0\<rparr>) x"

definition SpanEnded_SetTraceId :: "pb_mutable \<Rightarrow> string \<Rightarrow> span_ended option \<Rightarrow> span_ended go_result" where
  "SpanEnded_SetTraceId rt v x = on_message (\<lambda>x. x\<lparr>ended_TraceId := Some v, ended_presence := SetPresent rt (ended_presence x) 0 5\<rparr>) x"

definition SpanEnded_SetSpanId :: "pb_mutable \<Rightarrow> string \<Rightarrow> span_ended option \<Rightarrow> span_ended go_result" where
  "SpanEnded_SetSpanId rt v x = on_message (\<lambda>x. x\<lparr>ended_SpanId := Some v, ended_presence := SetPresent rt (ended_presence x) 1 5\<rparr>) x"

definition SpanEnded_SetEndedAt :: "timestamp option \<Rightarrow> span_ended option \<Rightarrow> span_ended go_result" where
  "SpanEnded_SetEndedAt v x = on_message (\<lambda>x. x\<lparr>ended_EndedAt := v\<rparr>) x"

definition SpanEnded_SetTerminalType :: "pb_mutable \<Rightarrow> SpanEnded_TerminalType \<Rightarrow> span_ended option \<Rightarrow> span_ended go_result" where
  "SpanEnded_SetTerminalType rt v x = on_message (\<lambda>x. x\<lparr>ended_TerminalType := v, ended_presence := SetPresent rt (ended_presence x) 3 5\<rparr>) x"

definition SpanEnded_SetErrorMessage :: "pb_mutable \<Rightarrow> string \<Rightarrow> span_ended option \<Rightarrow> span_ended go_result" where
  "SpanEnded_SetErrorMessage rt v x = on_message (\<lambda>x. x\<lparr>ended_ErrorMessage := Some v, ended_presence := SetPresent rt (ended_presence x) 4 5\<rparr>) x"

definition SpanEnded_ClearTraceId :: "pb_mutable \<Rightarrow> span_ended option \<Rightarrow> span_ended go_result" where
  "SpanEnded_ClearTraceId rt x = on_message (\<lambda>x. x\<lparr>ended_presence := ClearPresent rt (ended_presence x) 0, ended_TraceId := None\<rparr>) x"

definition SpanEnded_ClearSpanId :: "pb_mutable \<Rightarrow> span_ended option \<Rightarrow> span_ended go_result" where
  "SpanEnded_ClearSpanId rt x = on_message (\<lambda>x. x\<lparr>ended_presence := ClearPresent rt (ended_presence x) 1, ended_SpanId := None\<rparr>) x"

definition SpanEnded_ClearEndedAt :: "span_ended option \<Rightarrow> span_ended go_result" where
  "SpanEnded_ClearEndedAt x = on_message (\<lambda>x. x\<lparr>ended_EndedAt := None\<rparr>) x"

definition SpanEnded_ClearTerminalType :: "pb_mutable \<Rightarrow> span_ended option \<Rightarrow> span_ended go_result" where
  "SpanEnded_ClearTerminalType rt x = on_message (\<lambda>x. x\<lparr>ended_presence := ClearPresent rt (ended_presence x) 3, ended_TerminalType := TERMINAL_TYPE_UNSPECIFIED\<rparr>) x"

definition SpanEnded_ClearErrorMessage :: "pb_mutable \<Rightarrow> span_ended option \<Rightarrow> span_ended go_result" where
  "SpanEnded_ClearErrorMessage rt x = on_message (\<lambda>x. x\<lparr>ended_presence := ClearPresent rt (ended_presence x) 4, ended_ErrorMessage := None\<rparr>) x"

section \<open>SpanEvent\<close>

definition SpanEvent_Reset :: "span_event option \<Rightarrow> span_event go_result" where
  "SpanEvent_Reset x = on_message (\<lambda>_. \<lparr>event_TraceId = None, event_SpanId = None, event_Name = None, event_EventAt = None, event_Attributes = None, event_Severity = SEVERITY_UNSPECIFIED, event_presence = 0\<rparr>) x"

definition SpanEvent_SetTraceId :: "pb_mutable \<Rightarrow> string \<Rightarrow> span_event option \<Rightarrow> span_event go_result" where
  "SpanEvent_SetTraceId rt v x = on_message (\<lambda>x. x\<lparr>event_TraceId := Some v, event_presence := SetPresent rt (event_presence x) 0 6\<rparr>) x"

definition SpanEvent_SetSpanId :: "pb_mutable \<Rightarrow> string \<Rightarrow> span_event option \<Rightarrow> span_event go_result" where
  "SpanEvent_SetSpanId rt v x = on_message (\<lambda>x. x\<lparr>event_SpanId := Some v, event_presence := SetPresent rt (event_presence x) 1 6\<rparr>) x"

definition SpanEvent_SetName :: "pb_mutable \<Rightarrow> string \<Rightarrow> span_event option \<Rightarrow> span_event go_result" where
  "SpanEvent_SetName rt v x = on_message (\<lambda>x. x\<lparr>event_Name := Some v, event_presence := SetPresent rt (event_presence x) 2 6\<rparr>) x"

definition SpanEvent_SetEventAt :: "timestamp option \<Rightarrow> span_event option \<Rightarrow> span_event go_result" where
  "SpanEvent_SetEventAt v x = on_message (\<lambda>x. x\<lparr>event_EventAt := v\<rparr>) x"

definition SpanEvent_SetAttributes :: "attribute option list \<Rightarrow> span_event option \<Rightarrow> span_event go_result" where
  "SpanEvent_SetAttributes v x = on_message (\<lambda>x. x\<lparr>event_Attributes := Some v\<rparr>) x"

definition SpanEvent_SetSeverity :: "pb_mutable \<Rightarrow> SpanEvent_Severity \<Rightarrow> span_event option \<Rightarrow> span_event go_result" where
  "SpanEvent_SetSeverity rt v x = on_message (\<lambda>x. x\<lparr>event_Severity := v, event_presence := SetPresent rt (event_presence x) 5 6\<rparr>) x"

definition SpanEvent_ClearTraceId :: "pb_mutable \<Rightarrow> span_event option \<Rightarrow> span_event go_result" where
  "SpanEvent_ClearTraceId rt x = on_message (\<lambda>x. x\<lparr>event_presence := ClearPresent rt (event_presence x) 0, event_TraceId := None\<rparr>) x"

definition SpanEvent_ClearSpanId :: "pb_mutable \<Rightarrow> span_event option \<Rightarrow> span_event go_result" where
  "SpanEvent_ClearSpanId rt x = on_message (\<lambda>x. x\<lparr>event_presence := ClearPresent rt (event_presence x) 1, event_SpanId := None\<rparr>) x"

definition SpanEvent_ClearName :: "pb_mutable \<Rightarrow> span_event option \<Rightarrow> span_event go_result" where
  "SpanEvent_ClearName rt x = on_message (\<lambda>x. x\<lparr>event_presence := ClearPresent rt (event_presence x) 2, event_Name := None\<rparr>) x"

definition SpanEvent_ClearEventAt :: "span_event option \<Rightarrow> span_event go_result" where
  "SpanEvent_ClearEventAt x = on_message (\<lambda>x. x\<lparr>event_EventAt := None\<rparr>) x"

definition SpanEvent_ClearSeverity :: "pb_mutable \<Rightarrow> span_event option \<Rightarrow> span_event go_result" where
  "SpanEvent_ClearSeverity rt x = on_message (\<lambda>x. x\<lparr>event_presence := ClearPresent rt (event_presence x) 5\<rparr>) x"

section \<open>Record\<close>

text \<open>The members of the oneof exclude each other; setting one to nil empties it.\<close>

definition Record_Reset :: "sap_record option \<Rightarrow> sap_record go_result" where
  "Record_Reset x = on_message (\<lambda>_. \<lparr>rec_EmittedAt = None, rec_Kind = None\<rparr>) x"

definition Record_SetEmittedAt :: "timestamp option \<Rightarrow> sap_record option \<Rightarrow> sap_record go_result" where
  "Record_SetEmittedAt v x = on_message (\<lambda>x. x\<lparr>rec_EmittedAt := v\<rparr>) x"

definition Record_ClearEmittedAt :: "sap_record option \<Rightarrow> sap_record go_result" where
  "Record_ClearEmittedAt x = on_message (\<lambda>x. x\<lparr>rec_EmittedAt := None\<rparr>) x"

definition Record_ClearKind :: "sap_record option \<Rightarrow> sap_record go_result" where
  "Record_ClearKind x = on_message (\<lambda>x. x\<lparr>rec_Kind := None\<rparr>) x"

definition Record_HasEmittedAt :: "sap_record option \<Rightarrow> bool" where
  "Record_HasEmittedAt x = (case x of None \<Rightarrow> False | Some x \<Rightarrow> rec_EmittedAt x \<noteq> None)"

definition Record_HasKind :: "sap_record option \<Rightarrow> bool" where
  "Record_HasKind x = (case x of None \<Rightarrow> False | Some x \<Rightarrow> rec_Kind x \<noteq> None)"

definition Record_SetSpanStarted :: "span_started option \<Rightarrow> sap_record option \<Rightarrow> sap_record go_result" where
  "Record_SetSpanStarted v x = on_message (\<lambda>x. if v = None then x\<lparr>rec_Kind := None\<rparr> else x\<lparr>rec_Kind := Some (record_SpanStarted v)\<rparr>) x"

definition Record_HasSpanStarted :: "sap_record option \<Rightarrow> bool" where
  "Record_HasSpanStarted x = (case x of None \<Rightarrow> False
     | Some x \<Rightarrow> (case rec_Kind x of Some (record_SpanStarted _) \<Rightarrow> True | _ \<Rightarrow> False))"

definition Record_ClearSpanStarted :: "sap_record option \<Rightarrow> sap_record go_result" where
  "Record_ClearSpanStarted x = on_message (\<lambda>x. case rec_Kind x of Some (record_SpanStarted _) \<Rightarrow> x\<lparr>rec_Kind := None\<rparr> | _ \<Rightarrow> x) x"

definition Record_SetSpanUpdated :: "span_updated option \<Rightarrow> sap_record option \<Rightarrow> sap_record go_result" where
  "Record_SetSpanUpdated v x = on_message (\<lambda>x. if v = None then x\<lparr>rec_Kind := None\<rparr> else x\<lparr>rec_Kind := Some (record_SpanUpdated v)\<rparr>) x"

definition Record_HasSpanUpdated :: "sap_record option \<Rightarrow> bool" where
  "Record_HasSpanUpdated x = (case x of None \<Rightarrow> False
     | Some x \<Rightarrow> (case rec_Kind x of Some (record_SpanUpdated _) \<Rightarrow> True | _ \<Rightarrow> False))"

definition Record_ClearSpanUpdated :: "sap_record option \<Rightarrow> sap_record go_result" where
  "Record_ClearSpanUpdated x = on_message (\<lambda>x. case rec_Kind x of Some (record_SpanUpdated _) \<Rightarrow> x\<lparr>rec_Kind := None\<rparr> | _ \<Rightarrow> x) x"

definition Record_SetSpanEnded :: "span_ended option \<Rightarrow> sap_record option \<Rightarrow> sap_record go_result" where
  "Record_SetSpanEnded v x = on_message (\<lambda>x. if v = None then x\<lparr>rec_Kind := None\<rparr> else x\<lparr>rec_Kind := Some (record_SpanEnded v)\<rparr>) x"

definition Record_HasSpanEnded :: "sap_record option \<Rightarrow> bool" where
  "Record_HasSpanEnded x = (case x of None \<Rightarrow> False
     | Some x \<Rightarrow> (case rec_Kind x of Some (record_SpanEnded _) \<Rightarrow> True | _ \<Rightarrow> False))"

definition Record_ClearSpanEnded :: "sap_record option \<Rightarrow> sap_record go_result" where
  "Record_ClearSpanEnded x = on_message (\<lambda>x. case rec_Kind x of Some (record_SpanEnded _) \<Rightarrow> x\<lparr>rec_Kind := None\<rparr> | _ \<Rightarrow> x) x"

definition Record_SetSpanEvent :: "span_event option \<Rightarrow> sap_record option \<Rightarrow> sap_record go_result" where
  "Record_SetSpanEvent v x = on_message (\<lambda>x. if v = None then x\<lparr>rec_Kind := None\<rparr> else x\<lparr>rec_Kind := Some (record_SpanEvent v)\<rparr>) x"

definition Record_HasSpanEvent :: "sap_record option \<Rightarrow> bool" where
  "Record_HasSpanEvent x = (case x of None \<Rightarrow> False
     | Some x \<Rightarrow> (case rec_Kind x of Some (record_SpanEvent _) \<Rightarrow> True | _ \<Rightarrow> False))"

definition Record_ClearSpanEvent :: "sap_record option \<Rightarrow> sap_record go_result" where
  "Record_ClearSpanEvent x = on_message (\<lambda>x. case rec_Kind x of Some (record_SpanEvent _) \<Rightarrow> x\<lparr>rec_Kind := None\<rparr> | _ \<Rightarrow> x) x"

section \<open>Changes of a field\<close>

fun changed :: "('v \<Rightarrow> 'm option \<Rightarrow> 'm go_result) \<Rightarrow> ('m option \<Rightarrow> 'm go_result) \<Rightarrow> 'v option list \<Rightarrow> 'm \<Rightarrow> 'm go_result" where
  "changed put erase [] m = Inr m"
| "changed put erase (c # changes) m =
     bind_result (case c of Some v \<Rightarrow> put v (Some m) | None \<Rightarrow> erase (Some m)) (changed put erase changes)"

section \<open>Fields\<close>

text \<open>
  A field of a message that can be set, cleared and tested: \<open>present v\<close> says whether setting it to \<open>v\<close>
  makes it present, which for pointers is not nil.
\<close>

locale message_field =
  fixes lawful :: bool
    and present :: "'v \<Rightarrow> bool"
    and unset :: 'v
    and get :: "'m option \<Rightarrow> 'v"
    and has :: "'m option \<Rightarrow> bool"
    and put :: "'v \<Rightarrow> 'm option \<Rightarrow> 'm go_result"
    and erase :: "'m option \<Rightarrow> 'm go_result"
  assumes put_field: "lawful \<Longrightarrow> \<exists>m'. put v (Some m) = Inr m' \<and> get (Some m') = v \<and> (has (Some m') \<longleftrightarrow> present v)"
    and erase_field: "lawful \<Longrightarrow> \<exists>m'. erase (Some m) = Inr m' \<and> get (Some m') = unset \<and> \<not> has (Some m')"
    and nil_field: "get None = unset" "\<not> has None" "put v None = Inl NilDereference" "erase None = Inl NilDereference"
begin

text \<open>The last of a sequence of changes counts: \<open>Some v\<close> sets the field to \<open>v\<close>, \<open>None\<close> clears it.\<close>

lemma last_change:
  assumes lawful and "changes \<noteq> []"
  shows "\<exists>m'. changed put erase changes m = Inr m'
    \<and> get (Some m') = value_or unset (last changes) \<and> (has (Some m') \<longleftrightarrow> (\<exists>v. last changes = Some v \<and> present v))"
  using assms(2)
proof (induction changes arbitrary: m)
  case (Cons c changes)
  obtain m1 where m1: "(case c of Some v \<Rightarrow> put v (Some m) | None \<Rightarrow> erase (Some m)) = Inr m1"
      "get (Some m1) = value_or unset c" "has (Some m1) \<longleftrightarrow> (\<exists>v. c = Some v \<and> present v)"
    using put_field [OF assms(1)] erase_field [OF assms(1)] by (cases c) fastforce+
  show ?case
  proof (cases "changes = []")
    case True
    then show ?thesis using m1 by simp
  next
    case False
    then show ?thesis using m1 Cons.IH [of m1] by simp
  qed
qed simp

end

section \<open>Every field of the messages\<close>

interpretation attribute_Key_field: message_field "pb_mutable_laws rt" "\<lambda>_. True" "[]" Attribute_GetKey
    "Attribute_HasKey (pm_rt rt)" "Attribute_SetKey rt" "Attribute_ClearKey rt" for rt
  by unfold_locales (auto simp: Attribute_GetKey_def Attribute_HasKey_def Attribute_SetKey_def Attribute_ClearKey_def pb_mutable_lawsD(1,2) split: option.splits)

interpretation attribute_Value_field: message_field "pb_mutable_laws rt" "\<lambda>_. True" "[]" Attribute_GetValue
    "Attribute_HasValue (pm_rt rt)" "Attribute_SetValue rt" "Attribute_ClearValue rt" for rt
  by unfold_locales (auto simp: Attribute_GetValue_def Attribute_HasValue_def Attribute_SetValue_def Attribute_ClearValue_def pb_mutable_lawsD(1,2) split: option.splits)

interpretation started_TraceId_field: message_field "pb_mutable_laws rt" "\<lambda>_. True" "[]" SpanStarted_GetTraceId
    "SpanStarted_HasTraceId (pm_rt rt)" "SpanStarted_SetTraceId rt" "SpanStarted_ClearTraceId rt" for rt
  by unfold_locales (auto simp: SpanStarted_GetTraceId_def SpanStarted_HasTraceId_def SpanStarted_SetTraceId_def SpanStarted_ClearTraceId_def pb_mutable_lawsD(1,2) split: option.splits)

interpretation started_SpanId_field: message_field "pb_mutable_laws rt" "\<lambda>_. True" "[]" SpanStarted_GetSpanId
    "SpanStarted_HasSpanId (pm_rt rt)" "SpanStarted_SetSpanId rt" "SpanStarted_ClearSpanId rt" for rt
  by unfold_locales (auto simp: SpanStarted_GetSpanId_def SpanStarted_HasSpanId_def SpanStarted_SetSpanId_def SpanStarted_ClearSpanId_def pb_mutable_lawsD(1,2) split: option.splits)

interpretation started_ParentSpanId_field: message_field "pb_mutable_laws rt" "\<lambda>_. True" "[]" SpanStarted_GetParentSpanId
    "SpanStarted_HasParentSpanId (pm_rt rt)" "SpanStarted_SetParentSpanId rt" "SpanStarted_ClearParentSpanId rt" for rt
  by unfold_locales (auto simp: SpanStarted_GetParentSpanId_def SpanStarted_HasParentSpanId_def SpanStarted_SetParentSpanId_def SpanStarted_ClearParentSpanId_def pb_mutable_lawsD(1,2) split: option.splits)

interpretation started_Name_field: message_field "pb_mutable_laws rt" "\<lambda>_. True" "[]" SpanStarted_GetName
    "SpanStarted_HasName (pm_rt rt)" "SpanStarted_SetName rt" "SpanStarted_ClearName rt" for rt
  by unfold_locales (auto simp: SpanStarted_GetName_def SpanStarted_HasName_def SpanStarted_SetName_def SpanStarted_ClearName_def pb_mutable_lawsD(1,2) split: option.splits)

interpretation started_StartedAt_field: message_field True "\<lambda>v. v \<noteq> None" None SpanStarted_GetStartedAt SpanStarted_HasStartedAt SpanStarted_SetStartedAt SpanStarted_ClearStartedAt
  by unfold_locales (auto simp: SpanStarted_GetStartedAt_def SpanStarted_HasStartedAt_def SpanStarted_SetStartedAt_def SpanStarted_ClearStartedAt_def split: option.splits isRecord_Kind.splits)

interpretation updated_TraceId_field: message_field "pb_mutable_laws rt" "\<lambda>_. True" "[]" SpanUpdated_GetTraceId
    "SpanUpdated_HasTraceId (pm_rt rt)" "SpanUpdated_SetTraceId rt" "SpanUpdated_ClearTraceId rt" for rt
  by unfold_locales (auto simp: SpanUpdated_GetTraceId_def SpanUpdated_HasTraceId_def SpanUpdated_SetTraceId_def SpanUpdated_ClearTraceId_def pb_mutable_lawsD(1,2) split: option.splits)

interpretation updated_SpanId_field: message_field "pb_mutable_laws rt" "\<lambda>_. True" "[]" SpanUpdated_GetSpanId
    "SpanUpdated_HasSpanId (pm_rt rt)" "SpanUpdated_SetSpanId rt" "SpanUpdated_ClearSpanId rt" for rt
  by unfold_locales (auto simp: SpanUpdated_GetSpanId_def SpanUpdated_HasSpanId_def SpanUpdated_SetSpanId_def SpanUpdated_ClearSpanId_def pb_mutable_lawsD(1,2) split: option.splits)

interpretation ended_TraceId_field: message_field "pb_mutable_laws rt" "\<lambda>_. True" "[]" SpanEnded_GetTraceId
    "SpanEnded_HasTraceId (pm_rt rt)" "SpanEnded_SetTraceId rt" "SpanEnded_ClearTraceId rt" for rt
  by unfold_locales (auto simp: SpanEnded_GetTraceId_def SpanEnded_HasTraceId_def SpanEnded_SetTraceId_def SpanEnded_ClearTraceId_def pb_mutable_lawsD(1,2) split: option.splits)

interpretation ended_SpanId_field: message_field "pb_mutable_laws rt" "\<lambda>_. True" "[]" SpanEnded_GetSpanId
    "SpanEnded_HasSpanId (pm_rt rt)" "SpanEnded_SetSpanId rt" "SpanEnded_ClearSpanId rt" for rt
  by unfold_locales (auto simp: SpanEnded_GetSpanId_def SpanEnded_HasSpanId_def SpanEnded_SetSpanId_def SpanEnded_ClearSpanId_def pb_mutable_lawsD(1,2) split: option.splits)

interpretation ended_EndedAt_field: message_field True "\<lambda>v. v \<noteq> None" None SpanEnded_GetEndedAt SpanEnded_HasEndedAt SpanEnded_SetEndedAt SpanEnded_ClearEndedAt
  by unfold_locales (auto simp: SpanEnded_GetEndedAt_def SpanEnded_HasEndedAt_def SpanEnded_SetEndedAt_def SpanEnded_ClearEndedAt_def split: option.splits isRecord_Kind.splits)

interpretation ended_TerminalType_field: message_field "pb_mutable_laws rt" "\<lambda>_. True" "TERMINAL_TYPE_UNSPECIFIED" "SpanEnded_GetTerminalType (pm_rt rt)"
    "SpanEnded_HasTerminalType (pm_rt rt)" "SpanEnded_SetTerminalType rt" "SpanEnded_ClearTerminalType rt" for rt
  by unfold_locales (auto simp: SpanEnded_GetTerminalType_def SpanEnded_HasTerminalType_def SpanEnded_SetTerminalType_def SpanEnded_ClearTerminalType_def pb_mutable_lawsD(1,2) split: option.splits)

interpretation ended_ErrorMessage_field: message_field "pb_mutable_laws rt" "\<lambda>_. True" "[]" SpanEnded_GetErrorMessage
    "SpanEnded_HasErrorMessage (pm_rt rt)" "SpanEnded_SetErrorMessage rt" "SpanEnded_ClearErrorMessage rt" for rt
  by unfold_locales (auto simp: SpanEnded_GetErrorMessage_def SpanEnded_HasErrorMessage_def SpanEnded_SetErrorMessage_def SpanEnded_ClearErrorMessage_def pb_mutable_lawsD(1,2) split: option.splits)

interpretation event_TraceId_field: message_field "pb_mutable_laws rt" "\<lambda>_. True" "[]" SpanEvent_GetTraceId
    "SpanEvent_HasTraceId (pm_rt rt)" "SpanEvent_SetTraceId rt" "SpanEvent_ClearTraceId rt" for rt
  by unfold_locales (auto simp: SpanEvent_GetTraceId_def SpanEvent_HasTraceId_def SpanEvent_SetTraceId_def SpanEvent_ClearTraceId_def pb_mutable_lawsD(1,2) split: option.splits)

interpretation event_SpanId_field: message_field "pb_mutable_laws rt" "\<lambda>_. True" "[]" SpanEvent_GetSpanId
    "SpanEvent_HasSpanId (pm_rt rt)" "SpanEvent_SetSpanId rt" "SpanEvent_ClearSpanId rt" for rt
  by unfold_locales (auto simp: SpanEvent_GetSpanId_def SpanEvent_HasSpanId_def SpanEvent_SetSpanId_def SpanEvent_ClearSpanId_def pb_mutable_lawsD(1,2) split: option.splits)

interpretation event_Name_field: message_field "pb_mutable_laws rt" "\<lambda>_. True" "[]" SpanEvent_GetName
    "SpanEvent_HasName (pm_rt rt)" "SpanEvent_SetName rt" "SpanEvent_ClearName rt" for rt
  by unfold_locales (auto simp: SpanEvent_GetName_def SpanEvent_HasName_def SpanEvent_SetName_def SpanEvent_ClearName_def pb_mutable_lawsD(1,2) split: option.splits)

interpretation event_EventAt_field: message_field True "\<lambda>v. v \<noteq> None" None SpanEvent_GetEventAt SpanEvent_HasEventAt SpanEvent_SetEventAt SpanEvent_ClearEventAt
  by unfold_locales (auto simp: SpanEvent_GetEventAt_def SpanEvent_HasEventAt_def SpanEvent_SetEventAt_def SpanEvent_ClearEventAt_def split: option.splits isRecord_Kind.splits)

interpretation event_Severity_field: message_field "pb_mutable_laws rt" "\<lambda>_. True" "Default_SpanEvent_Severity" "SpanEvent_GetSeverity (pm_rt rt)"
    "SpanEvent_HasSeverity (pm_rt rt)" "SpanEvent_SetSeverity rt" "SpanEvent_ClearSeverity rt" for rt
  by unfold_locales (auto simp: SpanEvent_GetSeverity_def SpanEvent_HasSeverity_def SpanEvent_SetSeverity_def SpanEvent_ClearSeverity_def pb_mutable_lawsD(1,2) split: option.splits)

interpretation record_EmittedAt_field: message_field True "\<lambda>v. v \<noteq> None" None Record_GetEmittedAt Record_HasEmittedAt Record_SetEmittedAt Record_ClearEmittedAt
  by unfold_locales (auto simp: Record_GetEmittedAt_def Record_HasEmittedAt_def Record_SetEmittedAt_def Record_ClearEmittedAt_def split: option.splits isRecord_Kind.splits)

interpretation record_SpanStarted_field: message_field True "\<lambda>v. v \<noteq> None" None Record_GetSpanStarted Record_HasSpanStarted Record_SetSpanStarted Record_ClearSpanStarted
  by unfold_locales (auto simp: Record_GetSpanStarted_def Record_HasSpanStarted_def Record_SetSpanStarted_def Record_ClearSpanStarted_def split: option.splits isRecord_Kind.splits)

interpretation record_SpanUpdated_field: message_field True "\<lambda>v. v \<noteq> None" None Record_GetSpanUpdated Record_HasSpanUpdated Record_SetSpanUpdated Record_ClearSpanUpdated
  by unfold_locales (auto simp: Record_GetSpanUpdated_def Record_HasSpanUpdated_def Record_SetSpanUpdated_def Record_ClearSpanUpdated_def split: option.splits isRecord_Kind.splits)

interpretation record_SpanEnded_field: message_field True "\<lambda>v. v \<noteq> None" None Record_GetSpanEnded Record_HasSpanEnded Record_SetSpanEnded Record_ClearSpanEnded
  by unfold_locales (auto simp: Record_GetSpanEnded_def Record_HasSpanEnded_def Record_SetSpanEnded_def Record_ClearSpanEnded_def split: option.splits isRecord_Kind.splits)

interpretation record_SpanEvent_field: message_field True "\<lambda>v. v \<noteq> None" None Record_GetSpanEvent Record_HasSpanEvent Record_SetSpanEvent Record_ClearSpanEvent
  by unfold_locales (auto simp: Record_GetSpanEvent_def Record_HasSpanEvent_def Record_SetSpanEvent_def Record_ClearSpanEvent_def split: option.splits isRecord_Kind.splits)

section \<open>Builders and setters\<close>

text \<open>A builder makes the message that setting its fields on a reset message makes.\<close>

definition optionally :: "('v \<Rightarrow> 'm option \<Rightarrow> 'm go_result) \<Rightarrow> 'v option \<Rightarrow> 'm \<Rightarrow> 'm go_result" where
  "optionally put v m = (case v of None \<Rightarrow> Inr m | Some v \<Rightarrow> put v (Some m))"

lemma optionally_simps [simp]: "optionally put None m = Inr m" "optionally put (Some v) m = put v (Some m)"
  by (simp_all add: optionally_def)

lemma Attribute_Build_setters:
  assumes "pb_mutable_laws rt"
  shows "bind_result (bind_result (bind_result (Attribute_Reset (Some m))
    (optionally (Attribute_SetKey rt) (ab_Key b)))
    (optionally (Attribute_SetValue rt) (ab_Value b)))
    (\<lambda>m. Attribute_SetDisplayHints (ab_DisplayHints b) (Some m)) =
    Inr (Attribute_Build (pm_rt rt) b)"
  by (simp add: Attribute_Build_def Attribute_Reset_def Attribute_SetKey_def Attribute_SetValue_def Attribute_SetDisplayHints_def optionally_def pb_mutable_lawsD(3) [OF assms] Let_def split: option.split)

lemma SpanStarted_Build_setters:
  assumes "pb_mutable_laws rt"
  shows "bind_result (bind_result (bind_result (bind_result (bind_result (bind_result (SpanStarted_Reset (Some m))
    (optionally (SpanStarted_SetTraceId rt) (stb_TraceId b)))
    (optionally (SpanStarted_SetSpanId rt) (stb_SpanId b)))
    (optionally (SpanStarted_SetParentSpanId rt) (stb_ParentSpanId b)))
    (optionally (SpanStarted_SetName rt) (stb_Name b)))
    (\<lambda>m. SpanStarted_SetStartedAt (stb_StartedAt b) (Some m)))
    (\<lambda>m. SpanStarted_SetAttributes (stb_Attributes b) (Some m)) =
    Inr (SpanStarted_Build (pm_rt rt) b)"
  by (simp add: SpanStarted_Build_def SpanStarted_Reset_def SpanStarted_SetTraceId_def SpanStarted_SetSpanId_def SpanStarted_SetParentSpanId_def SpanStarted_SetName_def SpanStarted_SetStartedAt_def SpanStarted_SetAttributes_def optionally_def pb_mutable_lawsD(3) [OF assms] Let_def split: option.split)

lemma SpanUpdated_Build_setters:
  assumes "pb_mutable_laws rt"
  shows "bind_result (bind_result (bind_result (SpanUpdated_Reset (Some m))
    (optionally (SpanUpdated_SetTraceId rt) (upb_TraceId b)))
    (optionally (SpanUpdated_SetSpanId rt) (upb_SpanId b)))
    (\<lambda>m. SpanUpdated_SetAttributes (upb_Attributes b) (Some m)) =
    Inr (SpanUpdated_Build (pm_rt rt) b)"
  by (simp add: SpanUpdated_Build_def SpanUpdated_Reset_def SpanUpdated_SetTraceId_def SpanUpdated_SetSpanId_def SpanUpdated_SetAttributes_def optionally_def pb_mutable_lawsD(3) [OF assms] Let_def split: option.split)

lemma SpanEnded_Build_setters:
  assumes "pb_mutable_laws rt"
  shows "bind_result (bind_result (bind_result (bind_result (bind_result (SpanEnded_Reset (Some m))
    (optionally (SpanEnded_SetTraceId rt) (enb_TraceId b)))
    (optionally (SpanEnded_SetSpanId rt) (enb_SpanId b)))
    (\<lambda>m. SpanEnded_SetEndedAt (enb_EndedAt b) (Some m)))
    (optionally (SpanEnded_SetTerminalType rt) (enb_TerminalType b)))
    (optionally (SpanEnded_SetErrorMessage rt) (enb_ErrorMessage b)) =
    Inr (SpanEnded_Build (pm_rt rt) b)"
  by (simp add: SpanEnded_Build_def SpanEnded_Reset_def SpanEnded_SetTraceId_def SpanEnded_SetSpanId_def SpanEnded_SetEndedAt_def SpanEnded_SetTerminalType_def SpanEnded_SetErrorMessage_def optionally_def pb_mutable_lawsD(3) [OF assms] Let_def split: option.split)

lemma SpanEvent_Build_setters:
  assumes "pb_mutable_laws rt"
  shows "bind_result (bind_result (bind_result (bind_result (bind_result (bind_result (SpanEvent_Reset (Some m))
    (optionally (SpanEvent_SetTraceId rt) (evb_TraceId b)))
    (optionally (SpanEvent_SetSpanId rt) (evb_SpanId b)))
    (optionally (SpanEvent_SetName rt) (evb_Name b)))
    (\<lambda>m. SpanEvent_SetEventAt (evb_EventAt b) (Some m)))
    (\<lambda>m. SpanEvent_SetAttributes (evb_Attributes b) (Some m)))
    (optionally (SpanEvent_SetSeverity rt) (evb_Severity b)) =
    Inr (SpanEvent_Build (pm_rt rt) b)"
  by (simp add: SpanEvent_Build_def SpanEvent_Reset_def SpanEvent_SetTraceId_def SpanEvent_SetSpanId_def SpanEvent_SetName_def SpanEvent_SetEventAt_def SpanEvent_SetAttributes_def SpanEvent_SetSeverity_def optionally_def pb_mutable_lawsD(3) [OF assms] Let_def split: option.split)

text \<open>For the oneof the members a builder leaves nil are not set, and of the others the last counts.\<close>

lemma Record_Build_setters:
  "bind_result (Record_Reset (Some m)) (\<lambda>m. bind_result (Record_SetEmittedAt (rb_EmittedAt b) (Some m))
    (\<lambda>m. bind_result (if rb_SpanStarted b = None then Inr m else Record_SetSpanStarted (rb_SpanStarted b) (Some m))
    (\<lambda>m. bind_result (if rb_SpanUpdated b = None then Inr m else Record_SetSpanUpdated (rb_SpanUpdated b) (Some m))
    (\<lambda>m. bind_result (if rb_SpanEnded b = None then Inr m else Record_SetSpanEnded (rb_SpanEnded b) (Some m))
    (\<lambda>m. if rb_SpanEvent b = None then Inr m else Record_SetSpanEvent (rb_SpanEvent b) (Some m)))))) = Inr (Record_Build b)"
  by (simp add: Record_Build_def Record_Reset_def Record_SetEmittedAt_def Record_SetSpanStarted_def Record_SetSpanUpdated_def
      Record_SetSpanEnded_def Record_SetSpanEvent_def Let_def)

end
