(* ===== verification/Hub.thy ===== *)
theory Hub
  imports Proto
begin

text \<open>
  The hub of \<open>hub.go\<close>, one operation at a time: buffered channels on a heap, the set of
  subscribed channels, and what each operation does to them, panics included. The order in
  which Go iterates over the set of subscribers is an argument of the operations that do so.
  \<open>Hub_Conc\<close> takes the operations apart and interleaves them.
\<close>

section \<open>Channels\<close>

record channel =
  buffered :: "sap_record option list"
  capacity :: nat
  is_closed :: bool

record chan_world =
  channels :: "addr \<rightharpoonup> channel"
  next_chan :: addr

definition make_chan :: "nat \<Rightarrow> chan_world \<Rightarrow> addr \<times> chan_world" where
  "make_chan buffer w = (next_chan w,
     w\<lparr>channels := (channels w)(next_chan w \<mapsto> \<lparr>buffered = [], capacity = buffer, is_closed = False\<rparr>),
       next_chan := Suc (next_chan w)\<rparr>)"

definition close_chan :: "addr \<Rightarrow> chan_world \<Rightarrow> chan_world go_result" where
  "close_chan ch w = (case channels w ch of
     None \<Rightarrow> Inl CloseOfNilChannel
   | Some c \<Rightarrow> if is_closed c then Inl CloseOfClosedChannel
       else Inr (w\<lparr>channels := (channels w)(ch \<mapsto> c\<lparr>is_closed := True\<rparr>)\<rparr>))"

text \<open>A send in a \<open>select\<close> with a \<open>default\<close>: a full buffer drops the value, and so does nil.\<close>

definition offered :: "sap_record option \<Rightarrow> channel \<Rightarrow> channel" where
  "offered r c = (if length (buffered c) < capacity c then c\<lparr>buffered := buffered c @ [r]\<rparr> else c)"

definition try_send :: "addr \<Rightarrow> sap_record option \<Rightarrow> chan_world \<Rightarrow> chan_world go_result" where
  "try_send ch r w = (case channels w ch of
     None \<Rightarrow> Inr w
   | Some c \<Rightarrow> if is_closed c then Inl SendOnClosedChannel
       else Inr (w\<lparr>channels := (channels w)(ch \<mapsto> offered r c)\<rparr>))"

text \<open>A receive: a value, the closed state, or (\<open>None\<close>) a receiver that has to wait.\<close>

definition receive :: "addr \<Rightarrow> chan_world \<Rightarrow> ((sap_record option) option \<times> chan_world) option" where
  "receive ch w = (case channels w ch of
     None \<Rightarrow> None
   | Some c \<Rightarrow> (case buffered c of
       r # rs \<Rightarrow> Some (Some r, w\<lparr>channels := (channels w)(ch \<mapsto> c\<lparr>buffered := rs\<rparr>)\<rparr>)
     | [] \<Rightarrow> if is_closed c then Some (None, w) else None))"

section \<open>The hub\<close>

record hub =
  subs :: "addr set"
  closed :: bool

definition NewHub :: hub where
  "NewHub = \<lparr>subs = {}, closed = False\<rparr>"

text \<open>The function \<open>Subscribe\<close> returns: it does nothing, or unsubscribes a channel.\<close>

datatype cancel_func = CancelNothing | CancelSub addr

text \<open>A hub is an \<open>option\<close>: \<open>None\<close> is a nil \<open>*Hub\<close>.\<close>

definition Subscribe :: "hub option \<Rightarrow> int \<Rightarrow> chan_world \<Rightarrow> (addr \<times> cancel_func \<times> hub option \<times> chan_world) go_result" where
  "Subscribe h buffer w =
    (let buffer = (if buffer \<le> 0 then 256 else buffer);
         (ch, w) = make_chan (nat buffer) w
     in case h of
          None \<Rightarrow> bind_result (close_chan ch w) (\<lambda>w. Inr (ch, CancelNothing, None, w))
        | Some hb \<Rightarrow>
            if closed hb then bind_result (close_chan ch w) (\<lambda>w. Inr (ch, CancelNothing, Some hb, w))
            else Inr (ch, CancelSub ch, Some (hb\<lparr>subs := insert ch (subs hb)\<rparr>), w))"

definition cancel :: "cancel_func \<Rightarrow> hub \<times> chan_world \<Rightarrow> (hub \<times> chan_world) go_result" where
  "cancel f s = (case f of
     CancelNothing \<Rightarrow> Inr s
   | CancelSub ch \<Rightarrow> (case s of (hb, w) \<Rightarrow>
       if ch \<in> subs hb
       then bind_result (close_chan ch w) (\<lambda>w. Inr (hb\<lparr>subs := subs hb - {ch}\<rparr>, w))
       else Inr (hb, w)))"

fun publish_loop :: "addr list \<Rightarrow> sap_record option \<Rightarrow> chan_world \<Rightarrow> chan_world go_result" where
  "publish_loop [] record w = Inr w"
| "publish_loop (ch # chs) record w = bind_result (try_send ch record w) (publish_loop chs record)"

definition Publish :: "addr list \<Rightarrow> hub option \<Rightarrow> sap_record option \<Rightarrow> chan_world \<Rightarrow> chan_world go_result" where
  "Publish order h record w = (case h of
     None \<Rightarrow> Inr w
   | Some hb \<Rightarrow> if closed hb then Inr w else publish_loop order record w)"

fun close_loop :: "addr list \<Rightarrow> hub \<times> chan_world \<Rightarrow> (hub \<times> chan_world) go_result" where
  "close_loop [] s = Inr s"
| "close_loop (ch # chs) (hb, w) =
     bind_result (close_chan ch w) (\<lambda>w. close_loop chs (hb\<lparr>subs := subs hb - {ch}\<rparr>, w))"

definition Close :: "addr list \<Rightarrow> hub option \<Rightarrow> chan_world \<Rightarrow> (hub option \<times> chan_world) go_result" where
  "Close order h w = (case h of
     None \<Rightarrow> Inr (None, w)
   | Some hb \<Rightarrow> if closed hb then Inr (Some hb, w)
       else bind_result (close_loop order (hb\<lparr>closed := True\<rparr>, w)) (\<lambda>(hb, w). Inr (Some hb, w)))"

section \<open>Invariant\<close>

text \<open>An iteration order of a set: each element once.\<close>

definition enumerates :: "'a list \<Rightarrow> 'a set \<Rightarrow> bool" where
  "enumerates xs A \<longleftrightarrow> distinct xs \<and> set xs = A"

definition world_inv :: "chan_world \<Rightarrow> bool" where
  "world_inv w \<longleftrightarrow> (\<forall>ch c. channels w ch = Some c \<longrightarrow>
     ch < next_chan w \<and> 0 < capacity c \<and> length (buffered c) \<le> capacity c)"

definition hub_inv :: "hub \<times> chan_world \<Rightarrow> bool" where
  "hub_inv s \<longleftrightarrow> (case s of (hb, w) \<Rightarrow> world_inv w \<and> finite (subs hb) \<and> (closed hb \<longrightarrow> subs hb = {})
     \<and> (\<forall>ch \<in> subs hb. \<exists>c. channels w ch = Some c \<and> \<not> is_closed c))"

lemma hub_invI:
  assumes "world_inv w" and "finite (subs hb)" and "closed hb \<Longrightarrow> subs hb = {}"
    and "\<And>ch. ch \<in> subs hb \<Longrightarrow> \<exists>c. channels w ch = Some c \<and> \<not> is_closed c"
  shows "hub_inv (hb, w)"
  using assms by (auto simp: hub_inv_def)

lemma hub_invD:
  assumes "hub_inv (hb, w)"
  shows "world_inv w" and "finite (subs hb)" and "closed hb \<Longrightarrow> subs hb = {}"
    and "ch \<in> subs hb \<Longrightarrow> \<exists>c. channels w ch = Some c \<and> \<not> is_closed c"
  using assms by (auto simp: hub_inv_def)

lemma offered_simps [simp]:
  "capacity (offered r c) = capacity c" "is_closed (offered r c) = is_closed c"
  "length (buffered c) \<le> capacity c \<Longrightarrow> length (buffered (offered r c)) \<le> capacity c"
  by (simp_all add: offered_def)

lemma world_inv_upd:
  assumes "world_inv w" and "channels w ch = Some c" and "capacity c' = capacity c"
    and "length (buffered c') \<le> capacity c'"
  shows "world_inv (w\<lparr>channels := (channels w)(ch \<mapsto> c')\<rparr>)"
  using assms by (auto simp: world_inv_def)

section \<open>Each operation returns\<close>

lemma close_chan_open:
  assumes "channels w ch = Some c" and "\<not> is_closed c"
  shows "close_chan ch w = Inr (w\<lparr>channels := (channels w)(ch \<mapsto> c\<lparr>is_closed := True\<rparr>)\<rparr>)"
  using assms by (simp add: close_chan_def)

text \<open>A publication on open channels reaches each of them, whatever the order.\<close>

definition deliver :: "addr set \<Rightarrow> sap_record option \<Rightarrow> chan_world \<Rightarrow> chan_world" where
  "deliver A r w = w\<lparr>channels := (\<lambda>ch. if ch \<in> A then map_option (offered r) (channels w ch) else channels w ch)\<rparr>"

lemma publish_loop_deliver:
  assumes "distinct order" and "\<And>ch. ch \<in> set order \<Longrightarrow> \<exists>c. channels w ch = Some c \<and> \<not> is_closed c"
  shows "publish_loop order r w = Inr (deliver (set order) r w)"
  using assms
proof (induction order arbitrary: w)
  case (Cons ch chs)
  obtain c where c: "channels w ch = Some c" "\<not> is_closed c"
    using Cons.prems(2) by auto
  let ?w = "w\<lparr>channels := (channels w)(ch \<mapsto> offered r c)\<rparr>"
  have "try_send ch r w = Inr ?w"
    using c by (simp add: try_send_def)
  moreover have "publish_loop chs r ?w = Inr (deliver (set chs) r ?w)"
    using Cons.prems by (intro Cons.IH) auto
  moreover have "deliver (set chs) r ?w = deliver (set (ch # chs)) r w"
    using Cons.prems(1) c by (auto simp: deliver_def fun_eq_iff)
  ultimately show ?case by simp
qed (simp add: deliver_def)

definition close_all :: "addr set \<Rightarrow> chan_world \<Rightarrow> chan_world" where
  "close_all A w = w\<lparr>channels := (\<lambda>ch. if ch \<in> A then map_option (\<lambda>c. c\<lparr>is_closed := True\<rparr>) (channels w ch) else channels w ch)\<rparr>"

lemma close_loop_all:
  assumes "distinct order" and "\<And>ch. ch \<in> set order \<Longrightarrow> \<exists>c. channels w ch = Some c \<and> \<not> is_closed c"
  shows "close_loop order (hb, w) = Inr (hb\<lparr>subs := subs hb - set order\<rparr>, close_all (set order) w)"
  using assms
proof (induction order arbitrary: w hb)
  case (Cons ch chs)
  obtain c where c: "channels w ch = Some c" "\<not> is_closed c"
    using Cons.prems(2) by auto
  let ?w = "w\<lparr>channels := (channels w)(ch \<mapsto> c\<lparr>is_closed := True\<rparr>)\<rparr>"
  have "close_loop chs (hb\<lparr>subs := subs hb - {ch}\<rparr>, ?w)
      = Inr (hb\<lparr>subs := subs hb - {ch} - set chs\<rparr>, close_all (set chs) ?w)"
    using Cons.prems by (subst Cons.IH) auto
  moreover have "close_all (set chs) ?w = close_all (set (ch # chs)) w"
    using Cons.prems(1) c by (auto simp: close_all_def fun_eq_iff)
  moreover have "subs hb - {ch} - set chs = subs hb - set (ch # chs)" by auto
  ultimately show ?case by (simp add: close_chan_open [OF c])
qed (simp add: close_all_def)

lemma world_inv_deliver: "world_inv w \<Longrightarrow> world_inv (deliver A r w)"
  by (auto simp: world_inv_def deliver_def split: if_splits)

lemma world_inv_close_all: "world_inv w \<Longrightarrow> world_inv (close_all A w)"
  by (auto simp: world_inv_def close_all_def split: if_splits)

lemma Publish_deliver:
  assumes "hub_inv (hb, w)" and "enumerates order (subs hb)"
  shows "Publish order (Some hb) r w = Inr (deliver (subs hb) r w)" and "hub_inv (hb, deliver (subs hb) r w)"
proof -
  have "deliver {} r w = w" by (simp add: deliver_def)
  then show "Publish order (Some hb) r w = Inr (deliver (subs hb) r w)"
    using assms publish_loop_deliver [of order w r] hub_invD [OF assms(1)]
    by (auto simp: Publish_def enumerates_def)
  show "hub_inv (hb, deliver (subs hb) r w)"
    using hub_invD [OF assms(1)] world_inv_deliver [of w]
    by (intro hub_invI) (fastforce simp: deliver_def)+
qed

lemma Close_closes:
  assumes "hub_inv (hb, w)" and "enumerates order (subs hb)"
  shows "Close order (Some hb) w = Inr (Some \<lparr>subs = {}, closed = True\<rparr>, close_all (subs hb) w)"
    and "hub_inv (\<lparr>subs = {}, closed = True\<rparr>, close_all (subs hb) w)"
proof -
  have "close_all {} w = w" by (simp add: close_all_def)
  then show "Close order (Some hb) w = Inr (Some \<lparr>subs = {}, closed = True\<rparr>, close_all (subs hb) w)"
    using assms close_loop_all [of order w "hb\<lparr>closed := True\<rparr>"] hub_invD [OF assms(1)]
    by (cases hb) (auto simp: Close_def enumerates_def)
  show "hub_inv (\<lparr>subs = {}, closed = True\<rparr>, close_all (subs hb) w)"
    using hub_invD(1) [OF assms(1)] world_inv_close_all by (intro hub_invI) auto
qed

lemma Subscribe_cases:
  fixes hb :: hub and w :: chan_world and buffer :: int
  assumes "hub_inv (hb, w)"
  defines "n \<equiv> nat (if buffer \<le> 0 then 256 else buffer)" and "ch \<equiv> next_chan w"
  defines "c \<equiv> \<lparr>buffered = [], capacity = n, is_closed = closed hb\<rparr>"
    and "hb' \<equiv> (if closed hb then hb else hb\<lparr>subs := insert (next_chan w) (subs hb)\<rparr>)"
  shows "Subscribe (Some hb) buffer w = Inr (ch, if closed hb then CancelNothing else CancelSub ch, Some hb',
      w\<lparr>channels := (channels w)(ch \<mapsto> c), next_chan := Suc ch\<rparr>)"
    and "hub_inv (hb', w\<lparr>channels := (channels w)(ch \<mapsto> c), next_chan := Suc ch\<rparr>)"
proof -
  show "Subscribe (Some hb) buffer w = Inr (ch, if closed hb then CancelNothing else CancelSub ch, Some hb',
      w\<lparr>channels := (channels w)(ch \<mapsto> c), next_chan := Suc ch\<rparr>)"
    by (simp add: Subscribe_def make_chan_def close_chan_def ch_def c_def hb'_def n_def Let_def)
  have "world_inv (w\<lparr>channels := (channels w)(ch \<mapsto> c), next_chan := Suc ch\<rparr>)"
    using hub_invD(1) [OF assms(1)] by (auto simp: world_inv_def c_def n_def ch_def less_Suc_eq)
  moreover have "channels w ch = None"
    using hub_invD(1) [OF assms(1)] unfolding world_inv_def ch_def by (metis less_irrefl not_Some_eq)
  then have "ch \<notin> subs hb" using hub_invD(4) [OF assms(1)] by fastforce
  ultimately show "hub_inv (hb', w\<lparr>channels := (channels w)(ch \<mapsto> c), next_chan := Suc ch\<rparr>)"
    using hub_invD [OF assms(1)] by (intro hub_invI) (auto simp: hb'_def c_def ch_def split: if_splits)
qed

lemma cancel_inv:
  assumes "hub_inv s"
  shows "\<exists>s'. cancel f s = Inr s' \<and> hub_inv s'"
proof (cases s)
  case (Pair hb w)
  show ?thesis
  proof (cases f)
    case (CancelSub ch)
    show ?thesis
    proof (cases "ch \<in> subs hb")
      case True
      then obtain c where c: "channels w ch = Some c" "\<not> is_closed c"
        using hub_invD(4) assms Pair by blast
      let ?w = "w\<lparr>channels := (channels w)(ch \<mapsto> c\<lparr>is_closed := True\<rparr>)\<rparr>"
      have "world_inv ?w"
        using hub_invD(1) assms Pair c by (intro world_inv_upd) (auto simp: world_inv_def)
      then have "hub_inv (hb\<lparr>subs := subs hb - {ch}\<rparr>, ?w)"
        using hub_invD(2-4) [of hb w] assms Pair by (intro hub_invI) auto
      with True CancelSub Pair show ?thesis
        by (simp add: cancel_def close_chan_open [OF c])
    qed (use assms CancelSub Pair in \<open>simp add: cancel_def\<close>)
  qed (use assms in \<open>simp add: cancel_def\<close>)
qed

section \<open>Runs\<close>

text \<open>
  A sequence of calls on one hub with the receives of its subscribers. \<open>ord\<close> gives the order of
  Go's iteration over a set; the events are the records published while the hub was open and
  the values received from each channel.
\<close>

datatype hub_op =
    DoSubscribe int
  | DoCancel cancel_func
  | DoPublish "sap_record option"
  | DoReceive addr
  | DoClose

datatype hub_event = Published "sap_record option" | Received addr "sap_record option"

definition hub_exec :: "(addr set \<Rightarrow> addr list) \<Rightarrow> hub \<times> chan_world \<Rightarrow> hub_op \<Rightarrow> ((hub \<times> chan_world) \<times> hub_event list) go_result" where
  "hub_exec ord s op = (case s of (hb, w) \<Rightarrow> (case op of
     DoSubscribe buffer \<Rightarrow> bind_result (Subscribe (Some hb) buffer w) (\<lambda>(_, _, h, w). Inr ((the h, w), []))
   | DoCancel f \<Rightarrow> bind_result (cancel f (hb, w)) (\<lambda>s. Inr (s, []))
   | DoPublish r \<Rightarrow> bind_result (Publish (ord (subs hb)) (Some hb) r w)
       (\<lambda>w. Inr ((hb, w), if closed hb then [] else [Published r]))
   | DoReceive ch \<Rightarrow> Inr (case receive ch w of
         Some (Some r, w) \<Rightarrow> ((hb, w), [Received ch r])
       | _ \<Rightarrow> ((hb, w), []))
   | DoClose \<Rightarrow> bind_result (Close (ord (subs hb)) (Some hb) w) (\<lambda>(h, w). Inr ((the h, w), []))))"

fun hub_run :: "(addr set \<Rightarrow> addr list) \<Rightarrow> hub \<times> chan_world \<Rightarrow> hub_op list \<Rightarrow> ((hub \<times> chan_world) \<times> hub_event list) go_result" where
  "hub_run ord s [] = Inr (s, [])"
| "hub_run ord s (op # ops) = bind_result (hub_exec ord s op)
     (\<lambda>(s, evs). bind_result (hub_run ord s ops) (\<lambda>(s, evs'). Inr (s, evs @ evs')))"

definition iteration :: "(addr set \<Rightarrow> addr list) \<Rightarrow> bool" where
  "iteration ord \<longleftrightarrow> (\<forall>A. finite A \<longrightarrow> enumerates (ord A) A)"

lemma iteration_sorted [simp]: "iteration sorted_list_of_set"
  by (simp add: iteration_def enumerates_def)

definition published :: "hub_event list \<Rightarrow> sap_record option list" where
  "published evs = concat (map (\<lambda>e. case e of Published r \<Rightarrow> [r] | Received _ _ \<Rightarrow> []) evs)"

definition received :: "addr \<Rightarrow> hub_event list \<Rightarrow> sap_record option list" where
  "received ch evs = concat (map (\<lambda>e. case e of Received c r \<Rightarrow> if c = ch then [r] else [] | Published _ \<Rightarrow> []) evs)"

lemma event_lists [simp]:
  "published [] = []" "received ch [] = []"
  "published (evs @ evs') = published evs @ published evs'"
  "received ch (evs @ evs') = received ch evs @ received ch evs'"
  "published (Published r # evs) = r # published evs" "published (Received c r # evs) = published evs"
  "received ch (Published r # evs) = received ch evs"
  "received ch (Received c r # evs) = (if c = ch then r # received ch evs else received ch evs)"
  by (simp_all add: published_def received_def)

text \<open>
  What one call does to a channel: it stays, what was received and what is buffered now is
  what was buffered with at most the published record behind, and all of it arrives at a
  subscribed channel with room.
\<close>

definition chan_step :: "addr \<Rightarrow> hub \<times> chan_world \<Rightarrow> hub \<times> chan_world \<Rightarrow> hub_event list \<Rightarrow> bool" where
  "chan_step ch s s' evs \<longleftrightarrow> (\<forall>c. channels (snd s) ch = Some c \<longrightarrow>
     (\<exists>c' xs. channels (snd s') ch = Some c' \<and> capacity c' = capacity c
        \<and> received ch evs @ buffered c' = buffered c @ xs \<and> subseq xs (published evs)
        \<and> (is_closed c \<longrightarrow> is_closed c')
        \<and> (ch \<in> subs (fst s') \<longrightarrow> ch \<in> subs (fst s)
            \<and> (length (buffered c) + length (published evs) \<le> capacity c \<longrightarrow> xs = published evs))))"

lemma chan_step_quiet:
  assumes "channels (snd s') ch = channels (snd s) ch" and "ch \<in> subs (fst s') \<longrightarrow> ch \<in> subs (fst s)"
  shows "chan_step ch s s' []"
  using assms by (auto simp: chan_step_def)

lemma chan_step_trans:
  assumes "chan_step ch s s1 evs" and "chan_step ch s1 s2 evs'"
  shows "chan_step ch s s2 (evs @ evs')"
  unfolding chan_step_def
proof (intro allI impI)
  fix c assume "channels (snd s) ch = Some c"
  then obtain c1 xs where 1: "channels (snd s1) ch = Some c1" "capacity c1 = capacity c"
      "received ch evs @ buffered c1 = buffered c @ xs" "subseq xs (published evs)" "is_closed c \<longrightarrow> is_closed c1"
      "ch \<in> subs (fst s1) \<longrightarrow> ch \<in> subs (fst s)
        \<and> (length (buffered c) + length (published evs) \<le> capacity c \<longrightarrow> xs = published evs)"
    using assms(1) unfolding chan_step_def by blast
  then obtain c2 ys where 2: "channels (snd s2) ch = Some c2" "capacity c2 = capacity c1"
      "received ch evs' @ buffered c2 = buffered c1 @ ys" "subseq ys (published evs')" "is_closed c1 \<longrightarrow> is_closed c2"
      "ch \<in> subs (fst s2) \<longrightarrow> ch \<in> subs (fst s1)
        \<and> (length (buffered c1) + length (published evs') \<le> capacity c1 \<longrightarrow> ys = published evs')"
    using assms(2) unfolding chan_step_def by blast
  have all: "received ch (evs @ evs') @ buffered c2 = buffered c @ xs @ ys"
    using 1(3) 2(3) by (metis append.assoc event_lists(4))
  have "length (buffered c1) \<le> length (buffered c) + length xs"
    using arg_cong [OF 1(3), of length] by simp
  moreover have "length xs \<le> length (published evs)"
    using 1(4) by (rule list_emb_length)
  ultimately have "length (buffered c) + length (published (evs @ evs')) \<le> capacity c
      \<Longrightarrow> length (buffered c1) + length (published evs') \<le> capacity c1" using 1(2) by simp
  then have "ch \<in> subs (fst s2) \<longrightarrow> ch \<in> subs (fst s)
      \<and> (length (buffered c) + length (published (evs @ evs')) \<le> capacity c \<longrightarrow> xs @ ys = published (evs @ evs'))"
    using 1(6) 2(6) by auto
  moreover have "subseq (xs @ ys) (published (evs @ evs'))"
    using 1(4) 2(4) by (simp add: list_emb_append_mono)
  ultimately show "\<exists>c' xs. channels (snd s2) ch = Some c' \<and> capacity c' = capacity c
        \<and> received ch (evs @ evs') @ buffered c' = buffered c @ xs \<and> subseq xs (published (evs @ evs'))
        \<and> (is_closed c \<longrightarrow> is_closed c')
        \<and> (ch \<in> subs (fst s2) \<longrightarrow> ch \<in> subs (fst s)
            \<and> (length (buffered c) + length (published (evs @ evs')) \<le> capacity c \<longrightarrow> xs = published (evs @ evs')))"
    using 1(2,5) 2(1,2,5) all by (intro exI [of _ c2] exI [of _ "xs @ ys"]) simp
qed

end
