(* ===== verification/Hub_Props.thy ===== *)
theory Hub_Props
  imports Hub
begin

text \<open>
  Properties of the hub's operations one after another: nothing panics, a subscriber receives a
  subsequence of what was published in that order, and all of it while its buffer has room.
\<close>

section \<open>One call\<close>

lemma deliver_step:
  assumes "world_inv w" and "ch \<in> A \<Longrightarrow> ch \<in> subs hb" and "subs hb \<subseteq> A"
  shows "chan_step ch (hb, w) (hb, deliver A r w) [Published r]"
  unfolding chan_step_def
proof (intro allI impI)
  fix c assume "channels (snd (hb, w)) ch = Some c"
  then have c: "channels w ch = Some c" by simp
  show "\<exists>c' xs. channels (snd (hb, deliver A r w)) ch = Some c' \<and> capacity c' = capacity c
      \<and> received ch [Published r] @ buffered c' = buffered c @ xs \<and> subseq xs (published [Published r])
      \<and> (is_closed c \<longrightarrow> is_closed c')
      \<and> (ch \<in> subs (fst (hb, deliver A r w)) \<longrightarrow> ch \<in> subs (fst (hb, w))
          \<and> (length (buffered c) + length (published [Published r]) \<le> capacity c \<longrightarrow> xs = published [Published r]))"
  proof (cases "ch \<in> A \<and> length (buffered c) < capacity c")
    case True
    with c show ?thesis
      by (intro exI [of _ "offered r c"] exI [of _ "[r]"]) (simp add: deliver_def offered_def)
  next
    case False
    with c assms(3) show ?thesis
      by (intro exI [of _ "if ch \<in> A then offered r c else c"] exI [of _ "[]"]) (auto simp: deliver_def offered_def)
  qed
qed

lemma close_all_step: "chan_step ch (hb, w) (\<lparr>subs = {}, closed = True\<rparr>, close_all A w) []"
  by (auto simp: chan_step_def close_all_def)

lemma receive_step:
  assumes "receive c w = Some (Some r, w')"
  shows "chan_step ch (hb, w) (hb, w') [Received c r]"
  using assms by (auto simp: chan_step_def receive_def split: option.splits list.splits if_splits)

lemma receive_inv:
  assumes "hub_inv (hb, w)" and "receive c w = Some (Some r, w')"
  shows "hub_inv (hb, w')"
proof -
  obtain k rs where k: "channels w c = Some k" "buffered k = r # rs"
      and w': "w' = w\<lparr>channels := (channels w)(c \<mapsto> k\<lparr>buffered := rs\<rparr>)\<rparr>"
    using assms(2) by (auto simp: receive_def split: option.splits list.splits if_splits)
  have "length (buffered k) \<le> capacity k"
    using hub_invD(1) [OF assms(1)] k(1) by (auto simp: world_inv_def)
  then have "world_inv w'"
    unfolding w' using hub_invD(1) [OF assms(1)] k by (intro world_inv_upd) auto
  moreover have "c \<in> subs hb \<Longrightarrow> \<not> is_closed k"
    using hub_invD(4) [OF assms(1), of c] k(1) by auto
  ultimately show ?thesis
    using hub_invD [OF assms(1)] by (intro hub_invI) (auto simp: w')
qed

lemma cancel_step:
  assumes "cancel f (hb, w) = Inr (hb', w')"
  shows "chan_step ch (hb, w) (hb', w') []"
  using assms
  by (auto simp: chan_step_def cancel_def close_chan_def split: cancel_func.splits if_splits option.splits)

lemma world_inv_fresh: "world_inv w \<Longrightarrow> channels w (next_chan w) = None"
  unfolding world_inv_def by (metis less_irrefl not_Some_eq)

lemma hub_exec_step:
  assumes "hub_inv s" and "iteration ord"
  shows "\<exists>s' evs. hub_exec ord s op = Inr (s', evs) \<and> hub_inv s' \<and> (\<forall>ch. chan_step ch s s' evs)"
proof -
  obtain hb w where s: "s = (hb, w)" by (cases s)
  then have inv: "hub_inv (hb, w)" using assms(1) by simp
  then have ord: "enumerates (ord (subs hb)) (subs hb)"
    using assms(2) hub_invD(2) by (simp add: iteration_def)
  show ?thesis
  proof (cases op)
    case (DoSubscribe buffer)
    note sub = Subscribe_cases [OF inv, of buffer]
    have "channels w (next_chan w) = None"
      using hub_invD(1) [OF inv] by (rule world_inv_fresh)
    with sub DoSubscribe s show ?thesis
      by (auto simp: hub_exec_def chan_step_def)
  next
    case (DoCancel f)
    from cancel_inv [OF inv, of f] obtain hb' w' where "cancel f (hb, w) = Inr (hb', w')" "hub_inv (hb', w')"
      by auto
    with DoCancel s cancel_step show ?thesis by (auto simp: hub_exec_def)
  next
    case (DoPublish r)
    show ?thesis
    proof (cases "closed hb")
      case True
      then have "Publish (ord (subs hb)) (Some hb) r w = Inr w" by (simp add: Publish_def)
      with True DoPublish s inv show ?thesis
        by (auto simp: hub_exec_def intro: chan_step_quiet)
    next
      case False
      from Publish_deliver [OF inv ord, of r] False DoPublish s deliver_step [OF hub_invD(1) [OF inv], of _ "subs hb" hb r]
      show ?thesis by (auto simp: hub_exec_def)
    qed
  next
    case (DoReceive ch)
    show ?thesis
    proof (cases "\<exists>r w'. receive ch w = Some (Some r, w')")
      case True
      with DoReceive s inv receive_step receive_inv show ?thesis
        by (fastforce simp: hub_exec_def)
    next
      case False
      then have "hub_exec ord s op = Inr (s, [])"
        using DoReceive s by (auto simp: hub_exec_def split: option.splits prod.splits)
      with assms(1) show ?thesis by (auto intro: chan_step_quiet)
    qed
  next
    case DoClose
    from Close_closes [OF inv ord] DoClose s close_all_step show ?thesis
      by (auto simp: hub_exec_def)
  qed
qed

section \<open>Runs\<close>

lemma hub_run_steps:
  assumes "hub_inv s" and "iteration ord"
  shows "\<exists>s' evs. hub_run ord s ops = Inr (s', evs) \<and> hub_inv s' \<and> (\<forall>ch. chan_step ch s s' evs)"
  using assms(1)
proof (induction ops arbitrary: s)
  case Nil
  then show ?case by (auto intro: chan_step_quiet)
next
  case (Cons op ops)
  obtain s1 evs where 1: "hub_exec ord s op = Inr (s1, evs)" "hub_inv s1" "\<And>ch. chan_step ch s s1 evs"
    using hub_exec_step [OF Cons.prems assms(2)] by blast
  from Cons.IH [OF 1(2)] obtain s2 evs' where 2: "hub_run ord s1 ops = Inr (s2, evs')" "hub_inv s2"
      "\<And>ch. chan_step ch s1 s2 evs'" by blast
  have "chan_step ch s s2 (evs @ evs')" for ch
    using 1(3) 2(3) by (rule chan_step_trans)
  with 1(1) 2(1,2) show ?case by simp
qed

definition empty_world :: chan_world where
  "empty_world = \<lparr>channels = Map.empty, next_chan = 1\<rparr>"

lemma hub_inv_new [simp]: "hub_inv (NewHub, empty_world)"
  by (simp add: hub_inv_def world_inv_def NewHub_def empty_world_def)

text \<open>C12: No sequence of subscriptions, cancellations (repeated ones too), publications, receives
  and closes makes a hub panic, whatever the order in which Go iterates over the subscribers:
  no send on a closed channel, no second close. Buffers never exceed their capacity.\<close>

theorem hub_never_panics:
  assumes "iteration ord"
  shows "\<exists>s evs. hub_run ord (NewHub, empty_world) ops = Inr (s, evs) \<and> hub_inv s"
  using hub_run_steps [OF hub_inv_new assms] by blast

theorem hub_never_panics_witness:
  "\<exists>s evs. hub_run sorted_list_of_set (NewHub, empty_world)
     [DoSubscribe 1, DoSubscribe 0, DoPublish None, DoCancel (CancelSub 1), DoCancel (CancelSub 1), DoClose, DoClose]
     = Inr (s, evs) \<and> hub_inv s"
  by (rule hub_never_panics) simp

text \<open>C13: What one subscriber receives, followed by what still waits in its buffer, extends the
  buffer it started from by a subsequence of the published records: in publication order,
  nothing twice, nothing made up. It is all of them if the subscriber is not cancelled and its
  buffer had room for them from the start.\<close>

theorem subscriber_fifo:
  assumes "iteration ord" and "hub_inv s" and "hub_run ord s ops = Inr (s', evs)"
    and "channels (snd s) ch = Some c" and "channels (snd s') ch = Some c'"
  shows "\<exists>xs. received ch evs @ buffered c' = buffered c @ xs \<and> subseq xs (published evs)
    \<and> (ch \<in> subs (fst s') \<and> length (buffered c) + length (published evs) \<le> capacity c \<longrightarrow> xs = published evs)"
proof -
  have "chan_step ch s s' evs"
    using hub_run_steps [OF assms(2,1), of ops] assms(3) by auto
  with assms(4,5) show ?thesis by (fastforce simp: chan_step_def)
qed

theorem subscriber_fifo_witness:
  "let m = \<lparr>rec_EmittedAt = None, rec_Kind = None\<rparr>;
       (s, _) = projr (hub_run sorted_list_of_set (NewHub, empty_world) [DoSubscribe 2]);
       (s', evs) = projr (hub_run sorted_list_of_set s [DoPublish (Some m), DoReceive 1, DoPublish None])
   in received 1 evs @ buffered (the (channels (snd s') 1)) = [Some m, None]"
proof -
  let ?m = "\<lparr>rec_EmittedAt = None, rec_Kind = None\<rparr>"
  define s where "s = fst (projr (hub_run sorted_list_of_set (NewHub, empty_world) [DoSubscribe 2]))"
  let ?run = "hub_run sorted_list_of_set s [DoPublish (Some ?m), DoReceive 1, DoPublish None]"
  have s: "s = (\<lparr>subs = {1}, closed = False\<rparr>, \<lparr>channels = [1 \<mapsto> \<lparr>buffered = [], capacity = 2, is_closed = False\<rparr>],
      next_chan = 2\<rparr>)"
    by (simp add: s_def hub_exec_def Subscribe_def make_chan_def NewHub_def empty_world_def)
  have run: "\<exists>s' evs c'. ?run = Inr (s', evs) \<and> channels (snd s') 1 = Some c' \<and> 1 \<in> subs (fst s')
      \<and> published evs = [Some ?m, None]"
    by (simp add: s hub_exec_def Publish_def try_send_def receive_def offered_def)
  have inv: "hub_inv s"
    by (simp add: s hub_inv_def world_inv_def)
  have chan: "channels (snd s) 1 = Some \<lparr>buffered = [], capacity = 2, is_closed = False\<rparr>"
    by (simp add: s)
  obtain s' evs c' where r: "?run = Inr (s', evs)" "channels (snd s') 1 = Some c'" "1 \<in> subs (fst s')"
      "published evs = [Some ?m, None]"
    using run by blast
  from subscriber_fifo [OF iteration_sorted inv r(1) chan r(2)] r(3,4)
  have "received 1 evs @ buffered c' = [Some ?m, None]" by simp
  with r show ?thesis by (simp add: s_def case_prod_unfold)
qed

text \<open>C14: A publication reaches every subscriber whose buffer has room and changes nothing else; a
  full subscriber neither blocks it nor costs another one the record, so the order of the
  iteration does not matter.\<close>

theorem Publish_reaches_all:
  assumes "hub_inv (hb, w)" and "enumerates order (subs hb)"
  shows "\<exists>w'. Publish order (Some hb) r w = Inr w' \<and> next_chan w' = next_chan w
    \<and> (\<forall>ch. channels w' ch = (case channels w ch of None \<Rightarrow> None
         | Some c \<Rightarrow> Some (if ch \<in> subs hb \<and> length (buffered c) < capacity c
             then c\<lparr>buffered := buffered c @ [r]\<rparr> else c)))"
  using Publish_deliver(1) [OF assms, of r] by (auto simp: deliver_def offered_def split: option.split)

theorem Publish_reaches_all_witness:
  "let hb = \<lparr>subs = {1, 2}, closed = False\<rparr>;
       c = (\<lambda>rs. \<lparr>buffered = rs, capacity = 1, is_closed = False\<rparr>);
       w = \<lparr>channels = [1 \<mapsto> c [], 2 \<mapsto> c [None]], next_chan = 3\<rparr>
   in \<exists>w'. Publish [2, 1] (Some hb) None w = Inr w' \<and> channels w' 1 = Some (c [None]) \<and> channels w' 2 = Some (c [None])"
proof -
  let ?hb = "\<lparr>subs = {1, 2}, closed = False\<rparr>"
  let ?c = "\<lambda>rs. \<lparr>buffered = rs, capacity = 1, is_closed = False\<rparr>"
  let ?w = "\<lparr>channels = [1 \<mapsto> ?c [], 2 \<mapsto> ?c [None]], next_chan = 3\<rparr>"
  have "hub_inv (?hb, ?w)" and "enumerates [2, 1] (subs ?hb)"
    by (auto simp: hub_inv_def world_inv_def enumerates_def)
  then obtain w' where "Publish [2, 1] (Some ?hb) None ?w = Inr w'"
    and w': "\<And>ch. channels w' ch = (case channels ?w ch of None \<Rightarrow> None
         | Some c \<Rightarrow> Some (if ch \<in> subs ?hb \<and> length (buffered c) < capacity c
             then c\<lparr>buffered := buffered c @ [None]\<rparr> else c))"
    using Publish_reaches_all [of ?hb ?w "[2, 1]" None] by blast
  moreover have "channels w' 1 = Some (?c [None])" and "channels w' 2 = Some (?c [None])"
    using w' [of 1] w' [of 2] by simp_all
  ultimately show ?thesis unfolding Let_def by blast
qed

text \<open>C15: After \<open>Close\<close> every channel that was subscribed is closed, with what its buffer held still
  to be received; the hub then publishes nothing and a later subscription gets a closed,
  empty channel.\<close>

theorem Close_final:
  assumes "hub_inv (hb, w)" and "enumerates order (subs hb)"
  shows "\<exists>hb' w'. Close order (Some hb) w = Inr (Some hb', w') \<and> closed hb' \<and> subs hb' = {}
    \<and> (\<forall>ch c. channels w ch = Some c \<longrightarrow> channels w' ch = Some (if ch \<in> subs hb then c\<lparr>is_closed := True\<rparr> else c))
    \<and> Publish [] (Some hb') r w' = Inr w'
    \<and> (\<exists>ch w''. Subscribe (Some hb') n w' = Inr (ch, CancelNothing, Some hb', w'') \<and> receive ch w'' = Some (None, w''))"
proof -
  let ?hb = "\<lparr>subs = {}, closed = True\<rparr>" and ?w = "close_all (subs hb) w"
  have "\<exists>ch w''. Subscribe (Some ?hb) n ?w = Inr (ch, CancelNothing, Some ?hb, w'') \<and> receive ch w'' = Some (None, w'')"
    using Subscribe_cases(1) [OF Close_closes(2) [OF assms], of n] by (simp add: receive_def)
  then show ?thesis
    using Close_closes(1) [OF assms] by (auto simp: close_all_def Publish_def)
qed

theorem Close_final_witness:
  "\<exists>hb' w'. Close [] (Some NewHub) empty_world = Inr (Some hb', w') \<and> closed hb'
    \<and> (\<exists>ch w''. Subscribe (Some hb') 4 w' = Inr (ch, CancelNothing, Some hb', w'') \<and> receive ch w'' = Some (None, w''))"
  using Close_final [OF hub_inv_new, of "[]" None 4] by (auto simp: enumerates_def NewHub_def)

end
