(* ===== verification/Hub_Conc.thy ===== *)
theory Hub_Conc
  imports Hub_Props
begin

text \<open>
  The hub's methods taken apart into the steps that goroutines interleave: acquiring and
  releasing the read-write mutex, the test of \<open>closed\<close>, each send of the publishing loop, each
  close and each deletion. Receivers take values at any time. Every interleaving is a path of
  the step relation; none of them reaches a panic and none gets stuck.
\<close>

section \<open>Goroutines\<close>

type_synonym goroutine = nat

text \<open>Where a goroutine stands in a method; the set in a loop is what it still has to visit.\<close>

datatype hub_pc =
    Idle
  | PubWait "sap_record option"
  | PubCheck "sap_record option"
  | PubLoop "sap_record option" "addr set"
  | PubUnlock
  | CloseWait
  | CloseCheck
  | CloseLoop "addr set"
  | CloseDelete addr "addr set"
  | CancelWait addr
  | CancelCheck addr
  | CancelClose addr
  | SubWait addr
  | SubCheck addr
  | SubReject addr
  | SubClose addr
  | WriteUnlock

record conc =
  world :: chan_world
  the_hub :: hub
  readers :: "goroutine set"
  writer :: "goroutine option"
  pc :: "goroutine \<Rightarrow> hub_pc"
  panicked :: "panic option"

definition goto :: "goroutine \<Rightarrow> hub_pc \<Rightarrow> conc \<Rightarrow> conc" where
  "goto t p s = s\<lparr>pc := (pc s)(t := p)\<rparr>"

text \<open>An operation on channels: on success go on, else the program has panicked.\<close>

definition on_world :: "chan_world go_result \<Rightarrow> conc \<Rightarrow> conc" where
  "on_world r s = (case r of Inl p \<Rightarrow> s\<lparr>panicked := Some p\<rparr> | Inr w \<Rightarrow> s\<lparr>world := w\<rparr>)"

definition set_subs :: "addr set \<Rightarrow> conc \<Rightarrow> conc" where
  "set_subs A s = s\<lparr>the_hub := (the_hub s)\<lparr>subs := A\<rparr>\<rparr>"

text \<open>The program counters that wait for the write lock, and where they go with it.\<close>

fun locked :: "hub_pc \<Rightarrow> hub_pc option" where
  "locked CloseWait = Some CloseCheck"
| "locked (CancelWait ch) = Some (CancelCheck ch)"
| "locked (SubWait ch) = Some (SubCheck ch)"
| "locked _ = None"

fun holds_write :: "hub_pc \<Rightarrow> bool" where
  "holds_write CloseCheck = True"
| "holds_write (CloseLoop A) = True"
| "holds_write (CloseDelete ch A) = True"
| "holds_write (CancelCheck ch) = True"
| "holds_write (CancelClose ch) = True"
| "holds_write (SubCheck ch) = True"
| "holds_write (SubReject ch) = True"
| "holds_write WriteUnlock = True"
| "holds_write _ = False"

fun holds_read :: "hub_pc \<Rightarrow> bool" where
  "holds_read (PubCheck r) = True"
| "holds_read (PubLoop r A) = True"
| "holds_read PubUnlock = True"
| "holds_read _ = False"

section \<open>Steps\<close>

text \<open>Calls: \<open>Subscribe\<close> makes its channel before it locks.\<close>

inductive call_step :: "goroutine \<Rightarrow> conc \<Rightarrow> conc \<Rightarrow> bool" where
  call_publish: "pc s t = Idle \<Longrightarrow> call_step t s (goto t (PubWait r) s)"
| call_close: "pc s t = Idle \<Longrightarrow> call_step t s (goto t CloseWait s)"
| call_cancel: "pc s t = Idle \<Longrightarrow> call_step t s (goto t (CancelWait ch) s)"
| call_subscribe: "pc s t = Idle \<Longrightarrow> make_chan (nat (if n \<le> 0 then 256 else n)) (world s) = (ch, w)
    \<Longrightarrow> call_step t s (goto t (SubWait ch) (s\<lparr>world := w\<rparr>))"

text \<open>The steps inside a method.\<close>

inductive inner_step :: "goroutine \<Rightarrow> conc \<Rightarrow> conc \<Rightarrow> bool" where
  rlock: "pc s t = PubWait r \<Longrightarrow> writer s = None
    \<Longrightarrow> inner_step t s (goto t (PubCheck r) (s\<lparr>readers := insert t (readers s)\<rparr>))"
| pub_closed: "pc s t = PubCheck r \<Longrightarrow> closed (the_hub s) \<Longrightarrow> inner_step t s (goto t PubUnlock s)"
| pub_range: "pc s t = PubCheck r \<Longrightarrow> \<not> closed (the_hub s)
    \<Longrightarrow> inner_step t s (goto t (PubLoop r (subs (the_hub s))) s)"
| pub_send: "pc s t = PubLoop r A \<Longrightarrow> ch \<in> A
    \<Longrightarrow> inner_step t s (goto t (PubLoop r (A - {ch})) (on_world (try_send ch r (world s)) s))"
| pub_done: "pc s t = PubLoop r {} \<Longrightarrow> inner_step t s (goto t PubUnlock s)"
| runlock: "pc s t = PubUnlock \<Longrightarrow> inner_step t s (goto t Idle (s\<lparr>readers := readers s - {t}\<rparr>))"
| lock: "locked (pc s t) = Some p \<Longrightarrow> writer s = None \<Longrightarrow> readers s = {}
    \<Longrightarrow> inner_step t s (goto t p (s\<lparr>writer := Some t\<rparr>))"
| close_again: "pc s t = CloseCheck \<Longrightarrow> closed (the_hub s) \<Longrightarrow> inner_step t s (goto t WriteUnlock s)"
| close_range: "pc s t = CloseCheck \<Longrightarrow> \<not> closed (the_hub s)
    \<Longrightarrow> inner_step t s (goto t (CloseLoop (subs (the_hub s))) (s\<lparr>the_hub := (the_hub s)\<lparr>closed := True\<rparr>\<rparr>))"
| close_one: "pc s t = CloseLoop A \<Longrightarrow> ch \<in> A
    \<Longrightarrow> inner_step t s (goto t (CloseDelete ch (A - {ch})) (on_world (close_chan ch (world s)) s))"
| close_delete: "pc s t = CloseDelete ch A
    \<Longrightarrow> inner_step t s (goto t (CloseLoop A) (set_subs (subs (the_hub s) - {ch}) s))"
| close_done: "pc s t = CloseLoop {} \<Longrightarrow> inner_step t s (goto t WriteUnlock s)"
| cancel_gone: "pc s t = CancelCheck ch \<Longrightarrow> ch \<notin> subs (the_hub s) \<Longrightarrow> inner_step t s (goto t WriteUnlock s)"
| cancel_delete: "pc s t = CancelCheck ch \<Longrightarrow> ch \<in> subs (the_hub s)
    \<Longrightarrow> inner_step t s (goto t (CancelClose ch) (set_subs (subs (the_hub s) - {ch}) s))"
| cancel_close: "pc s t = CancelClose ch
    \<Longrightarrow> inner_step t s (goto t WriteUnlock (on_world (close_chan ch (world s)) s))"
| sub_add: "pc s t = SubCheck ch \<Longrightarrow> \<not> closed (the_hub s)
    \<Longrightarrow> inner_step t s (goto t WriteUnlock (set_subs (insert ch (subs (the_hub s))) s))"
| sub_reject: "pc s t = SubCheck ch \<Longrightarrow> closed (the_hub s) \<Longrightarrow> inner_step t s (goto t (SubReject ch) s)"
| sub_unlock: "pc s t = SubReject ch \<Longrightarrow> inner_step t s (goto t (SubClose ch) (s\<lparr>writer := None\<rparr>))"
| sub_close: "pc s t = SubClose ch \<Longrightarrow> inner_step t s (goto t Idle (on_world (close_chan ch (world s)) s))"
| unlock: "pc s t = WriteUnlock \<Longrightarrow> inner_step t s (goto t Idle (s\<lparr>writer := None\<rparr>))"

inductive recv_step :: "conc \<Rightarrow> conc \<Rightarrow> bool" where
  "receive ch (world s) = Some (v, w) \<Longrightarrow> recv_step s (s\<lparr>world := w\<rparr>)"

inductive conc_reachable :: "conc \<Rightarrow> bool" where
  init: "conc_reachable \<lparr>world = empty_world, the_hub = NewHub, readers = {}, writer = None,
     pc = (\<lambda>_. Idle), panicked = None\<rparr>"
| call: "conc_reachable s \<Longrightarrow> call_step t s s' \<Longrightarrow> conc_reachable s'"
| inner: "conc_reachable s \<Longrightarrow> inner_step t s s' \<Longrightarrow> conc_reachable s'"
| recv: "conc_reachable s \<Longrightarrow> recv_step s s' \<Longrightarrow> conc_reachable s'"

inductive_cases call_stepE: "call_step t s s'"
inductive_cases inner_stepE: "inner_step t s s'"
inductive_cases recv_stepE: "recv_step s s'"

section \<open>Mutual exclusion\<close>

definition lock_inv :: "conc \<Rightarrow> bool" where
  "lock_inv s \<longleftrightarrow> (\<forall>t. writer s = Some t \<longleftrightarrow> holds_write (pc s t))
     \<and> (\<forall>t. t \<in> readers s \<longleftrightarrow> holds_read (pc s t)) \<and> (writer s \<noteq> None \<longrightarrow> readers s = {})"

lemma locked_holds: "locked p = Some q \<Longrightarrow> holds_write q \<and> \<not> holds_read q \<and> \<not> holds_write p \<and> \<not> holds_read p"
  by (cases p) auto

lemma goto_simps [simp]:
  "world (goto t p s) = world s" "the_hub (goto t p s) = the_hub s" "readers (goto t p s) = readers s"
  "writer (goto t p s) = writer s" "pc (goto t p s) = (pc s)(t := p)" "panicked (goto t p s) = panicked s"
  by (simp_all add: goto_def)

lemma on_world_simps [simp]:
  "the_hub (on_world r s) = the_hub s" "readers (on_world r s) = readers s"
  "writer (on_world r s) = writer s" "pc (on_world r s) = pc s"
  "world (on_world (Inr w) s) = w" "panicked (on_world (Inr w) s) = panicked s"
  by (simp_all add: on_world_def split: sum.split)

lemma set_subs_simps [simp]:
  "world (set_subs A s) = world s" "readers (set_subs A s) = readers s" "writer (set_subs A s) = writer s"
  "pc (set_subs A s) = pc s" "panicked (set_subs A s) = panicked s"
  "subs (the_hub (set_subs A s)) = A" "closed (the_hub (set_subs A s)) = closed (the_hub s)"
  by (simp_all add: set_subs_def)

lemma lock_alone:
  assumes "lock_inv s" and "holds_write (pc s t)" and "u \<noteq> t"
  shows "\<not> holds_write (pc s u)" and "\<not> holds_read (pc s u)"
proof -
  have "writer s = Some t" using assms(1,2) by (simp add: lock_inv_def)
  then have "writer s \<noteq> Some u" and "readers s = {}"
    using assms(1,3) by (auto simp: lock_inv_def)
  with assms(1) show "\<not> holds_write (pc s u)" and "\<not> holds_read (pc s u)"
    by (auto simp: lock_inv_def)
qed

lemma lock_inv_inner:
  assumes "lock_inv s" and "inner_step t s s'"
  shows "lock_inv s'"
  using assms(2,1)
proof cases
  case (lock p)
  with assms(1) locked_holds [OF lock(2)] show ?thesis by (auto simp: lock_inv_def)
next
  case sub_unlock
  with assms(1) lock_alone [OF assms(1), of t] show ?thesis by (auto simp: lock_inv_def)
next
  case unlock
  with assms(1) lock_alone [OF assms(1), of t] show ?thesis by (auto simp: lock_inv_def)
qed (auto simp: lock_inv_def split: if_splits)

lemma lock_inv_call: "lock_inv s \<Longrightarrow> call_step t s s' \<Longrightarrow> lock_inv s'"
  by (erule call_stepE) (auto simp: lock_inv_def)

lemma lock_inv_recv: "lock_inv s \<Longrightarrow> recv_step s s' \<Longrightarrow> lock_inv s'"
  by (erule recv_stepE) (auto simp: lock_inv_def)

lemma lock_inv_reachable: "conc_reachable s \<Longrightarrow> lock_inv s"
proof (induction rule: conc_reachable.induct)
  case init
  then show ?case by (simp add: lock_inv_def)
qed (blast intro: lock_inv_call lock_inv_inner lock_inv_recv)+

section \<open>Channels\<close>

definition opens :: "chan_world \<Rightarrow> addr set" where
  "opens w = {ch. \<exists>c. channels w ch = Some c \<and> \<not> is_closed c}"

abbreviation allocated :: "chan_world \<Rightarrow> addr set" where
  "allocated w \<equiv> dom (channels w)"

lemma opens_allocated: "opens w \<subseteq> allocated w"
  by (auto simp: opens_def)

lemma make_chan_world:
  assumes "make_chan n w = (ch, w')" and "world_inv w" and "0 < n"
  shows "world_inv w'" and "opens w' = insert ch (opens w)" and "allocated w' = insert ch (allocated w)"
    and "ch \<notin> allocated w"
proof -
  have fresh: "channels w (next_chan w) = None" using assms(2) by (rule world_inv_fresh)
  have w': "ch = next_chan w" "w' = w\<lparr>channels := (channels w)(ch \<mapsto> \<lparr>buffered = [], capacity = n, is_closed = False\<rparr>),
      next_chan := Suc ch\<rparr>"
    using assms(1) by (auto simp: make_chan_def)
  show "world_inv w'" using assms(2,3) by (auto simp: w' world_inv_def less_Suc_eq)
  show "opens w' = insert ch (opens w)" using fresh by (auto simp: w' opens_def)
  show "allocated w' = insert ch (allocated w)" by (auto simp: w')
  show "ch \<notin> allocated w" using fresh by (simp add: w' domIff)
qed

lemma try_send_world:
  assumes "ch \<in> opens w" and "world_inv w"
  shows "\<exists>w'. try_send ch r w = Inr w' \<and> world_inv w' \<and> opens w' = opens w \<and> allocated w' = allocated w"
proof -
  obtain c where c: "channels w ch = Some c" "\<not> is_closed c"
    using assms(1) by (auto simp: opens_def)
  have "world_inv (w\<lparr>channels := (channels w)(ch \<mapsto> offered r c)\<rparr>)"
    using assms(2) c by (intro world_inv_upd) (auto simp: world_inv_def)
  with c show ?thesis
    by (auto simp: try_send_def opens_def domIff)
qed

lemma close_chan_world:
  assumes "ch \<in> opens w" and "world_inv w"
  shows "\<exists>w'. close_chan ch w = Inr w' \<and> world_inv w' \<and> opens w' = opens w - {ch} \<and> allocated w' = allocated w"
proof -
  obtain c where c: "channels w ch = Some c" "\<not> is_closed c"
    using assms(1) by (auto simp: opens_def)
  have "world_inv (w\<lparr>channels := (channels w)(ch \<mapsto> c\<lparr>is_closed := True\<rparr>)\<rparr>)"
    using assms(2) c by (intro world_inv_upd) (auto simp: world_inv_def)
  with c show ?thesis
    by (auto simp: close_chan_open opens_def domIff)
qed

lemma receive_world:
  assumes "receive ch w = Some (v, w')" and "world_inv w"
  shows "world_inv w'" and "opens w' = opens w" and "allocated w' = allocated w"
proof -
  obtain c where c: "channels w ch = Some c" and
      w': "w' = w \<or> (\<exists>r rs. buffered c = r # rs \<and> w' = w\<lparr>channels := (channels w)(ch \<mapsto> c\<lparr>buffered := rs\<rparr>)\<rparr>)"
    using assms(1) by (auto simp: receive_def split: option.splits list.splits if_splits)
  have "length (buffered c) \<le> capacity c" using assms(2) c by (auto simp: world_inv_def)
  then show "world_inv w'" using assms(2) c w' by (auto intro!: world_inv_upd)
  show "opens w' = opens w" and "allocated w' = allocated w" using c w' by (auto simp: opens_def split: if_splits)
qed

section \<open>No panic\<close>

text \<open>The channel that only this goroutine will close.\<close>

fun owns :: "hub_pc \<Rightarrow> addr option" where
  "owns (SubWait ch) = Some ch"
| "owns (SubCheck ch) = Some ch"
| "owns (SubReject ch) = Some ch"
| "owns (SubClose ch) = Some ch"
| "owns (CancelClose ch) = Some ch"
| "owns _ = None"

text \<open>What each goroutine's position says of the hub's state.\<close>

fun pc_ok :: "hub_pc \<Rightarrow> hub \<Rightarrow> bool" where
  "pc_ok (PubLoop r A) h \<longleftrightarrow> A \<subseteq> subs h"
| "pc_ok (CloseLoop A) h \<longleftrightarrow> closed h \<and> subs h = A"
| "pc_ok (CloseDelete ch A) h \<longleftrightarrow> closed h \<and> subs h = insert ch A \<and> ch \<notin> A"
| "pc_ok _ h \<longleftrightarrow> True"

fun closing :: "hub_pc \<Rightarrow> bool" where
  "closing (CloseLoop A) = True"
| "closing (CloseDelete ch A) = True"
| "closing _ = False"

definition closed_now :: "conc \<Rightarrow> addr set" where
  "closed_now s = {ch. \<exists>t A. pc s t = CloseDelete ch A}"

definition conc_inv :: "conc \<Rightarrow> bool" where
  "conc_inv s \<longleftrightarrow> world_inv (world s) \<and> panicked s = None
     \<and> subs (the_hub s) \<subseteq> allocated (world s) \<and> subs (the_hub s) - closed_now s \<subseteq> opens (world s)
     \<and> (\<forall>t. pc_ok (pc s t) (the_hub s))
     \<and> (\<forall>t ch. owns (pc s t) = Some ch \<longrightarrow> ch \<in> opens (world s) \<and> ch \<notin> subs (the_hub s)
           \<and> (\<forall>u. owns (pc s u) = Some ch \<longrightarrow> u = t))
     \<and> (closed (the_hub s) \<longrightarrow> subs (the_hub s) = {} \<or> (\<exists>t. closing (pc s t)))"

lemma locked_owns: "locked p = Some q \<Longrightarrow> owns q = owns p \<and> pc_ok q h \<and> \<not> closing q \<and> \<not> closing p
    \<and> q \<noteq> CloseDelete ch A \<and> p \<noteq> CloseDelete ch A"
  by (cases p) auto

lemma pc_kinds:
  "closing p \<Longrightarrow> holds_write p" "p = CloseDelete ch A \<Longrightarrow> holds_write p"
  "pc_ok p h \<or> holds_write p \<or> holds_read p"
  by (cases p; simp)+

lemma conc_invD:
  assumes "conc_inv s"
  shows "world_inv (world s)" and "panicked s = None" and "subs (the_hub s) \<subseteq> allocated (world s)"
    and "ch \<in> subs (the_hub s) \<Longrightarrow> ch \<notin> closed_now s \<Longrightarrow> ch \<in> opens (world s)"
    and "pc_ok (pc s t) (the_hub s)"
    and "owns (pc s t) = Some ch \<Longrightarrow> ch \<in> opens (world s)"
    and "owns (pc s t) = Some ch \<Longrightarrow> ch \<notin> subs (the_hub s)"
    and "owns (pc s t) = Some ch \<Longrightarrow> owns (pc s u) = Some ch \<Longrightarrow> u = t"
    and "closed (the_hub s) \<Longrightarrow> subs (the_hub s) \<noteq> {} \<Longrightarrow> \<exists>t. closing (pc s t)"
  using assms by (auto simp: conc_inv_def)

lemma conc_invI:
  assumes "world_inv (world s)" and "panicked s = None" and "subs (the_hub s) \<subseteq> allocated (world s)"
    and "\<And>ch. ch \<in> subs (the_hub s) \<Longrightarrow> ch \<notin> closed_now s \<Longrightarrow> ch \<in> opens (world s)"
    and "\<And>t. pc_ok (pc s t) (the_hub s)"
    and "\<And>t ch. owns (pc s t) = Some ch \<Longrightarrow> ch \<in> opens (world s)"
    and "\<And>t ch. owns (pc s t) = Some ch \<Longrightarrow> ch \<notin> subs (the_hub s)"
    and "\<And>t u ch. owns (pc s t) = Some ch \<Longrightarrow> owns (pc s u) = Some ch \<Longrightarrow> u = t"
    and "closed (the_hub s) \<Longrightarrow> subs (the_hub s) \<noteq> {} \<Longrightarrow> \<exists>t. closing (pc s t)"
  shows "conc_inv s"
  unfolding conc_inv_def using assms by blast

lemma closed_now_upd:
  assumes "pc s' = (pc s)(t := p)" and "\<And>ch A. pc s t \<noteq> CloseDelete ch A" and "\<And>ch A. p \<noteq> CloseDelete ch A"
  shows "closed_now s' = closed_now s"
proof (rule set_eqI)
  fix ch
  show "ch \<in> closed_now s' \<longleftrightarrow> ch \<in> closed_now s"
    unfolding closed_now_def assms(1) mem_Collect_eq using assms(2,3) by (metis fun_upd_apply)
qed

text \<open>A goroutine that only moves on.\<close>

lemma conc_inv_move:
  assumes "conc_inv s"
    and same: "world s' = world s" "the_hub s' = the_hub s" "panicked s' = panicked s" "pc s' = (pc s)(t := p)"
    and "owns p = owns (pc s t) \<or> owns p = None" and "pc_ok p (the_hub s)"
    and "\<not> closing (pc s t) \<or> subs (the_hub s) = {}" and "\<not> closing p"
  shows "conc_inv s'"
proof (rule conc_invI)
  have no: "pc s t \<noteq> CloseDelete ch A" "p \<noteq> CloseDelete ch A" for ch A
    using assms(8,9) conc_invD(5) [OF assms(1), of t] by auto
  then have "closed_now s' = closed_now s"
    using same(4) by (intro closed_now_upd)
  then show "ch \<in> opens (world s')" if "ch \<in> subs (the_hub s')" "ch \<notin> closed_now s'" for ch
    using that conc_invD(4) [OF assms(1), of ch] same by simp
  show "ch \<in> opens (world s')" and "ch \<notin> subs (the_hub s')" if "owns (pc s' u) = Some ch" for u ch
    using that conc_invD(6,7) [OF assms(1), of _ ch] same assms(6) by (auto split: if_splits)
  show "v = u" if "owns (pc s' u) = Some ch" "owns (pc s' v) = Some ch" for u v ch
  proof -
    have "owns (pc s' w) = Some ch \<Longrightarrow> owns (pc s w) = Some ch" for w
      using same(4) assms(6) by (auto split: if_splits)
    with that show ?thesis using conc_invD(8) [OF assms(1)] by blast
  qed
  show "\<exists>u. closing (pc s' u)" if "closed (the_hub s')" "subs (the_hub s') \<noteq> {}"
    using that conc_invD(9) [OF assms(1)] assms(8) same(2,4) by (metis fun_upd_apply)
qed (use conc_invD(1-3,5) [OF assms(1)] same assms(7) in auto)

lemma conc_inv_call:
  assumes "conc_inv s" and "call_step t s s'"
  shows "conc_inv s'"
  using assms(2,1)
proof cases
  case (call_subscribe n ch w)
  have "0 < nat (if n \<le> 0 then 256 else n)" by simp
  note w = make_chan_world [OF call_subscribe(3) conc_invD(1) [OF assms(1)] this]
  have fresh: "ch \<notin> opens (world s)" "ch \<notin> subs (the_hub s)"
    using conc_invD(3) [OF assms(1)] w(4) opens_allocated by blast+
  have "closed_now s' = closed_now s"
    using call_subscribe(1,2) by (intro closed_now_upd [of _ _ t "SubWait ch"]) auto
  then show "conc_inv s'"
  proof (intro conc_invI)
    fix u v k assume k: "owns (pc s' u) = Some k"
    show "k \<in> opens (world s')" and "k \<notin> subs (the_hub s')"
      using k conc_invD(6,7) [OF assms(1), of u k] call_subscribe(1) fresh(2) w(2) by (auto split: if_splits)
    assume "owns (pc s' v) = Some k"
    then show "v = u"
      using k fresh(1) call_subscribe(1) conc_invD(6,8) [OF assms(1)] by (fastforce split: if_splits)
  next
    assume "closed (the_hub s')" and "subs (the_hub s') \<noteq> {}"
    then obtain u where "closing (pc s u)" using conc_invD(9) [OF assms(1)] call_subscribe(1) by auto
    then show "\<exists>t. closing (pc s' t)" using call_subscribe(1,2) by (intro exI [of _ u]) auto
  qed (use conc_invD(2-5) [OF assms(1)] call_subscribe(1,2) w in \<open>auto split: if_splits\<close>)
qed (auto intro!: conc_inv_move [OF assms(1), where t = t])

lemma conc_inv_recv: "conc_inv s \<Longrightarrow> recv_step s s' \<Longrightarrow> conc_inv s'"
  by (erule recv_stepE) (auto simp: conc_inv_def closed_now_def receive_world)

lemma conc_inv_send:
  assumes "conc_inv s" and "lock_inv s" and "pc s t = PubLoop r A" and "ch \<in> A"
  shows "conc_inv (goto t (PubLoop r (A - {ch})) (on_world (try_send ch r (world s)) s))"
proof -
  have sub: "A \<subseteq> subs (the_hub s)" using conc_invD(5) [OF assms(1), of t] assms(3) by simp
  have quiet: "\<not> holds_write (pc s u)" for u
    using assms(2,3) unfolding lock_inv_def by (metis emptyE holds_read.simps(2) option.distinct(1))
  then have "pc s u \<noteq> CloseDelete k B" for u k B by (metis pc_kinds(2))
  then have "closed_now s = {}" by (simp add: closed_now_def)
  then have "ch \<in> opens (world s)" using conc_invD(4) [OF assms(1)] sub assms(4) by auto
  from try_send_world [OF this conc_invD(1) [OF assms(1)], of r] obtain w'
    where w': "try_send ch r (world s) = Inr w'" "world_inv w'" "opens w' = opens (world s)"
      "allocated w' = allocated (world s)" by blast
  have "conc_inv (s\<lparr>world := w'\<rparr>)"
    using assms(1) w' by (simp add: conc_inv_def closed_now_def)
  then have "conc_inv (goto t (PubLoop r (A - {ch})) (s\<lparr>world := w'\<rparr>))"
    by (rule conc_inv_move [where p = "PubLoop r (A - {ch})" and t = t]) (use sub assms(3) in \<open>simp_all, blast\<close>)
  with w'(1) show ?thesis by (simp add: on_world_def)
qed

lemma closed_now_alone:
  assumes "lock_inv s" and "holds_write (pc s t)"
  shows "closed_now s = {ch. \<exists>A. pc s t = CloseDelete ch A}"
proof -
  have "pc s u \<noteq> CloseDelete ch A" if "u \<noteq> t" for u ch A
    using lock_alone(1) [OF assms that] by auto
  then have "(\<exists>u A. pc s u = CloseDelete ch A) \<longleftrightarrow> (\<exists>A. pc s t = CloseDelete ch A)" for ch
    by metis
  then show ?thesis by (simp add: closed_now_def)
qed

lemma closed_empty:
  assumes "conc_inv s" and "lock_inv s" and "holds_write (pc s t)" and "\<not> closing (pc s t)" and "closed (the_hub s)"
  shows "subs (the_hub s) = {}"
  using conc_invD(9) [OF assms(1,5)] lock_alone(1) [OF assms(2,3)] assms(4) pc_kinds(1) by metis

text \<open>A goroutine that holds the write lock and changes the hub or closes a channel.\<close>

lemma conc_inv_write:
  assumes inv: "conc_inv s" and "lock_inv s" and held: "holds_write (pc s t)"
    and s': "pc s' = (pc s)(t := p)" "panicked s' = None" "world_inv (world s')"
    and "subs (the_hub s') \<subseteq> allocated (world s')"
    and "\<And>ch. ch \<in> subs (the_hub s') \<Longrightarrow> \<forall>A. p \<noteq> CloseDelete ch A \<Longrightarrow> ch \<in> opens (world s')"
    and "pc_ok p (the_hub s')"
    and own: "\<And>ch. owns p = Some ch \<Longrightarrow> ch \<in> opens (world s') \<and> ch \<notin> subs (the_hub s')
      \<and> (owns (pc s t) = Some ch \<or> ch \<in> subs (the_hub s))"
    and others: "\<And>ch. ch \<in> opens (world s) \<Longrightarrow> ch \<notin> subs (the_hub s) \<Longrightarrow> owns (pc s t) \<noteq> Some ch
      \<Longrightarrow> ch \<in> opens (world s') \<and> ch \<notin> subs (the_hub s')"
    and "closed (the_hub s') \<Longrightarrow> subs (the_hub s') \<noteq> {} \<Longrightarrow> closing p"
  shows "conc_inv s'"
proof (rule conc_invI)
  have alone: "\<not> holds_write (pc s u) \<and> \<not> holds_read (pc s u)" if "u \<noteq> t" for u
    using lock_alone [OF assms(2) held that] by simp
  then have "pc s u \<noteq> CloseDelete ch A" if "u \<noteq> t" for u ch A
    using that by force
  then have "closed_now s' = {ch. \<exists>A. p = CloseDelete ch A}"
    unfolding closed_now_def s'(1) by (metis fun_upd_apply)
  then show "ch \<in> opens (world s')" if "ch \<in> subs (the_hub s')" "ch \<notin> closed_now s'" for ch
    using that assms(8) by simp
  show "pc_ok (pc s' u) (the_hub s')" for u
    using assms(9) alone [of u] pc_kinds(3) s'(1) by (cases "u = t") auto
  have other: "ch \<in> opens (world s') \<and> ch \<notin> subs (the_hub s')" if "owns (pc s u) = Some ch" "u \<noteq> t" for u ch
    using that others [of ch] conc_invD(6-8) [OF inv, of u ch] by metis
  show "ch \<in> opens (world s')" and "ch \<notin> subs (the_hub s')" if "owns (pc s' u) = Some ch" for u ch
    using that own other s'(1) by (cases "u = t"; auto)+
  show "v = u" if "owns (pc s' u) = Some ch" "owns (pc s' v) = Some ch" for u v ch
  proof -
    have "owns (pc s t) = Some ch" if "owns p = Some ch" "owns (pc s w) = Some ch" for w
      using own [OF that(1)] conc_invD(7) [OF inv that(2)] by blast
    then have alone: "owns p \<noteq> Some ch" if "owns (pc s w) = Some ch" "w \<noteq> t" for w
      using that conc_invD(8) [OF inv] by blast
    show ?thesis
    proof (cases "u = t \<or> v = t")
      case True
      then show ?thesis
        using that alone [of u] alone [of v] s'(1) by (auto split: if_splits)
    next
      case False
      then have "owns (pc s u) = Some ch" "owns (pc s v) = Some ch"
        using that s'(1) by auto
      then show ?thesis by (rule conc_invD(8) [OF inv])
    qed
  qed
  show "\<exists>u. closing (pc s' u)" if "closed (the_hub s')" "subs (the_hub s') \<noteq> {}"
    using that assms(12) s'(1) by (metis fun_upd_same)
qed (use assms in auto)

lemma conc_inv_close_one:
  assumes inv: "conc_inv s" and lock: "lock_inv s" and step: "s' = goto t (CloseDelete ch (A - {ch})) (on_world (close_chan ch (world s)) s)"
    and at: "pc s t = CloseLoop A" and member: "ch \<in> A"
  shows "conc_inv s'"
proof -
  have A: "closed (the_hub s)" "subs (the_hub s) = A"
    using conc_invD(5) [OF inv, of t] at by auto
  then have opens: "A \<subseteq> opens (world s)"
    using conc_invD(4) [OF inv] closed_now_alone [OF lock, of t] at by auto
  from close_chan_world [OF _ conc_invD(1) [OF inv]] opens member obtain w'
    where w': "close_chan ch (world s) = Inr w'" "world_inv w'" "opens w' = opens (world s) - {ch}"
      "allocated w' = allocated (world s)" by blast
  show ?thesis
    by (rule conc_inv_write [OF inv lock, of t _ "CloseDelete ch (A - {ch})"])
      (use step at member A opens w' conc_invD(2,3) [OF inv] in auto)
qed

lemma conc_inv_close_delete:
  assumes inv: "conc_inv s" and lock: "lock_inv s" and step: "s' = goto t (CloseLoop A) (set_subs (subs (the_hub s) - {ch}) s)"
    and at: "pc s t = CloseDelete ch A"
  shows "conc_inv s'"
proof -
  have A: "closed (the_hub s)" "subs (the_hub s) = insert ch A" "ch \<notin> A"
    using conc_invD(5) [OF inv, of t] at by auto
  then have opens: "A \<subseteq> opens (world s)"
    using conc_invD(4) [OF inv] closed_now_alone [OF lock, of t] at by auto
  show ?thesis
    by (rule conc_inv_write [OF inv lock, of t _ "CloseLoop A"])
      (use step at A opens conc_invD(1-3) [OF inv] in auto)
qed

lemma conc_inv_cancel_close:
  assumes inv: "conc_inv s" and lock: "lock_inv s" and step: "s' = goto t WriteUnlock (on_world (close_chan ch (world s)) s)"
    and at: "pc s t = CancelClose ch"
  shows "conc_inv s'"
proof -
  have own: "ch \<in> opens (world s)" "ch \<notin> subs (the_hub s)"
    using conc_invD(6,7) [OF inv, of t ch] at by auto
  from close_chan_world [OF own(1) conc_invD(1) [OF inv]] obtain w'
    where w': "close_chan ch (world s) = Inr w'" "world_inv w'" "opens w' = opens (world s) - {ch}"
      "allocated w' = allocated (world s)" by blast
  show ?thesis
    by (rule conc_inv_write [OF inv lock, of t _ WriteUnlock])
      (use step at own w' conc_invD(2-4,9) [OF inv] closed_now_alone [OF lock, of t] closed_empty [OF inv lock, of t] in auto)
qed

lemma conc_inv_sub_close:
  assumes inv: "conc_inv s" and step: "s' = goto t Idle (on_world (close_chan ch (world s)) s)"
    and at: "pc s t = SubClose ch"
  shows "conc_inv s'"
proof -
  have own: "owns (pc s t) = Some ch" using at by simp
  from close_chan_world [OF conc_invD(6) [OF inv own] conc_invD(1) [OF inv]] obtain w'
    where w': "close_chan ch (world s) = Inr w'" "world_inv w'" "opens w' = opens (world s) - {ch}"
      "allocated w' = allocated (world s)" by blast
  then have s': "world s' = w'" "the_hub s' = the_hub s" "panicked s' = panicked s" "pc s' = (pc s)(t := Idle)"
    using step by auto
  show ?thesis
  proof (rule conc_invI)
    have "closed_now s' = closed_now s"
      using s'(4) at by (intro closed_now_upd) auto
    then show "k \<in> opens (world s')" if "k \<in> subs (the_hub s')" "k \<notin> closed_now s'" for k
      using that conc_invD(4) [OF inv, of k] conc_invD(7) [OF inv own] s' w'(3) by auto
    have other: "u \<noteq> t \<and> owns (pc s u) = Some k" if "owns (pc s' u) = Some k" for u k
      using that s'(4) by (auto split: if_splits)
    have ne: "k \<noteq> ch" if "owns (pc s' u) = Some k" for u k
      using other [OF that] conc_invD(8) [OF inv own, of u] by blast
    show "k \<in> opens (world s')" if "owns (pc s' u) = Some k" for u k
      using ne [OF that] other [OF that] conc_invD(6) [OF inv, of u k] by (simp add: s'(1) w'(3))
    show "k \<notin> subs (the_hub s')" if "owns (pc s' u) = Some k" for u k
      using other [OF that] conc_invD(7) [OF inv, of u k] by (simp add: s'(2))
    show "v = u" if "owns (pc s' u) = Some k" "owns (pc s' v) = Some k" for u v k
      using other [OF that(1)] other [OF that(2)] conc_invD(8) [OF inv] by blast
    show "\<exists>u. closing (pc s' u)" if cl: "closed (the_hub s')" "subs (the_hub s') \<noteq> {}"
    proof -
      obtain u where "closing (pc s u)" using cl conc_invD(9) [OF inv] s'(2) by auto
      then show ?thesis using s'(4) at by (intro exI [of _ u]) auto
    qed
  qed (use conc_invD(2,3,5) [OF inv] s' w' in auto)
qed

lemma conc_inv_inner:
  assumes inv: "conc_inv s" and lock: "lock_inv s" and "inner_step t s s'"
  shows "conc_inv s'"
  using assms(3)
proof cases
  case (pub_send r A ch)
  with conc_inv_send [OF inv lock] show ?thesis by simp
next
  case (lock p)
  with locked_owns [OF lock(2)] show ?thesis
    by (intro conc_inv_move [OF inv, where t = t and p = p]) auto
next
  case (close_range)
  show ?thesis
    by (rule conc_inv_write [OF inv lock, of t _ "CloseLoop (subs (the_hub s))"])
      (use close_range conc_invD [OF inv] closed_now_alone [OF lock, of t] in auto)
next
  case (close_one A ch)
  then show ?thesis by (intro conc_inv_close_one [OF inv lock]) auto
next
  case (close_delete ch A)
  then show ?thesis by (intro conc_inv_close_delete [OF inv lock]) auto
next
  case close_done
  with conc_invD(5) [OF inv, of t] show ?thesis
    by (intro conc_inv_move [OF inv, where t = t and p = WriteUnlock]) auto
next
  case (cancel_delete ch)
  show ?thesis
    by (rule conc_inv_write [OF inv lock, of t _ "CancelClose ch"])
      (use cancel_delete conc_invD [OF inv] closed_now_alone [OF lock, of t] closed_empty [OF inv lock, of t] in auto)
next
  case (cancel_close ch)
  then show ?thesis by (intro conc_inv_cancel_close [OF inv lock]) auto
next
  case (sub_add ch)
  have own: "ch \<in> opens (world s)" "ch \<notin> subs (the_hub s)"
    using conc_invD(6,7) [OF inv, of t ch] sub_add(2) by auto
  then show ?thesis
    by (intro conc_inv_write [OF inv lock, of t _ WriteUnlock])
      (use sub_add opens_allocated conc_invD(1-4) [OF inv] closed_now_alone [OF lock, of t] in auto)
next
  case (sub_close ch)
  then show ?thesis by (intro conc_inv_sub_close [OF inv]) auto
qed (auto intro!: conc_inv_move [OF inv, where t = t])

lemma conc_inv_reachable: "conc_reachable s \<Longrightarrow> conc_inv s"
proof (induction rule: conc_reachable.induct)
  case init
  then show ?case using hub_inv_new by (simp add: conc_inv_def hub_inv_def NewHub_def)
next
  case (inner s t s')
  then show ?case using conc_inv_inner lock_inv_reachable by blast
qed (blast intro: conc_inv_call conc_inv_recv)+

text \<open>C16: However goroutines interleave the steps of \<open>Subscribe\<close>, its cancel function,
  \<open>Publish\<close>, \<open>Close\<close> and receives on one hub, the program never panics: no goroutine sends on a
  closed channel and no channel is closed twice. A subscribed channel is open except while
  \<open>Close\<close> holds the lock, and a closed hub has no subscribers once no \<open>Close\<close> is under way.\<close>

theorem hub_race_free:
  assumes "conc_reachable s"
  shows "panicked s = None
    \<and> (\<forall>ch \<in> subs (the_hub s). (\<exists>c. channels (world s) ch = Some c \<and> \<not> is_closed c) \<or> (\<exists>t A. pc s t = CloseDelete ch A))
    \<and> (closed (the_hub s) \<and> (\<forall>t. \<not> closing (pc s t)) \<longrightarrow> subs (the_hub s) = {})"
  using conc_invD(2,4,9) [OF conc_inv_reachable [OF assms]] by (auto simp: opens_def closed_now_def)

lemma write_holder_steps:
  assumes "conc_inv s" and "holds_write (pc s t)"
  shows "\<exists>s'. inner_step t s s'"
proof (cases "pc s t")
  case CloseCheck
  then show ?thesis by (cases "closed (the_hub s)") (blast intro: close_again close_range)+
next
  case (CloseLoop A)
  then show ?thesis by (cases "A = {}") (blast intro: close_done close_one)+
next
  case (CancelCheck ch)
  then show ?thesis by (cases "ch \<in> subs (the_hub s)") (blast intro: cancel_delete cancel_gone)+
next
  case (SubCheck ch)
  then show ?thesis by (cases "closed (the_hub s)") (blast intro: sub_add sub_reject)+
qed (use assms(2) in \<open>auto intro: inner_step.intros\<close>)

lemma read_holder_steps:
  assumes "holds_read (pc s t)"
  shows "\<exists>s'. inner_step t s s'"
proof (cases "pc s t")
  case (PubCheck r)
  then show ?thesis by (cases "closed (the_hub s)") (blast intro: pub_closed pub_range)+
next
  case (PubLoop r A)
  then show ?thesis by (cases "A = {}") (blast intro: pub_done pub_send)+
qed (use assms in \<open>auto intro: inner_step.intros\<close>)

lemma waiting_steps:
  assumes "writer s = None" and "readers s = {}" and "pc s t \<noteq> Idle" and "\<not> holds_write (pc s t)" and "\<not> holds_read (pc s t)"
  shows "\<exists>s'. inner_step t s s'"
proof -
  have "\<exists>s'. inner_step t s s'" if "locked (pc s t) = Some p" for p
    using lock [OF that assms(1,2)] by blast
  then show ?thesis
    using assms by (cases "pc s t") (auto intro: rlock sub_close)
qed

text \<open>C17: The hub does not deadlock: as long as some goroutine is inside a method, some goroutine
  can take its next step there, whatever subscribers do.\<close>

theorem hub_no_deadlock:
  assumes "conc_reachable s" and "pc s t \<noteq> Idle"
  shows "\<exists>u s'. inner_step u s s'"
proof (cases "writer s")
  case (Some u)
  then have "holds_write (pc s u)"
    using lock_inv_reachable [OF assms(1)] unfolding lock_inv_def by blast
  then show ?thesis
    using write_holder_steps conc_inv_reachable [OF assms(1)] by blast
next
  case None
  then have free: "\<not> holds_write (pc s u)" for u
    using lock_inv_reachable [OF assms(1)] by (simp add: lock_inv_def)
  show ?thesis
  proof (cases "readers s = {}")
    case True
    then have "\<not> holds_read (pc s t)"
      using lock_inv_reachable [OF assms(1)] by (auto simp: lock_inv_def)
    with waiting_steps [OF None True assms(2) free] show ?thesis by blast
  next
    case False
    then obtain u where "holds_read (pc s u)"
      using lock_inv_reachable [OF assms(1)] by (auto simp: lock_inv_def)
    then show ?thesis using read_holder_steps by blast
  qed
qed

section \<open>A concrete interleaving\<close>

text \<open>A publisher waits while a subscriber holds the lock.\<close>

definition contended :: conc where
  "contended = (let s = \<lparr>world = empty_world, the_hub = NewHub, readers = {}, writer = None, pc = (\<lambda>_. Idle), panicked = None\<rparr>;
     s = goto 1 (PubWait None) s;
     s = goto 2 (SubWait 1) (s\<lparr>world := snd (make_chan 4 (world s))\<rparr>)
   in goto 2 (SubCheck 1) (s\<lparr>writer := Some 2\<rparr>))"

lemma contended_reachable: "conc_reachable contended"
proof -
  let ?s0 = "\<lparr>world = empty_world, the_hub = NewHub, readers = {}, writer = None, pc = (\<lambda>_. Idle), panicked = None\<rparr>"
  let ?s1 = "goto 1 (PubWait None) ?s0"
  let ?s2 = "goto 2 (SubWait 1) (?s1\<lparr>world := snd (make_chan 4 (world ?s1))\<rparr>)"
  have "conc_reachable ?s1"
    by (rule conc_reachable.call [OF conc_reachable.init call_publish]) simp
  moreover have "call_step 2 ?s1 ?s2"
    by (rule call_subscribe [where n = 4]) (simp_all add: make_chan_def empty_world_def)
  ultimately have "conc_reachable ?s2" by (rule conc_reachable.call)
  moreover have "inner_step 2 ?s2 (goto 2 (SubCheck 1) (?s2\<lparr>writer := Some 2\<rparr>))"
    by (rule lock) simp_all
  ultimately have "conc_reachable (goto 2 (SubCheck 1) (?s2\<lparr>writer := Some 2\<rparr>))"
    by (rule conc_reachable.inner)
  then show ?thesis by (simp add: contended_def Let_def)
qed

theorem hub_race_free_witness: "panicked contended = None \<and> closed (the_hub contended) = False"
  using hub_race_free [OF contended_reachable] by (simp add: contended_def Let_def NewHub_def)

theorem hub_no_deadlock_witness: "\<exists>u s'. inner_step u contended s'"
  by (rule hub_no_deadlock [OF contended_reachable, of 1]) (simp add: contended_def Let_def)

end
