(* ===== verification/Sdk.thy ===== *)
theory Sdk
  imports Hub_Props Attr
begin

text \<open>
  Spans and contexts, \<open>sap.go\<close>: starting a span inherits trace, parent and hub from the
  context, and each method of a span publishes at most one record on the span's hub. Spans and
  hubs are objects on heaps; a \<open>*Span\<close> or \<open>*Hub\<close> is an \<open>addr option\<close>. The methods of one span
  exclude each other by its mutex, which they hold while they publish, so each is one step.

  The clock, the random source and the order of map iteration are read through an environment:
  the k-th reading of any of them is taken at index k of its function.
\<close>

section \<open>Environment and state\<close>

record go_env =
  env_rt :: pb_runtime
  env_now :: "nat \<Rightarrow> go_time"
  env_rand :: "nat \<Rightarrow> nat \<Rightarrow> string + 8 word list"
  env_range :: "nat \<Rightarrow> addr set \<Rightarrow> addr list"

record sdk_span =
  sp_hub :: "addr option"
  sp_traceID :: string
  sp_spanID :: string
  sp_parentID :: string
  sp_ended :: bool

record sdk =
  sdk_spans :: "addr \<rightharpoonup> sdk_span"
  sdk_next :: addr
  sdk_hubs :: "addr \<rightharpoonup> hub"
  sdk_chans :: chan_world
  sdk_ticks :: nat

definition tick :: "sdk \<Rightarrow> sdk" where
  "tick s = s\<lparr>sdk_ticks := Suc (sdk_ticks s)\<rparr>"

definition time_Now :: "go_env \<Rightarrow> sdk \<Rightarrow> go_time \<times> sdk" where
  "time_Now env s = (env_now env (sdk_ticks s), tick s)"

definition timestamp_Now :: "go_env \<Rightarrow> sdk \<Rightarrow> timestamp \<times> sdk" where
  "timestamp_Now env s = (let (t, s) = time_Now env s in (TimestampNew (env_rt env) t, s))"

definition alloc_sdk_span :: "sdk_span \<Rightarrow> sdk \<Rightarrow> addr \<times> sdk" where
  "alloc_sdk_span sp s = (sdk_next s, s\<lparr>sdk_spans := (sdk_spans s)(sdk_next s \<mapsto> sp), sdk_next := Suc (sdk_next s)\<rparr>)"

text \<open>\<open>hub.Publish\<close> on a pointer to a hub.\<close>

definition sdk_publish :: "go_env \<Rightarrow> addr option \<Rightarrow> sap_record option \<Rightarrow> sdk \<Rightarrow> sdk go_result" where
  "sdk_publish env h r s = (case h of
     None \<Rightarrow> Inr s
   | Some a \<Rightarrow> (case sdk_hubs s a of
       None \<Rightarrow> Inl NilDereference
     | Some hb \<Rightarrow> bind_result (Publish (env_range env (sdk_ticks s) (subs hb)) (Some hb) r (sdk_chans s))
         (\<lambda>w. Inr (tick (s\<lparr>sdk_chans := w\<rparr>)))))"

section \<open>Contexts\<close>

datatype context_key = contextKey | hubContextKey

datatype context_value = CtxSpan "addr option" | CtxHub "addr option"

type_synonym go_context = "(context_key \<times> context_value) list"

definition WithValue :: "go_context \<Rightarrow> context_key \<Rightarrow> context_value \<Rightarrow> go_context" where
  "WithValue ctx k v = (k, v) # ctx"

definition FromContext :: "go_context \<Rightarrow> addr option" where
  "FromContext ctx = (case map_of ctx contextKey of Some (CtxSpan p) \<Rightarrow> p | _ \<Rightarrow> None)"

definition ContextWithHub :: "go_context \<Rightarrow> addr option \<Rightarrow> go_context" where
  "ContextWithHub ctx h = WithValue ctx hubContextKey (CtxHub h)"

definition HubFromContext :: "go_context \<Rightarrow> addr option" where
  "HubFromContext ctx = (case map_of ctx hubContextKey of Some (CtxHub h) \<Rightarrow> h | _ \<Rightarrow> None)"

definition contextWithSpan :: "go_context \<Rightarrow> addr \<Rightarrow> go_context" where
  "contextWithSpan ctx p = WithValue ctx contextKey (CtxSpan (Some p))"

section \<open>Starting spans\<close>

definition stringOrNil :: "string \<Rightarrow> string option" where
  "stringOrNil v = (if v = [] then None else Some v)"

definition newID :: "go_env \<Rightarrow> sdk \<Rightarrow> (string \<times> sdk) go_result" where
  "newID env s = (case env_rand env (sdk_ticks s) 16 of
     Inl err \<Rightarrow> Inl (RandReadFailed err)
   | Inr buf \<Rightarrow> Inr (EncodeToString buf, tick s))"

text \<open>The record \<open>startWithHub\<close> publishes.\<close>

definition started_record :: "pb_runtime \<Rightarrow> timestamp \<Rightarrow> timestamp \<Rightarrow> sdk_span \<Rightarrow> string \<Rightarrow> attribute option list \<Rightarrow> sap_record" where
  "started_record rt emitted at span name attrs = Record_Build (empty_Record_builder\<lparr>
     rb_EmittedAt := Some emitted,
     rb_SpanStarted := Some (SpanStarted_Build rt \<lparr>
       stb_TraceId = Some (sp_traceID span), stb_SpanId = Some (sp_spanID span),
       stb_ParentSpanId = stringOrNil (sp_parentID span), stb_Name = Some name,
       stb_StartedAt = Some at, stb_Attributes = cloneAttributes rt attrs\<rparr>)\<rparr>)"

definition startWithHub :: "go_env \<Rightarrow> go_context \<Rightarrow> addr option \<Rightarrow> string \<Rightarrow> attribute option list \<Rightarrow> sdk \<Rightarrow> (go_context \<times> addr \<times> sdk) go_result" where
  "startWithHub env ctx hub name attrs s =
    (if hub = None
     then let (p, s) = alloc_sdk_span \<lparr>sp_hub = None, sp_traceID = [], sp_spanID = [], sp_parentID = [], sp_ended = False\<rparr> s
          in Inr (contextWithSpan ctx p, p, s)
     else bind_result (newID env s) (\<lambda>(spanID, s).
       let parent = (case FromContext ctx of None \<Rightarrow> None | Some q \<Rightarrow> sdk_spans s q)
       in bind_result
         (case parent of
            Some ps \<Rightarrow> if sp_traceID ps \<noteq> [] then Inr ((sp_traceID ps, sp_spanID ps), s)
              else bind_result (newID env s) (\<lambda>(i, s). Inr ((i, []), s))
          | None \<Rightarrow> bind_result (newID env s) (\<lambda>(i, s). Inr ((i, []), s)))
         (\<lambda>((traceID, parentID), s).
            let span = \<lparr>sp_hub = hub, sp_traceID = traceID, sp_spanID = spanID, sp_parentID = parentID, sp_ended = False\<rparr>;
                (p, s) = alloc_sdk_span span s;
                (emitted, s) = timestamp_Now env s;
                (at, s) = timestamp_Now env s
            in bind_result (sdk_publish env hub (Some (started_record (env_rt env) emitted at span name attrs)) s)
              (\<lambda>s. let ctx = (if HubFromContext ctx \<noteq> hub then ContextWithHub ctx hub else ctx)
                   in Inr (contextWithSpan ctx p, p, s)))))"

definition Hub_Start :: "go_env \<Rightarrow> addr option \<Rightarrow> go_context \<Rightarrow> string \<Rightarrow> attribute option list \<Rightarrow> sdk \<Rightarrow> (go_context \<times> addr \<times> sdk) go_result" where
  "Hub_Start env h ctx name attrs s = startWithHub env ctx h name attrs s"

definition Start :: "go_env \<Rightarrow> go_context \<Rightarrow> string \<Rightarrow> attribute option list \<Rightarrow> sdk \<Rightarrow> (go_context \<times> addr \<times> sdk) go_result" where
  "Start env ctx name attrs s =
    (let hub = HubFromContext ctx;
         hub = (case FromContext ctx of None \<Rightarrow> hub
           | Some q \<Rightarrow> (case sdk_spans s q of None \<Rightarrow> hub
               | Some parent \<Rightarrow> if sp_hub parent \<noteq> None then sp_hub parent else hub))
     in startWithHub env ctx hub name attrs s)"

section \<open>Methods of spans\<close>

text \<open>The object a method's receiver points to; \<open>None\<close> for a nil receiver.\<close>

definition span_at :: "sdk \<Rightarrow> addr option \<Rightarrow> sdk_span option" where
  "span_at s p = (case p of None \<Rightarrow> None | Some a \<Rightarrow> sdk_spans s a)"

definition Recording :: "sdk \<Rightarrow> addr option \<Rightarrow> bool" where
  "Recording s p = (case span_at s p of None \<Rightarrow> False
     | Some span \<Rightarrow> if sp_hub span = None then False else \<not> sp_ended span)"

definition Span_SpanID :: "sdk \<Rightarrow> addr option \<Rightarrow> string" where
  "Span_SpanID s p = (case span_at s p of None \<Rightarrow> [] | Some span \<Rightarrow> sp_spanID span)"

definition Span_TraceID :: "sdk \<Rightarrow> addr option \<Rightarrow> string" where
  "Span_TraceID s p = (case span_at s p of None \<Rightarrow> [] | Some span \<Rightarrow> sp_traceID span)"

definition updated_record :: "pb_runtime \<Rightarrow> timestamp \<Rightarrow> sdk_span \<Rightarrow> attribute option list \<Rightarrow> sap_record" where
  "updated_record rt emitted span attrs = Record_Build (empty_Record_builder\<lparr>
     rb_EmittedAt := Some emitted,
     rb_SpanUpdated := Some (SpanUpdated_Build rt \<lparr>
       upb_TraceId = Some (sp_traceID span), upb_SpanId = Some (sp_spanID span),
       upb_Attributes = cloneAttributes rt attrs\<rparr>)\<rparr>)"

definition SetAttributes :: "go_env \<Rightarrow> addr option \<Rightarrow> attribute option list \<Rightarrow> sdk \<Rightarrow> sdk go_result" where
  "SetAttributes env p attrs s = (case span_at s p of
     None \<Rightarrow> Inr s
   | Some span \<Rightarrow>
       if sp_hub span = None then Inr s
       else if sp_ended span \<or> length attrs = 0 then Inr s
       else let (emitted, s) = timestamp_Now env s
         in sdk_publish env (sp_hub span) (Some (updated_record (env_rt env) emitted span attrs)) s)"

text \<open>The severities under the names the SDK exports.\<close>

type_synonym Severity = SpanEvent_Severity

definition SeverityInfo :: Severity where "SeverityInfo = SEVERITY_INFO"
definition SeverityWarn :: Severity where "SeverityWarn = SEVERITY_WARN"
definition SeverityError :: Severity where "SeverityError = SEVERITY_ERROR"

record event_config =
  cfg_at :: go_time
  cfg_attrs :: "attribute option list"
  cfg_severity :: SpanEvent_Severity

datatype event_option =
    WithTimestamp go_time
  | WithAttributes "attribute option list"
  | WithSeverity SpanEvent_Severity

fun apply_option :: "event_option \<Rightarrow> event_config \<Rightarrow> event_config" where
  "apply_option (WithTimestamp at) cfg = cfg\<lparr>cfg_at := at\<rparr>"
| "apply_option (WithAttributes attrs) cfg = cfg\<lparr>cfg_attrs := cfg_attrs cfg @ attrs\<rparr>"
| "apply_option (WithSeverity severity) cfg = cfg\<lparr>cfg_severity := severity\<rparr>"

fun apply_options :: "event_option option list \<Rightarrow> event_config \<Rightarrow> event_config" where
  "apply_options [] cfg = cfg"
| "apply_options (opt # opts) cfg =
     apply_options opts (case opt of None \<Rightarrow> cfg | Some f \<Rightarrow> apply_option f cfg)"

definition empty_config :: event_config where
  "empty_config = \<lparr>cfg_at = zero_time, cfg_attrs = [], cfg_severity = SEVERITY_UNSPECIFIED\<rparr>"

definition event_record_of :: "pb_runtime \<Rightarrow> timestamp \<Rightarrow> go_time \<Rightarrow> sdk_span \<Rightarrow> string \<Rightarrow> event_config \<Rightarrow> sap_record" where
  "event_record_of rt emitted eventAt span name cfg = Record_Build (empty_Record_builder\<lparr>
     rb_EmittedAt := Some emitted,
     rb_SpanEvent := Some (SpanEvent_Build rt \<lparr>
       evb_TraceId = Some (sp_traceID span), evb_SpanId = Some (sp_spanID span), evb_Name = Some name,
       evb_EventAt = Some (TimestampNew rt eventAt), evb_Attributes = cloneAttributes rt (cfg_attrs cfg),
       evb_Severity = (if cfg_severity cfg \<noteq> SEVERITY_UNSPECIFIED then Some (cfg_severity cfg) else None)\<rparr>)\<rparr>)"

definition AddEvent :: "go_env \<Rightarrow> addr option \<Rightarrow> string \<Rightarrow> event_option option list \<Rightarrow> sdk \<Rightarrow> sdk go_result" where
  "AddEvent env p name opts s = (case span_at s p of
     None \<Rightarrow> Inr s
   | Some span \<Rightarrow>
       if sp_hub span = None then Inr s
       else let cfg = apply_options opts empty_config;
           (eventAt, s) = (if IsZero (cfg_at cfg) then time_Now env s else (cfg_at cfg, s))
         in if sp_ended span then Inr s
         else let (emitted, s) = timestamp_Now env s
           in sdk_publish env (sp_hub span) (Some (event_record_of (env_rt env) emitted eventAt span name cfg)) s)"

definition ended_record :: "pb_runtime \<Rightarrow> timestamp \<Rightarrow> timestamp \<Rightarrow> sdk_span \<Rightarrow> SpanEnded_TerminalType \<Rightarrow> string \<Rightarrow> sap_record" where
  "ended_record rt emitted at span terminalType errorMessage = Record_Build (empty_Record_builder\<lparr>
     rb_EmittedAt := Some emitted,
     rb_SpanEnded := Some (SpanEnded_Build rt \<lparr>
       enb_TraceId = Some (sp_traceID span), enb_SpanId = Some (sp_spanID span), enb_EndedAt = Some at,
       enb_TerminalType = Some terminalType, enb_ErrorMessage = stringOrNil errorMessage\<rparr>)\<rparr>)"

definition end_span :: "go_env \<Rightarrow> addr option \<Rightarrow> SpanEnded_TerminalType \<Rightarrow> string \<Rightarrow> sdk \<Rightarrow> sdk go_result" where
  "end_span env p terminalType errorMessage s = (case p of None \<Rightarrow> Inr s | Some a \<Rightarrow> (case sdk_spans s a of
     None \<Rightarrow> Inr s
   | Some span \<Rightarrow>
       if sp_hub span = None then Inr s
       else if sp_ended span then Inr s
       else let s = s\<lparr>sdk_spans := (sdk_spans s)(a \<mapsto> span\<lparr>sp_ended := True\<rparr>)\<rparr>;
           (emitted, s) = timestamp_Now env s;
           (at, s) = timestamp_Now env s
         in sdk_publish env (sp_hub span)
              (Some (ended_record (env_rt env) emitted at span terminalType errorMessage)) s))"

definition Complete :: "go_env \<Rightarrow> addr option \<Rightarrow> sdk \<Rightarrow> sdk go_result" where
  "Complete env p s = end_span env p TERMINAL_TYPE_COMPLETE [] s"

text \<open>\<open>Error\<close>: the argument is the error's text, \<open>None\<close> for a nil error.\<close>

definition Error :: "go_env \<Rightarrow> addr option \<Rightarrow> string option \<Rightarrow> sdk \<Rightarrow> sdk go_result" where
  "Error env p err s =
    (if p = None then Inr s
     else case err of
       None \<Rightarrow> end_span env p TERMINAL_TYPE_ERROR [] s
     | Some message \<Rightarrow> end_span env p TERMINAL_TYPE_ERROR message s)"

end
