(* ===== verification/Sdk_Props.thy ===== *)
theory Sdk_Props
  imports Sdk
begin

text \<open>
  What the calls of the SDK do: which record each publishes and what it changes, that a span
  publishes nothing after its end, and how children inherit from the context.
\<close>

section \<open>Logging operations\<close>

text \<open>
  The contract of operations whose effect an observer reads from a log with limited room: each
  appends the records it emits. Runs then append the records of their operations in order.
\<close>

fun run_results :: "('s \<Rightarrow> 'op \<Rightarrow> 's go_result) \<Rightarrow> 's \<Rightarrow> 'op list \<Rightarrow> 's go_result" where
  "run_results step s [] = Inr s"
| "run_results step s (op # ops) = bind_result (step s op) (\<lambda>s. run_results step s ops)"

locale logging =
  fixes room :: "nat \<Rightarrow> 's \<Rightarrow> bool"
    and log :: "'s \<Rightarrow> 'r list"
    and step :: "'s \<Rightarrow> 'op \<Rightarrow> 's go_result"
    and admitted :: "'op \<Rightarrow> bool"
    and effect :: "'s \<Rightarrow> 's \<Rightarrow> 'r list \<Rightarrow> bool"
  assumes step_logs: "admitted op \<Longrightarrow> room (Suc n) s
      \<Longrightarrow> \<exists>s' rs. step s op = Inr s' \<and> room n s' \<and> log s' = log s @ rs \<and> effect s s' rs"
begin

text \<open>An invariant between state and log that every effect keeps holds after every run.\<close>

lemma run_invariant:
  assumes "room (length ops) s" and "list_all admitted ops" and "Q s (log s)"
    and "\<And>n s s' rs. room (Suc n) s \<Longrightarrow> Q s (log s) \<Longrightarrow> effect s s' rs \<Longrightarrow> log s' = log s @ rs \<Longrightarrow> Q s' (log s @ rs)"
  shows "\<exists>s'. run_results step s ops = Inr s' \<and> room 0 s' \<and> Q s' (log s')"
  using assms
proof (induction ops arbitrary: s)
  case (Cons op ops)
  obtain s1 rs where s1: "step s op = Inr s1" "room (length ops) s1" "log s1 = log s @ rs" "effect s s1 rs"
    using step_logs [of op "length ops" s] Cons.prems(1,2) by auto
  have "room (Suc (length ops)) s" using Cons.prems(1) by simp
  then have "Q s1 (log s1)" using Cons.prems(3,4) s1 by metis
  with Cons.IH [OF s1(2)] Cons.prems(2,4) s1(1) show ?case by simp
qed auto

end

section \<open>A subscriber's view\<close>

text \<open>
  The environment a run may assume: iteration visits each key once, the random source returns
  the bytes asked for without an error, and the protobuf runtime behaves as documented.
\<close>

definition env_ok :: "go_env \<Rightarrow> bool" where
  "env_ok env \<longleftrightarrow> (\<forall>k. iteration (env_range env k)) \<and> (\<forall>k n. \<exists>bs. env_rand env k n = Inr bs \<and> length bs = n)
     \<and> pb_laws (env_rt env)"

definition sdk_inv :: "sdk \<Rightarrow> bool" where
  "sdk_inv s \<longleftrightarrow> (\<forall>h hb. sdk_hubs s h = Some hb \<longrightarrow> hub_inv (hb, sdk_chans s))
     \<and> (\<forall>p sp. sdk_spans s p = Some sp \<longrightarrow> p < sdk_next s)"

definition sdk_log :: "addr \<Rightarrow> sdk \<Rightarrow> sap_record option list" where
  "sdk_log ch s = (case channels (sdk_chans s) ch of None \<Rightarrow> [] | Some c \<Rightarrow> buffered c)"

text \<open>Channel \<open>ch\<close> is subscribed to hub \<open>h\<close>, and to no other, with room for \<open>n\<close> records.\<close>

definition listens :: "addr \<Rightarrow> addr \<Rightarrow> nat \<Rightarrow> sdk \<Rightarrow> bool" where
  "listens h ch n s \<longleftrightarrow> sdk_inv s \<and> (\<exists>hb c. sdk_hubs s h = Some hb \<and> ch \<in> subs hb
     \<and> channels (sdk_chans s) ch = Some c \<and> length (buffered c) + n \<le> capacity c)"

lemma tick_simps [simp]:
  "sdk_spans (tick s) = sdk_spans s" "sdk_next (tick s) = sdk_next s" "sdk_hubs (tick s) = sdk_hubs s"
  "sdk_chans (tick s) = sdk_chans s" "sdk_ticks (tick s) = Suc (sdk_ticks s)"
  "sdk_inv (tick s) = sdk_inv s" "sdk_log ch (tick s) = sdk_log ch s" "listens h ch n (tick s) = listens h ch n s"
  by (simp_all add: tick_def sdk_inv_def sdk_log_def listens_def)

lemma listens_less: "listens h ch (m + n) s \<Longrightarrow> listens h ch n s"
  by (auto simp: listens_def)

lemma hub_inv_deliver: "hub_inv (hb, w) \<Longrightarrow> hub_inv (hb, deliver A r w)"
  using world_inv_deliver [of w A r] by (fastforce simp: hub_inv_def deliver_def)

lemma sdk_publish_logs:
  assumes "env_ok env" and "listens h ch (Suc n) s"
  shows "\<exists>s'. sdk_publish env (Some h) r s = Inr s' \<and> listens h ch n s' \<and> sdk_log ch s' = sdk_log ch s @ [r]
    \<and> sdk_spans s' = sdk_spans s \<and> sdk_next s' = sdk_next s \<and> sdk_ticks s' = Suc (sdk_ticks s)"
proof -
  obtain hb c where hb: "sdk_hubs s h = Some hb" "ch \<in> subs hb"
      and c: "channels (sdk_chans s) ch = Some c" "length (buffered c) + Suc n \<le> capacity c"
      and inv: "sdk_inv s"
    using assms(2) by (auto simp: listens_def)
  have hinv: "hub_inv (hb, sdk_chans s)" using inv hb(1) by (auto simp: sdk_inv_def)
  have "enumerates (env_range env (sdk_ticks s) (subs hb)) (subs hb)"
    using assms(1) hub_invD(2) [OF hinv] by (simp add: env_ok_def iteration_def)
  from Publish_deliver(1) [OF hinv this] have run: "sdk_publish env (Some h) r s
      = Inr (tick (s\<lparr>sdk_chans := deliver (subs hb) r (sdk_chans s)\<rparr>))"
    by (simp add: sdk_publish_def hb)
  have chan: "channels (deliver (subs hb) r (sdk_chans s)) ch = Some (c\<lparr>buffered := buffered c @ [r]\<rparr>)"
    using c hb(2) by (simp add: deliver_def offered_def)
  have "sdk_inv (s\<lparr>sdk_chans := deliver (subs hb) r (sdk_chans s)\<rparr>)"
    using inv hub_inv_deliver by (simp add: sdk_inv_def)
  then have "listens h ch n (s\<lparr>sdk_chans := deliver (subs hb) r (sdk_chans s)\<rparr>)"
    using hb c(2) chan by (simp add: listens_def)
  with run c(1) chan show ?thesis by (simp add: sdk_log_def)
qed

section \<open>Calls\<close>

datatype sdk_call =
    CallHubStart "addr option" go_context string "attribute option list"
  | CallStart go_context string "attribute option list"
  | CallSetAttributes "addr option" "attribute option list"
  | CallAddEvent "addr option" string "event_option option list"
  | CallComplete "addr option"
  | CallError "addr option" "string option"

definition sdk_exec :: "go_env \<Rightarrow> sdk \<Rightarrow> sdk_call \<Rightarrow> sdk go_result" where
  "sdk_exec env s call = (case call of
     CallHubStart h ctx name attrs \<Rightarrow> bind_result (Hub_Start env h ctx name attrs s) (\<lambda>(_, _, s). Inr s)
   | CallStart ctx name attrs \<Rightarrow> bind_result (Start env ctx name attrs s) (\<lambda>(_, _, s). Inr s)
   | CallSetAttributes p attrs \<Rightarrow> SetAttributes env p attrs s
   | CallAddEvent p name opts \<Rightarrow> AddEvent env p name opts s
   | CallComplete p \<Rightarrow> Complete env p s
   | CallError p err \<Rightarrow> Error env p err s)"

text \<open>The IDs a span started now would get, and how many random readings that takes.\<close>

definition random_id :: "go_env \<Rightarrow> nat \<Rightarrow> string" where
  "random_id env k = EncodeToString (projr (env_rand env k 16))"

definition new_span :: "go_env \<Rightarrow> addr \<Rightarrow> go_context \<Rightarrow> sdk \<Rightarrow> sdk_span" where
  "new_span env h ctx s =
    (let k = sdk_ticks s in case span_at s (FromContext ctx) of
       Some ps \<Rightarrow> if sp_traceID ps \<noteq> []
         then \<lparr>sp_hub = Some h, sp_traceID = sp_traceID ps, sp_spanID = random_id env k, sp_parentID = sp_spanID ps, sp_ended = False\<rparr>
         else \<lparr>sp_hub = Some h, sp_traceID = random_id env (Suc k), sp_spanID = random_id env k, sp_parentID = [], sp_ended = False\<rparr>
     | None \<Rightarrow> \<lparr>sp_hub = Some h, sp_traceID = random_id env (Suc k), sp_spanID = random_id env k, sp_parentID = [], sp_ended = False\<rparr>)"

lemma newID_ok:
  assumes "env_ok env"
  shows "newID env s = Inr (random_id env (sdk_ticks s), tick s)"
proof -
  obtain bs where "env_rand env (sdk_ticks s) 16 = Inr bs"
    using assms unfolding env_ok_def by blast
  then show ?thesis by (simp add: newID_def random_id_def)
qed

lemma random_id_length: "env_ok env \<Longrightarrow> length (random_id env k) = 32"
proof -
  assume "env_ok env"
  then obtain bs where "env_rand env k 16 = Inr bs" "length bs = 16"
    unfolding env_ok_def by blast
  then show ?thesis by (simp add: random_id_def length_EncodeToString)
qed

lemma random_id_not_Nil: "env_ok env \<Longrightarrow> random_id env k \<noteq> []"
  using random_id_length [of env k] by auto

definition spans_upd :: "addr \<Rightarrow> sdk_span \<Rightarrow> sdk \<Rightarrow> sdk" where
  "spans_upd p sp s = s\<lparr>sdk_spans := (sdk_spans s)(p \<mapsto> sp), sdk_next := max (sdk_next s) (Suc p)\<rparr>"

lemma spans_upd_simps [simp]:
  "sdk_hubs (spans_upd p sp s) = sdk_hubs s" "sdk_chans (spans_upd p sp s) = sdk_chans s"
  "sdk_ticks (spans_upd p sp s) = sdk_ticks s" "sdk_spans (spans_upd p sp s) = (sdk_spans s)(p \<mapsto> sp)"
  "sdk_log ch (spans_upd p sp s) = sdk_log ch s"
  by (simp_all add: spans_upd_def sdk_log_def)

lemma listens_upd: "listens h ch n s \<Longrightarrow> listens h ch n (spans_upd p sp s)"
  by (fastforce simp: listens_def sdk_inv_def spans_upd_def less_max_iff_disj split: if_splits)

text \<open>A start on a hub: one span more, one record published.\<close>

lemma startWithHub_logs:
  fixes ctx :: go_context
  assumes "env_ok env" and "listens h ch (Suc n) s"
  defines "sp \<equiv> new_span env h ctx s" and "p \<equiv> sdk_next s"
  shows "\<exists>s' emitted at ctx'. startWithHub env ctx (Some h) name attrs s = Inr (ctx', p, s') \<and> listens h ch n s'
    \<and> sdk_log ch s' = sdk_log ch s @ [Some (started_record (env_rt env) emitted at sp name attrs)]
    \<and> sdk_spans s' = (sdk_spans s)(p \<mapsto> sp) \<and> sdk_ticks s < sdk_ticks s'
    \<and> FromContext ctx' = Some p \<and> HubFromContext ctx' = Some h"
proof -
  note defs = startWithHub_def newID_ok [OF assms(1)] alloc_sdk_span_def timestamp_Now_def time_Now_def Let_def
    new_span_def span_at_def sp_def p_def
  define k where "k = (case span_at s (FromContext ctx) of Some ps \<Rightarrow> if sp_traceID ps \<noteq> [] then Suc (sdk_ticks s) else Suc (Suc (sdk_ticks s))
    | None \<Rightarrow> Suc (Suc (sdk_ticks s)))"
  define s1 where "s1 = (spans_upd p sp s)\<lparr>sdk_ticks := Suc (Suc k)\<rparr>"
  define emitted at where "emitted = TimestampNew (env_rt env) (env_now env k)"
    and "at = TimestampNew (env_rt env) (env_now env (Suc k))"
  have run: "startWithHub env ctx (Some h) name attrs s =
      bind_result (sdk_publish env (Some h) (Some (started_record (env_rt env) emitted at sp name attrs)) s1)
        (\<lambda>s. Inr (contextWithSpan (if HubFromContext ctx \<noteq> Some h then ContextWithHub ctx (Some h) else ctx) p, p, s))"
    by (auto simp: defs tick_def spans_upd_def k_def s1_def emitted_def at_def split: option.split)
  have s1: "s1 = spans_upd p sp (s\<lparr>sdk_ticks := sdk_ticks s1\<rparr>)" "sdk_ticks s < sdk_ticks s1"
    by (auto simp: s1_def k_def spans_upd_def split: option.split)
  have "listens h ch (Suc n) (s\<lparr>sdk_ticks := sdk_ticks s1\<rparr>)"
    using assms(2) by (simp add: listens_def sdk_inv_def)
  then have "listens h ch (Suc n) s1" by (subst s1(1)) (rule listens_upd)
  from sdk_publish_logs [OF assms(1) this] obtain s' where
    s': "sdk_publish env (Some h) (Some (started_record (env_rt env) emitted at sp name attrs)) s1 = Inr s'"
      "listens h ch n s'" "sdk_log ch s' = sdk_log ch s1 @ [Some (started_record (env_rt env) emitted at sp name attrs)]"
      "sdk_spans s' = sdk_spans s1" "sdk_ticks s' = Suc (sdk_ticks s1)"
    by blast
  have "sdk_log ch s1 = sdk_log ch s" and "sdk_spans s1 = (sdk_spans s)(p \<mapsto> sp)"
    by (subst s1(1), simp add: sdk_log_def)+
  with run s' s1(2) show ?thesis
    by (auto simp: contextWithSpan_def ContextWithHub_def WithValue_def FromContext_def HubFromContext_def)
qed

text \<open>Inert and nil spans, and ended ones, leave everything as it is.\<close>

definition inactive :: "sdk \<Rightarrow> addr option \<Rightarrow> bool" where
  "inactive s p \<longleftrightarrow> (case span_at s p of None \<Rightarrow> True | Some sp \<Rightarrow> sp_hub sp = None \<or> sp_ended sp)"

lemma inactive_Recording: "inactive s p \<longleftrightarrow> \<not> Recording s p"
  by (auto simp: inactive_def Recording_def split: option.splits)

lemma inactive_calls:
  assumes "inactive s p"
  shows "SetAttributes env p attrs s = Inr s" and "end_span env p tt msg s = Inr s"
    and "AddEvent env p name opts s = Inr s \<or> AddEvent env p name opts s = Inr (tick s)"
  using assms
  by (auto simp: inactive_def SetAttributes_def end_span_def AddEvent_def span_at_def Let_def time_Now_def split: option.splits)

text \<open>The record an active span on hub \<open>h\<close> publishes for a call, and the span afterwards.\<close>

lemma SetAttributes_logs:
  assumes "env_ok env" and "listens h ch (Suc n) s" and "span_at s p = Some sp" and "sp_hub sp = Some h"
    and "\<not> sp_ended sp" and "attrs \<noteq> []"
  shows "\<exists>s' emitted. SetAttributes env p attrs s = Inr s' \<and> listens h ch n s'
    \<and> sdk_log ch s' = sdk_log ch s @ [Some (updated_record (env_rt env) emitted sp attrs)]
    \<and> sdk_spans s' = sdk_spans s \<and> sdk_ticks s \<le> sdk_ticks s'"
proof -
  have "listens h ch (Suc n) (tick s)" using assms(2) by simp
  note pub = sdk_publish_logs [OF assms(1) this]
  have "SetAttributes env p attrs s = sdk_publish env (Some h)
      (Some (updated_record (env_rt env) (TimestampNew (env_rt env) (env_now env (sdk_ticks s))) sp attrs)) (tick s)"
    using assms(3-6) by (simp add: SetAttributes_def timestamp_Now_def time_Now_def)
  with pub [of "Some (updated_record (env_rt env) (TimestampNew (env_rt env) (env_now env (sdk_ticks s))) sp attrs)"]
  show ?thesis by auto
qed

lemma AddEvent_logs:
  assumes "env_ok env" and "listens h ch (Suc n) s" and "span_at s p = Some sp" and "sp_hub sp = Some h"
    and "\<not> sp_ended sp"
  shows "\<exists>s' emitted at. AddEvent env p name opts s = Inr s' \<and> listens h ch n s'
    \<and> sdk_log ch s' = sdk_log ch s @ [Some (event_record_of (env_rt env) emitted at sp name (apply_options opts empty_config))]
    \<and> sdk_spans s' = sdk_spans s \<and> sdk_ticks s \<le> sdk_ticks s'
    \<and> (\<not> IsZero (cfg_at (apply_options opts empty_config)) \<longrightarrow> at = cfg_at (apply_options opts empty_config))"
proof -
  let ?cfg = "apply_options opts empty_config"
  obtain at s1 where at: "(if IsZero (cfg_at ?cfg) then time_Now env s else (cfg_at ?cfg, s)) = (at, s1)"
    by fastforce
  then have s1: "s1 = s \<or> s1 = tick s" by (auto simp: time_Now_def split: if_splits)
  then have "listens h ch (Suc n) (tick s1)" using assms(2) by auto
  note pub = sdk_publish_logs [OF assms(1) this]
  have "AddEvent env p name opts s = sdk_publish env (Some h)
      (Some (event_record_of (env_rt env) (TimestampNew (env_rt env) (env_now env (sdk_ticks s1))) at sp name ?cfg)) (tick s1)"
    using assms(3-5) by (simp add: AddEvent_def at timestamp_Now_def time_Now_def [of env s1])
  with pub [of "Some (event_record_of (env_rt env) (TimestampNew (env_rt env) (env_now env (sdk_ticks s1))) at sp name ?cfg)"]
    s1 at show ?thesis by (auto split: if_splits)
qed

lemma end_span_logs:
  assumes "env_ok env" and "listens h ch (Suc n) s" and "sdk_spans s a = Some sp" and "sp_hub sp = Some h"
    and "\<not> sp_ended sp"
  shows "\<exists>s' emitted at. end_span env (Some a) tt msg s = Inr s' \<and> listens h ch n s'
    \<and> sdk_log ch s' = sdk_log ch s @ [Some (ended_record (env_rt env) emitted at sp tt msg)]
    \<and> sdk_spans s' = (sdk_spans s)(a \<mapsto> sp\<lparr>sp_ended := True\<rparr>) \<and> sdk_ticks s \<le> sdk_ticks s'"
proof -
  have a: "a < sdk_next s" using assms(2,3) by (auto simp: listens_def sdk_inv_def)
  let ?s1 = "tick (tick (s\<lparr>sdk_spans := (sdk_spans s)(a \<mapsto> sp\<lparr>sp_ended := True\<rparr>)\<rparr>))"
  let ?now = "\<lambda>k. TimestampNew (env_rt env) (env_now env k)"
  have "spans_upd a (sp\<lparr>sp_ended := True\<rparr>) s = s\<lparr>sdk_spans := (sdk_spans s)(a \<mapsto> sp\<lparr>sp_ended := True\<rparr>)\<rparr>"
    using a by (simp add: spans_upd_def max_absorb1)
  then have "listens h ch (Suc n) ?s1"
    using listens_upd [OF assms(2), of a "sp\<lparr>sp_ended := True\<rparr>"] by simp
  note pub = sdk_publish_logs [OF assms(1) this]
  have "end_span env (Some a) tt msg s = sdk_publish env (Some h)
      (Some (ended_record (env_rt env) (?now (sdk_ticks s)) (?now (Suc (sdk_ticks s))) sp tt msg)) ?s1"
    using assms(3-5) by (simp add: end_span_def timestamp_Now_def time_Now_def tick_def)
  moreover have "sdk_log ch ?s1 = sdk_log ch s" by (simp add: sdk_log_def)
  ultimately show ?thesis
    using pub [of "Some (ended_record (env_rt env) (?now (sdk_ticks s)) (?now (Suc (sdk_ticks s))) sp tt msg)"]
    by (elim exE, intro exI [of _ "?now (sdk_ticks s)"] exI [of _ "?now (Suc (sdk_ticks s))"] exI conjI) auto
qed

section \<open>Effects\<close>

text \<open>
  Everything a call on hub \<open>h\<close> can do: nothing, one inert span more, or one record published
  together with the change of the span it is about.
\<close>

inductive sdk_effect :: "go_env \<Rightarrow> addr \<Rightarrow> sdk \<Rightarrow> sdk \<Rightarrow> sap_record option list \<Rightarrow> bool" for env h where
  quiet: "sdk_spans s' = sdk_spans s \<Longrightarrow> sdk_ticks s \<le> sdk_ticks s' \<Longrightarrow> sdk_effect env h s s' []"
| inert: "sdk_spans s' = (sdk_spans s)(sdk_next s \<mapsto> \<lparr>sp_hub = None, sp_traceID = [], sp_spanID = [], sp_parentID = [], sp_ended = False\<rparr>)
    \<Longrightarrow> sdk_ticks s \<le> sdk_ticks s' \<Longrightarrow> sdk_effect env h s s' []"
| started: "sp = new_span env h ctx s \<Longrightarrow> sdk_spans s' = (sdk_spans s)(sdk_next s \<mapsto> sp) \<Longrightarrow> sdk_ticks s < sdk_ticks s'
    \<Longrightarrow> sdk_effect env h s s' [Some (started_record (env_rt env) emitted at sp name attrs)]"
| updated: "sdk_spans s a = Some sp \<Longrightarrow> sp_hub sp = Some h \<Longrightarrow> \<not> sp_ended sp \<Longrightarrow> sdk_spans s' = sdk_spans s
    \<Longrightarrow> sdk_ticks s \<le> sdk_ticks s' \<Longrightarrow> sdk_effect env h s s' [Some (updated_record (env_rt env) emitted sp attrs)]"
| event: "sdk_spans s a = Some sp \<Longrightarrow> sp_hub sp = Some h \<Longrightarrow> \<not> sp_ended sp \<Longrightarrow> sdk_spans s' = sdk_spans s
    \<Longrightarrow> sdk_ticks s \<le> sdk_ticks s' \<Longrightarrow> sdk_effect env h s s' [Some (event_record_of (env_rt env) emitted at sp name cfg)]"
| ended: "sdk_spans s a = Some sp \<Longrightarrow> sp_hub sp = Some h \<Longrightarrow> \<not> sp_ended sp
    \<Longrightarrow> sdk_spans s' = (sdk_spans s)(a \<mapsto> sp\<lparr>sp_ended := True\<rparr>) \<Longrightarrow> sdk_ticks s \<le> sdk_ticks s'
    \<Longrightarrow> sdk_effect env h s s' [Some (ended_record (env_rt env) emitted at sp tt msg)]"

inductive_cases sdk_effectE: "sdk_effect env h s s' rs"

text \<open>Calls that start spans on no other hub.\<close>

fun on_hub :: "addr \<Rightarrow> sdk_call \<Rightarrow> bool" where
  "on_hub h (CallHubStart hub ctx name attrs) \<longleftrightarrow> hub = Some h \<or> hub = None"
| "on_hub h (CallStart ctx name attrs) \<longleftrightarrow> HubFromContext ctx = Some h \<or> HubFromContext ctx = None"
| "on_hub h _ \<longleftrightarrow> True"

text \<open>All spans are on hub \<open>h\<close> or inert, and the observer has room.\<close>

definition sdk_room :: "go_env \<Rightarrow> addr \<Rightarrow> addr \<Rightarrow> nat \<Rightarrow> sdk \<Rightarrow> bool" where
  "sdk_room env h ch n s \<longleftrightarrow> env_ok env \<and> listens h ch n s
     \<and> (\<forall>p sp. sdk_spans s p = Some sp \<longrightarrow> sp_hub sp = Some h \<or> sp_hub sp = None)"

lemma listens_Suc: "listens h ch (Suc n) s \<Longrightarrow> listens h ch n s"
  by (auto simp: listens_def)

lemma start_on_hub:
  assumes "sdk_room env h ch (Suc n) s" and "hub = Some h \<or> hub = None"
  shows "\<exists>r s' rs. startWithHub env ctx hub name attrs s = Inr r \<and> snd (snd r) = s' \<and> sdk_room env h ch n s'
    \<and> sdk_log ch s' = sdk_log ch s @ rs \<and> sdk_effect env h s s' rs"
proof (cases hub)
  case None
  let ?sp = "\<lparr>sp_hub = None, sp_traceID = [], sp_spanID = [], sp_parentID = [], sp_ended = False\<rparr>"
  let ?s = "spans_upd (sdk_next s) ?sp s"
  have "listens h ch n ?s"
    using assms(1) listens_Suc listens_upd by (simp add: sdk_room_def)
  then have "sdk_room env h ch n ?s" using assms(1) by (auto simp: sdk_room_def)
  moreover have "startWithHub env ctx hub name attrs s = Inr (contextWithSpan ctx (sdk_next s), sdk_next s, ?s)"
    using None by (simp add: startWithHub_def alloc_sdk_span_def spans_upd_def)
  moreover have "sdk_effect env h s ?s []" by (rule inert) simp_all
  ultimately show ?thesis by fastforce
next
  case (Some a)
  with assms(2) have hub: "hub = Some h" by simp
  have ok: "env_ok env" "listens h ch (Suc n) s" using assms(1) by (auto simp: sdk_room_def)
  obtain s' emitted at ctx' where s': "startWithHub env ctx (Some h) name attrs s = Inr (ctx', sdk_next s, s')" "listens h ch n s'"
      "sdk_log ch s' = sdk_log ch s @ [Some (started_record (env_rt env) emitted at (new_span env h ctx s) name attrs)]"
      "sdk_spans s' = (sdk_spans s)(sdk_next s \<mapsto> new_span env h ctx s)" "sdk_ticks s < sdk_ticks s'"
    using startWithHub_logs [OF ok, of ctx name attrs] by blast
  have "sp_hub (new_span env h ctx s) = Some h" by (auto simp: new_span_def Let_def split: option.split)
  then have "sdk_room env h ch n s'" using assms(1) s'(2,4) by (auto simp: sdk_room_def)
  moreover have "sdk_effect env h s s' [Some (started_record (env_rt env) emitted at (new_span env h ctx s) name attrs)]"
    by (rule started [OF refl s'(4,5)])
  ultimately show ?thesis using hub s'(1,3) by fastforce
qed

lemma active_span:
  assumes "sdk_room env h ch n s" and "\<not> inactive s p"
  obtains a sp where "p = Some a" and "sdk_spans s a = Some sp" and "sp_hub sp = Some h" and "\<not> sp_ended sp"
proof -
  obtain a sp where a: "p = Some a" "sdk_spans s a = Some sp" "sp_hub sp \<noteq> None" "\<not> sp_ended sp"
    using assms(2) by (auto simp: inactive_def span_at_def split: option.splits)
  moreover have "sp_hub sp = Some h" using assms(1) a(2,3) unfolding sdk_room_def by metis
  ultimately show thesis using that by blast
qed

lemma sdk_room_quiet:
  assumes "sdk_room env h ch (Suc n) s"
  shows "sdk_room env h ch n s" and "sdk_room env h ch n (tick s)"
  using assms listens_Suc by (auto simp: sdk_room_def)

lemma sdk_room_next: "sdk_room env h ch m s \<Longrightarrow> listens h ch n s' \<Longrightarrow> sdk_spans s' = sdk_spans s \<Longrightarrow> sdk_room env h ch n s'"
  by (simp add: sdk_room_def)

lemma end_on_hub:
  assumes "sdk_room env h ch (Suc n) s"
  shows "\<exists>s' rs. end_span env p tt msg s = Inr s' \<and> sdk_room env h ch n s'
    \<and> sdk_log ch s' = sdk_log ch s @ rs \<and> sdk_effect env h s s' rs"
proof (cases "inactive s p")
  case True
  then show ?thesis
    using inactive_calls(2) [OF True] sdk_room_quiet(1) [OF assms] quiet [of s s env h] by auto
next
  case False
  obtain a sp where a: "p = Some a" "sdk_spans s a = Some sp" "sp_hub sp = Some h" "\<not> sp_ended sp"
    using assms False by (rule active_span)
  have ok: "env_ok env" "listens h ch (Suc n) s" using assms by (auto simp: sdk_room_def)
  from end_span_logs [OF ok a(2-4), of tt msg] obtain s' emitted at where
    s': "end_span env (Some a) tt msg s = Inr s'" "listens h ch n s'"
      "sdk_log ch s' = sdk_log ch s @ [Some (ended_record (env_rt env) emitted at sp tt msg)]"
      "sdk_spans s' = (sdk_spans s)(a \<mapsto> sp\<lparr>sp_ended := True\<rparr>)" "sdk_ticks s \<le> sdk_ticks s'"
    by blast
  have "sdk_room env h ch n s'" using assms s'(2,4) a by (auto simp: sdk_room_def)
  with s' a ended [OF a(2-4) s'(4,5)] show ?thesis by blast
qed

lemma attributes_on_hub:
  assumes "sdk_room env h ch (Suc n) s"
  shows "\<exists>s' rs. SetAttributes env p attrs s = Inr s' \<and> sdk_room env h ch n s'
    \<and> sdk_log ch s' = sdk_log ch s @ rs \<and> sdk_effect env h s s' rs"
proof (cases "inactive s p \<or> attrs = []")
  case True
  then have "SetAttributes env p attrs s = Inr s"
  proof
    assume "attrs = []"
    then show ?thesis by (simp add: SetAttributes_def split: option.split)
  qed (rule inactive_calls(1))
  moreover have "sdk_effect env h s s []" by (rule quiet; simp)
  ultimately show ?thesis using sdk_room_quiet(1) [OF assms] by auto
next
  case False
  obtain a sp where a: "p = Some a" "sdk_spans s a = Some sp" "sp_hub sp = Some h" "\<not> sp_ended sp"
    using assms False active_span by blast
  have ok: "env_ok env" "listens h ch (Suc n) s" using assms by (auto simp: sdk_room_def)
  from SetAttributes_logs [OF ok, of p sp attrs] False a obtain s' emitted where
    s': "SetAttributes env p attrs s = Inr s'" "listens h ch n s'"
      "sdk_log ch s' = sdk_log ch s @ [Some (updated_record (env_rt env) emitted sp attrs)]"
      "sdk_spans s' = sdk_spans s" "sdk_ticks s \<le> sdk_ticks s'"
    by (auto simp: span_at_def)
  with updated [OF a(2-4) s'(4,5)] sdk_room_next [OF assms s'(2,4)] show ?thesis by fastforce
qed

lemma event_on_hub:
  assumes "sdk_room env h ch (Suc n) s"
  shows "\<exists>s' rs. AddEvent env p name opts s = Inr s' \<and> sdk_room env h ch n s'
    \<and> sdk_log ch s' = sdk_log ch s @ rs \<and> sdk_effect env h s s' rs"
proof (cases "inactive s p")
  case True
  have "sdk_effect env h s s []" "sdk_effect env h s (tick s) []" by (rule quiet; simp)+
  with inactive_calls(3) [OF True, of env name opts] sdk_room_quiet [OF assms] show ?thesis by auto
next
  case False
  obtain a sp where a: "p = Some a" "sdk_spans s a = Some sp" "sp_hub sp = Some h" "\<not> sp_ended sp"
    using assms False by (rule active_span)
  have ok: "env_ok env" "listens h ch (Suc n) s" using assms by (auto simp: sdk_room_def)
  from AddEvent_logs [OF ok, of p sp name opts] a obtain s' emitted at where
    s': "AddEvent env p name opts s = Inr s'" "listens h ch n s'"
      "sdk_log ch s' = sdk_log ch s @ [Some (event_record_of (env_rt env) emitted at sp name (apply_options opts empty_config))]"
      "sdk_spans s' = sdk_spans s" "sdk_ticks s \<le> sdk_ticks s'"
    by (auto simp: span_at_def)
  with event [OF a(2-4) s'(4,5)] sdk_room_next [OF assms s'(2,4)] show ?thesis by fastforce
qed

lemma sdk_exec_effect:
  assumes "sdk_room env h ch (Suc n) s" and "on_hub h call"
  shows "\<exists>s' rs. sdk_exec env s call = Inr s' \<and> sdk_room env h ch n s'
    \<and> sdk_log ch s' = sdk_log ch s @ rs \<and> sdk_effect env h s s' rs"
proof (cases call)
  case (CallHubStart hub ctx name attrs)
  with start_on_hub [OF assms(1), of hub ctx name attrs] assms(2) show ?thesis
    by (fastforce simp: sdk_exec_def Hub_Start_def)
next
  case (CallStart ctx name attrs)
  let ?hub = "case FromContext ctx of None \<Rightarrow> HubFromContext ctx
         | Some q \<Rightarrow> (case sdk_spans s q of None \<Rightarrow> HubFromContext ctx
             | Some parent \<Rightarrow> if sp_hub parent \<noteq> None then sp_hub parent else HubFromContext ctx)"
  have "?hub = Some h \<or> ?hub = None"
    using assms(1,2) CallStart by (auto simp: sdk_room_def split: option.splits)
  with start_on_hub [OF assms(1), of ?hub ctx name attrs] CallStart show ?thesis
    by (fastforce simp: sdk_exec_def Start_def)
next
  case (CallSetAttributes p attrs)
  with attributes_on_hub [OF assms(1)] show ?thesis by (simp add: sdk_exec_def)
next
  case (CallAddEvent p name opts)
  with event_on_hub [OF assms(1)] show ?thesis by (simp add: sdk_exec_def)
next
  case (CallComplete p)
  with end_on_hub [OF assms(1)] show ?thesis by (simp add: sdk_exec_def Complete_def)
next
  case (CallError p err)
  moreover have "sdk_effect env h s s []" by (rule quiet; simp)
  ultimately show ?thesis using end_on_hub [OF assms(1)] sdk_room_quiet [OF assms(1)]
    by (fastforce simp: sdk_exec_def Error_def split: option.split)
qed

interpretation sdk_calls: logging "sdk_room env h ch" "sdk_log ch" "sdk_exec env" "on_hub h" "sdk_effect env h" for env h ch
  by unfold_locales (rule sdk_exec_effect)

end
