(* ===== verification/Store.thy ===== *)
theory Store
  imports Proto
begin

text \<open>
  The span store of \<open>state/state.go\<close>, as the code has it: span states are objects on a heap,
  \<open>roots\<close> and every \<open>Children\<close> slice hold their addresses, and \<open>byID\<close> points at the same
  objects, so that a record applied through \<open>byID\<close> is seen from the tree. Each operation
  returns \<open>None\<close> where the code would panic on a nil pointer or would not return; the
  recursive walks carry fuel for that. \<open>Store_Inv\<close> shows that on the stores the code can
  build neither happens.
\<close>

section \<open>State\<close>

record event_state =
  ev_Name :: string
  ev_At :: go_time
  ev_Attributes :: "attribute option list"
  ev_Severity :: SpanEvent_Severity

record span_state =
  TraceID :: string
  SpanID :: string
  ParentSpanID :: string
  Name :: string
  StartedAt :: go_time
  EndedAt :: go_time
  Attributes :: "attribute option list"
  Events :: "event_state option list"
  Children :: "addr list"
  Ended :: bool
  TerminalType :: SpanEnded_TerminalType
  ErrorMessage :: string

type_synonym span_heap = "addr \<rightharpoonup> span_state"

record store =
  heap :: span_heap
  next_addr :: addr
  roots :: "addr list"
  byID :: "string \<rightharpoonup> addr"
  staleOpenAt :: "string \<rightharpoonup> go_time"
  allowUnknownParents :: bool

record StoreOptions =
  AllowUnknownParents :: bool

text \<open>The address 0 is nil: allocation starts at 1.\<close>

definition NewStoreWithOptions :: "StoreOptions \<Rightarrow> store" where
  "NewStoreWithOptions options =
     \<lparr>heap = Map.empty, next_addr = 1, roots = [], byID = Map.empty, staleOpenAt = Map.empty,
      allowUnknownParents = AllowUnknownParents options\<rparr>"

definition NewStore :: store where
  "NewStore = NewStoreWithOptions \<lparr>AllowUnknownParents = False\<rparr>"

text \<open>An assignment to fields of the object a pointer refers to.\<close>

definition assign :: "span_heap \<Rightarrow> addr \<Rightarrow> (span_state \<Rightarrow> span_state) \<Rightarrow> span_heap" where
  "assign h p f = h(p := map_option f (h p))"

text \<open>Fuel for a walk: a path through distinct objects visits each allocated one once.\<close>

definition walk_fuel :: "store \<Rightarrow> nat" where
  "walk_fuel s = Suc (next_addr s)"

section \<open>Reading records\<close>

text \<open>
  The parameter of \<open>timeValue\<close> is an interface. Its callers pass a \<open>*timestamppb.Timestamp\<close>,
  so the interface value is never nil, even where the pointer in it is: the outer option is
  the interface, the inner one the pointer.
\<close>

definition timeValue :: "pb_runtime \<Rightarrow> timestamp option option \<Rightarrow> go_time" where
  "timeValue rt ts = (case ts of None \<Rightarrow> zero_time | Some p \<Rightarrow> AsTime rt p)"

fun state_clone_loop :: "pb_runtime \<Rightarrow> attribute option list \<Rightarrow> attribute option list \<Rightarrow> attribute option list" where
  "state_clone_loop rt [] cloned = cloned"
| "state_clone_loop rt (attr # attrs) cloned =
     (case attr of None \<Rightarrow> state_clone_loop rt attrs cloned
      | Some a \<Rightarrow> state_clone_loop rt attrs (cloned @ [Some (CloneOf rt a)]))"

definition state_cloneAttributes :: "pb_runtime \<Rightarrow> attribute option list \<Rightarrow> attribute option list" where
  "state_cloneAttributes rt attrs = (if length attrs = 0 then [] else state_clone_loop rt attrs [])"

section \<open>Applying records\<close>

definition applyStarted :: "pb_runtime \<Rightarrow> store \<Rightarrow> span_started option \<Rightarrow> store option" where
  "applyStarted rt s started =
    (if started = None \<or> SpanStarted_GetSpanId started = [] then Some s
     else let spanID = SpanStarted_GetSpanId started
     in if byID s spanID \<noteq> None then Some s
     else let parentID = SpanStarted_GetParentSpanId started; parent = byID s parentID
     in if parentID \<noteq> [] \<and> parent = None \<and> \<not> allowUnknownParents s then Some s
     else let span = \<lparr>TraceID = SpanStarted_GetTraceId started, SpanID = spanID,
                ParentSpanID = parentID, Name = SpanStarted_GetName started,
                StartedAt = timeValue rt (Some (SpanStarted_GetStartedAt started)),
                EndedAt = zero_time,
                Attributes = state_cloneAttributes rt (SpanStarted_GetAttributes started),
                Events = [], Children = [], Ended = False,
                TerminalType = TERMINAL_TYPE_UNSPECIFIED, ErrorMessage = []\<rparr>;
              p = next_addr s;
              s = s\<lparr>heap := (heap s)(p \<mapsto> span), next_addr := Suc p, byID := (byID s)(spanID \<mapsto> p)\<rparr>
     in case parent of
          Some q \<Rightarrow> if heap s q = None then None
            else Some (s\<lparr>heap := assign (heap s) q (\<lambda>sp. sp\<lparr>Children := Children sp @ [p]\<rparr>)\<rparr>)
        | None \<Rightarrow> Some (s\<lparr>roots := roots s @ [p]\<rparr>))"

text \<open>
  The inner loop of \<open>applyUpdated\<close>: replace the first attribute with the incoming key,
  \<open>None\<close> when there is none.
\<close>

fun replace_attr :: "pb_runtime \<Rightarrow> attribute option \<Rightarrow> attribute option list \<Rightarrow> attribute option list option" where
  "replace_attr rt incoming [] = None"
| "replace_attr rt incoming (existing # rest) =
     (if existing \<noteq> None \<and> Attribute_GetKey existing = Attribute_GetKey incoming
      then Some (state_cloneAttributes rt [incoming] ! 0 # rest)
      else map_option ((#) existing) (replace_attr rt incoming rest))"

fun update_attrs :: "pb_runtime \<Rightarrow> attribute option list \<Rightarrow> attribute option list \<Rightarrow> attribute option list" where
  "update_attrs rt [] attrs = attrs"
| "update_attrs rt (incoming # rest) attrs =
     (if incoming = None \<or> Attribute_GetKey incoming = [] then update_attrs rt rest attrs
      else update_attrs rt rest
        (case replace_attr rt incoming attrs of
           Some attrs' \<Rightarrow> attrs'
         | None \<Rightarrow> attrs @ [state_cloneAttributes rt [incoming] ! 0]))"

definition applyUpdated :: "pb_runtime \<Rightarrow> store \<Rightarrow> span_updated option \<Rightarrow> store option" where
  "applyUpdated rt s updated =
    (if updated = None then Some s
     else case byID s (SpanUpdated_GetSpanId updated) of
       None \<Rightarrow> Some s
     | Some p \<Rightarrow> (case heap s p of
         None \<Rightarrow> None
       | Some span \<Rightarrow>
           if Ended span then Some s
           else Some (s\<lparr>heap := assign (heap s) p
             (\<lambda>sp. sp\<lparr>Attributes := update_attrs rt (SpanUpdated_GetAttributes updated) (Attributes sp)\<rparr>)\<rparr>)))"

definition applyEnded :: "pb_runtime \<Rightarrow> store \<Rightarrow> span_ended option \<Rightarrow> store option" where
  "applyEnded rt s ended =
    (if ended = None then Some s
     else case byID s (SpanEnded_GetSpanId ended) of
       None \<Rightarrow> Some s
     | Some p \<Rightarrow> (case heap s p of
         None \<Rightarrow> None
       | Some span \<Rightarrow>
           if Ended span then Some s
           else Some (s\<lparr>heap := assign (heap s) p
             (\<lambda>sp. sp\<lparr>Ended := True,
                       EndedAt := timeValue rt (Some (SpanEnded_GetEndedAt ended)),
                       TerminalType := SpanEnded_GetTerminalType rt ended,
                       ErrorMessage := SpanEnded_GetErrorMessage ended\<rparr>)\<rparr>)))"

definition applyEvent :: "pb_runtime \<Rightarrow> store \<Rightarrow> span_event option \<Rightarrow> store option" where
  "applyEvent rt s event =
    (if event = None then Some s
     else case byID s (SpanEvent_GetSpanId event) of
       None \<Rightarrow> Some s
     | Some p \<Rightarrow> (case heap s p of
         None \<Rightarrow> None
       | Some span \<Rightarrow>
           if Ended span then Some s
           else Some (s\<lparr>heap := assign (heap s) p
             (\<lambda>sp. sp\<lparr>Events := Events sp @
                [Some \<lparr>ev_Name = SpanEvent_GetName event,
                       ev_At = timeValue rt (Some (SpanEvent_GetEventAt event)),
                       ev_Attributes = state_cloneAttributes rt (SpanEvent_GetAttributes event),
                       ev_Severity = SpanEvent_GetSeverity rt event\<rparr>]\<rparr>)\<rparr>)))"

definition Apply :: "pb_runtime \<Rightarrow> store \<Rightarrow> sap_record option \<Rightarrow> store option" where
  "Apply rt s record =
    (if record = None then Some s
     else case Record_WhichKind record of
       Record_SpanStarted_case \<Rightarrow> applyStarted rt s (Record_GetSpanStarted record)
     | Record_SpanUpdated_case \<Rightarrow> applyUpdated rt s (Record_GetSpanUpdated record)
     | Record_SpanEnded_case \<Rightarrow> applyEnded rt s (Record_GetSpanEnded record)
     | Record_SpanEvent_case \<Rightarrow> applyEvent rt s (Record_GetSpanEvent record)
     | Record_Kind_not_set_case \<Rightarrow> Some s)"

section \<open>Reading the store\<close>

definition Roots :: "store \<Rightarrow> addr list" where
  "Roots s = roots s"

definition StaleOpenSpanIDs :: "store \<Rightarrow> (string \<rightharpoonup> go_time)" where
  "StaleOpenSpanIDs s = staleOpenAt s"

text \<open>
  \<open>findSpan\<close> and its loop over the children. The outer option is the walk (\<open>None\<close>: out of
  fuel), the inner one the returned pointer with its depth (\<open>None\<close>: nil).
\<close>

fun findSpan :: "nat \<Rightarrow> span_heap \<Rightarrow> addr \<Rightarrow> string \<Rightarrow> nat \<Rightarrow> (addr \<times> nat) option option"
  and findSpan_loop :: "nat \<Rightarrow> span_heap \<Rightarrow> addr list \<Rightarrow> string \<Rightarrow> nat \<Rightarrow> (addr \<times> nat) option option" where
  "findSpan 0 h p spanID depth = None"
| "findSpan (Suc fuel) h p spanID depth =
     (case h p of
        None \<Rightarrow> Some None
      | Some span \<Rightarrow>
          if SpanID span = spanID then Some (Some (p, depth))
          else findSpan_loop fuel h (Children span) spanID (depth + 1))"
| "findSpan_loop fuel h [] spanID depth = Some None"
| "findSpan_loop fuel h (c # cs) spanID depth =
     (case findSpan fuel h c spanID depth of
        None \<Rightarrow> None
      | Some (Some found) \<Rightarrow> Some (Some found)
      | Some None \<Rightarrow> findSpan_loop fuel h cs spanID depth)"

definition FindSpan :: "store \<Rightarrow> string \<Rightarrow> (addr \<times> nat) option option" where
  "FindSpan s spanID =
    (if spanID = [] then Some None else findSpan_loop (walk_fuel s) (heap s) (roots s) spanID 0)"

fun hasOpenSpan :: "nat \<Rightarrow> span_heap \<Rightarrow> addr \<Rightarrow> bool option"
  and hasOpenSpan_loop :: "nat \<Rightarrow> span_heap \<Rightarrow> addr list \<Rightarrow> bool option" where
  "hasOpenSpan 0 h p = None"
| "hasOpenSpan (Suc fuel) h p =
     (case h p of
        None \<Rightarrow> Some False
      | Some span \<Rightarrow> if \<not> Ended span then Some True else hasOpenSpan_loop fuel h (Children span))"
| "hasOpenSpan_loop fuel h [] = Some False"
| "hasOpenSpan_loop fuel h (c # cs) =
     (case hasOpenSpan fuel h c of
        None \<Rightarrow> None
      | Some True \<Rightarrow> Some True
      | Some False \<Rightarrow> hasOpenSpan_loop fuel h cs)"

definition HasOpenSpans :: "store \<Rightarrow> bool option" where
  "HasOpenSpans s = hasOpenSpan_loop (walk_fuel s) (heap s) (roots s)"

section \<open>Stale marks\<close>

fun markOpenSpanStale :: "nat \<Rightarrow> span_heap \<Rightarrow> go_time \<Rightarrow> addr \<Rightarrow> (string \<rightharpoonup> go_time) \<Rightarrow> (string \<rightharpoonup> go_time) option"
  and markOpenSpanStale_loop :: "nat \<Rightarrow> span_heap \<Rightarrow> go_time \<Rightarrow> addr list \<Rightarrow> (string \<rightharpoonup> go_time) \<Rightarrow> (string \<rightharpoonup> go_time) option" where
  "markOpenSpanStale 0 h at p stale = None"
| "markOpenSpanStale (Suc fuel) h at p stale =
     (case h p of
        None \<Rightarrow> Some stale
      | Some span \<Rightarrow>
          markOpenSpanStale_loop fuel h at (Children span)
            (if \<not> Ended span \<and> stale (SpanID span) = None then stale(SpanID span \<mapsto> at) else stale))"
| "markOpenSpanStale_loop fuel h at [] stale = Some stale"
| "markOpenSpanStale_loop fuel h at (c # cs) stale =
     (case markOpenSpanStale fuel h at c stale of
        None \<Rightarrow> None
      | Some stale' \<Rightarrow> markOpenSpanStale_loop fuel h at cs stale')"

definition MarkOpenSpansStale :: "store \<Rightarrow> go_time \<Rightarrow> store option" where
  "MarkOpenSpansStale s at =
     map_option (\<lambda>stale. s\<lparr>staleOpenAt := stale\<rparr>)
       (markOpenSpanStale_loop (walk_fuel s) (heap s) at (roots s) (staleOpenAt s))"

section \<open>Removing spans\<close>

text \<open>\<open>deleteSpan\<close> drops a subtree's entries from both maps.\<close>

type_synonym store_maps = "(string \<rightharpoonup> addr) \<times> (string \<rightharpoonup> go_time)"

fun deleteSpan :: "nat \<Rightarrow> span_heap \<Rightarrow> addr \<Rightarrow> store_maps \<Rightarrow> store_maps option"
  and deleteSpan_loop :: "nat \<Rightarrow> span_heap \<Rightarrow> addr list \<Rightarrow> store_maps \<Rightarrow> store_maps option" where
  "deleteSpan 0 h p m = None"
| "deleteSpan (Suc fuel) h p m =
     (case h p of
        None \<Rightarrow> Some m
      | Some span \<Rightarrow>
          deleteSpan_loop fuel h (Children span)
            ((fst m)(SpanID span := None), (snd m)(SpanID span := None)))"
| "deleteSpan_loop fuel h [] m = Some m"
| "deleteSpan_loop fuel h (c # cs) m =
     (case deleteSpan fuel h c m of
        None \<Rightarrow> None
      | Some m' \<Rightarrow> deleteSpan_loop fuel h cs m')"

text \<open>
  \<open>keepClosedSpan\<close> reads the children slice once, then rewrites the object's \<open>Children\<close>
  with those it kept; the loop carries the heap, the maps and the kept addresses.
\<close>

fun keepClosedSpan :: "nat \<Rightarrow> addr \<Rightarrow> span_heap \<times> store_maps \<Rightarrow> (bool \<times> span_heap \<times> store_maps) option"
  and keepClosedSpan_loop :: "nat \<Rightarrow> addr list \<Rightarrow> addr list \<Rightarrow> span_heap \<times> store_maps \<Rightarrow> (addr list \<times> span_heap \<times> store_maps) option" where
  "keepClosedSpan 0 p w = None"
| "keepClosedSpan (Suc fuel) p w =
     (case fst w p of
        None \<Rightarrow> Some (False, w)
      | Some span \<Rightarrow>
          if \<not> Ended span
          then map_option (\<lambda>m. (False, fst w, m)) (deleteSpan (Suc fuel) (fst w) p (snd w))
          else map_option (\<lambda>(kept, h, m). (True, assign h p (\<lambda>sp. sp\<lparr>Children := kept\<rparr>), m))
                 (keepClosedSpan_loop fuel (Children span) [] w))"
| "keepClosedSpan_loop fuel [] kept w = Some (kept, w)"
| "keepClosedSpan_loop fuel (c # cs) kept w =
     (case keepClosedSpan fuel c w of
        None \<Rightarrow> None
      | Some (keep, w') \<Rightarrow> keepClosedSpan_loop fuel cs (if keep then kept @ [c] else kept) w')"

definition ClearOpenSpans :: "store \<Rightarrow> store option" where
  "ClearOpenSpans s =
    (if length (roots s) = 0 then Some s
     else map_option (\<lambda>(kept, h, byid, stale). s\<lparr>heap := h, roots := kept, byID := byid, staleOpenAt := stale\<rparr>)
            (keepClosedSpan_loop (walk_fuel s) (roots s) [] (heap s, byID s, staleOpenAt s)))"

definition Clear :: "store \<Rightarrow> store" where
  "Clear s = s\<lparr>roots := [], byID := Map.empty, staleOpenAt := Map.empty\<rparr>"

definition LimitRoots :: "store \<Rightarrow> int \<Rightarrow> store option" where
  "LimitRoots s limit =
    (if limit \<le> 0 then Some (Clear s)
     else if int (length (roots s)) \<le> limit then Some s
     else let remove = length (roots s) - nat limit
     in map_option (\<lambda>(byid, stale). s\<lparr>byID := byid, staleOpenAt := stale, roots := drop remove (roots s)\<rparr>)
          (deleteSpan_loop (walk_fuel s) (heap s) (take remove (roots s)) (byID s, staleOpenAt s)))"

end
