(* ===== verification/Store_Shape.thy ===== *)
theory Store_Shape
  imports Store "HOL-Library.Multiset"
begin

text \<open>
  The shape of a span tree on the heap: which objects it is made of. Every recursive walk of
  the store is characterised over shapes (a pre-order traversal of its addresses), once and
  for all fuels that suffice; the invariant and the refinement rest on these facts only.
\<close>

section \<open>Shapes\<close>

datatype shape = Shape (shape_addr: addr) (shape_kids: "shape list")

fun addrs :: "shape \<Rightarrow> addr list" where
  "addrs (Shape p ts) = p # concat (map addrs ts)"

fun walk :: "nat \<Rightarrow> shape \<Rightarrow> (addr \<times> nat) list" where
  "walk d (Shape p ts) = (p, d) # concat (map (walk (d + 1)) ts)"

fun fits :: "nat \<Rightarrow> shape \<Rightarrow> bool" where
  "fits 0 t = False"
| "fits (Suc n) t = (\<forall>u \<in> set (shape_kids t). fits n u)"

fun repr :: "span_heap \<Rightarrow> shape \<Rightarrow> bool" where
  "repr h (Shape p ts) \<longleftrightarrow>
     (case h p of None \<Rightarrow> False | Some sp \<Rightarrow> Children sp = map shape_addr ts) \<and> (\<forall>t \<in> set ts. repr h t)"

abbreviation forest_addrs :: "shape list \<Rightarrow> addr list" where
  "forest_addrs ts \<equiv> concat (map addrs ts)"

definition sid :: "span_heap \<Rightarrow> addr \<Rightarrow> string" where
  "sid h p = SpanID (the (h p))"

definition is_open :: "span_heap \<Rightarrow> addr \<Rightarrow> bool" where
  "is_open h p \<longleftrightarrow> \<not> Ended (the (h p))"

lemma addrs_eq: "addrs t = shape_addr t # forest_addrs (shape_kids t)"
  by (cases t) simp

lemma shape_addr_in [simp]: "shape_addr t \<in> set (addrs t)"
  by (cases t) simp

lemma map_fst_walk [simp]: "map fst (walk d t) = addrs t"
proof (induction t arbitrary: d)
  case (Shape p ts)
  then show ?case by (simp add: map_concat comp_def cong: map_cong)
qed

lemma repr_shape_addr: "repr h t \<Longrightarrow> \<exists>sp. h (shape_addr t) = Some sp \<and> Children sp = map shape_addr (shape_kids t)"
  by (cases t) (auto split: option.splits)

lemma repr_kids: "repr h t \<Longrightarrow> u \<in> set (shape_kids t) \<Longrightarrow> repr h u"
  by (cases t) auto

lemma repr_alloc: "repr h t \<Longrightarrow> p \<in> set (addrs t) \<Longrightarrow> h p \<noteq> None"
  by (induction t) (auto split: option.splits)

lemma repr_cong:
  assumes "\<And>p. p \<in> set (addrs t) \<Longrightarrow> h' p = h p"
  shows "repr h' t \<longleftrightarrow> repr h t"
  using assms
proof (induction t)
  case (Shape p ts)
  have "repr h' t \<longleftrightarrow> repr h t" if "t \<in> set ts" for t
    using Shape.prems that by (intro Shape.IH) auto
  moreover have "h' p = h p"
    using Shape.prems by simp
  ultimately show ?case by simp
qed

lemma length_addrs_fits: "length (addrs t) \<le> n \<Longrightarrow> fits n t"
proof (induction t arbitrary: n)
  case (Shape p ts)
  then obtain m where n: "n = Suc m" and m: "length (forest_addrs ts) \<le> m"
    by (cases n) auto
  have "fits m t" if "t \<in> set ts" for t
  proof (rule Shape.IH [OF that])
    have "length (addrs t) \<le> length (forest_addrs ts)"
      using that by (simp add: length_concat comp_def member_le_sum_list)
    with m show "length (addrs t) \<le> m" by simp
  qed
  with n show ?case by simp
qed

section \<open>The reading walks\<close>

text \<open>
  Each walk is a loop over siblings and a step into one span. Given what the step does for
  the siblings, the loop lemma says what the loop does; the walk lemma closes the recursion.
\<close>

lemma find_append: "find P (xs @ ys) = (case find P xs of None \<Rightarrow> find P ys | Some x \<Rightarrow> Some x)"
  by (induction xs) auto

lemma findSpan_loop_find:
  assumes "\<And>t. t \<in> set ts \<Longrightarrow> findSpan fuel h (shape_addr t) spanID d = Some (find P (walk d t))"
  shows "findSpan_loop fuel h (map shape_addr ts) spanID d = Some (find P (concat (map (walk d) ts)))"
  using assms by (induction ts) (auto simp: find_append split: option.splits)

lemma findSpan_find:
  assumes "repr h t" and "fits fuel t"
  shows "findSpan fuel h (shape_addr t) spanID d = Some (find (\<lambda>(p, _). sid h p = spanID) (walk d t))"
  using assms
proof (induction t arbitrary: fuel d)
  case (Shape p ts)
  then obtain n where fuel: "fuel = Suc n" by (cases fuel) auto
  obtain sp where sp: "h p = Some sp" "Children sp = map shape_addr ts"
    using repr_shape_addr [OF Shape.prems(1)] by auto
  have "findSpan_loop n h (map shape_addr ts) spanID (d + 1)
      = Some (find (\<lambda>(p, _). sid h p = spanID) (concat (map (walk (d + 1)) ts)))"
    using Shape fuel by (intro findSpan_loop_find Shape.IH) auto
  with sp fuel show ?case by (simp add: sid_def)
qed

lemma hasOpenSpan_loop_ex:
  assumes "\<And>t. t \<in> set ts \<Longrightarrow> hasOpenSpan fuel h (shape_addr t) = Some (\<exists>p \<in> set (addrs t). is_open h p)"
  shows "hasOpenSpan_loop fuel h (map shape_addr ts) = Some (\<exists>p \<in> set (forest_addrs ts). is_open h p)"
  using assms by (induction ts) (auto split: option.splits bool.splits)

lemma hasOpenSpan_ex:
  assumes "repr h t" and "fits fuel t"
  shows "hasOpenSpan fuel h (shape_addr t) = Some (\<exists>p \<in> set (addrs t). is_open h p)"
  using assms
proof (induction t arbitrary: fuel)
  case (Shape p ts)
  then obtain n where fuel: "fuel = Suc n" by (cases fuel) auto
  obtain sp where sp: "h p = Some sp" "Children sp = map shape_addr ts"
    using repr_shape_addr [OF Shape.prems(1)] by auto
  have "hasOpenSpan_loop n h (map shape_addr ts) = Some (\<exists>p \<in> set (forest_addrs ts). is_open h p)"
    using Shape fuel by (intro hasOpenSpan_loop_ex Shape.IH) auto
  with sp fuel show ?case by (simp add: is_open_def)
qed

section \<open>Stale marks\<close>

definition mark_one :: "span_heap \<Rightarrow> go_time \<Rightarrow> addr \<Rightarrow> (string \<rightharpoonup> go_time) \<Rightarrow> (string \<rightharpoonup> go_time)" where
  "mark_one h at p stale =
     (if is_open h p \<and> stale (sid h p) = None then stale(sid h p \<mapsto> at) else stale)"

lemma markOpenSpanStale_loop_fold:
  assumes "\<And>t stale. t \<in> set ts \<Longrightarrow>
    markOpenSpanStale fuel h at (shape_addr t) stale = Some (fold (mark_one h at) (addrs t) stale)"
  shows "markOpenSpanStale_loop fuel h at (map shape_addr ts) stale = Some (fold (mark_one h at) (forest_addrs ts) stale)"
  using assms by (induction ts arbitrary: stale) auto

lemma markOpenSpanStale_fold:
  assumes "repr h t" and "fits fuel t"
  shows "markOpenSpanStale fuel h at (shape_addr t) stale = Some (fold (mark_one h at) (addrs t) stale)"
  using assms
proof (induction t arbitrary: fuel stale)
  case (Shape p ts)
  then obtain n where fuel: "fuel = Suc n" by (cases fuel) auto
  obtain sp where sp: "h p = Some sp" "Children sp = map shape_addr ts"
    using repr_shape_addr [OF Shape.prems(1)] by auto
  have "markOpenSpanStale_loop n h at (map shape_addr ts) st = Some (fold (mark_one h at) (forest_addrs ts) st)" for st
    using Shape fuel by (intro markOpenSpanStale_loop_fold Shape.IH) auto
  moreover have "is_open h p \<longleftrightarrow> \<not> Ended sp" and "sid h p = SpanID sp"
    using sp by (simp_all add: is_open_def sid_def)
  ultimately show ?case
    using sp fuel by (simp add: mark_one_def [of h at p])
qed

lemma fold_mark_one:
  "fold (mark_one h at) ps stale i =
     (if stale i = None \<and> (\<exists>p \<in> set ps. is_open h p \<and> sid h p = i) then Some at else stale i)"
  by (induction ps arbitrary: stale) (auto simp: mark_one_def)

section \<open>Deleting subtrees\<close>

definition del_ids :: "string set \<Rightarrow> store_maps \<Rightarrow> store_maps" where
  "del_ids A m = (fst m |` (- A), snd m |` (- A))"

lemma del_ids_empty [simp]: "del_ids {} m = m"
  by (simp add: del_ids_def restrict_map_def)

lemma del_ids_Un: "del_ids A (del_ids B m) = del_ids (B \<union> A) m"
  by (simp add: del_ids_def restrict_map_def fun_eq_iff)

lemma del_ids_one: "((fst m)(i := None), (snd m)(i := None)) = del_ids {i} m"
  by (auto simp: del_ids_def restrict_map_def fun_eq_iff)

lemma deleteSpan_loop_del:
  assumes "\<And>t m. t \<in> set ts \<Longrightarrow> deleteSpan fuel h (shape_addr t) m = Some (del_ids (sid h ` set (addrs t)) m)"
  shows "deleteSpan_loop fuel h (map shape_addr ts) m = Some (del_ids (sid h ` set (forest_addrs ts)) m)"
  using assms by (induction ts arbitrary: m) (auto simp: del_ids_Un image_Un)

lemma deleteSpan_del:
  assumes "repr h t" and "fits fuel t"
  shows "deleteSpan fuel h (shape_addr t) m = Some (del_ids (sid h ` set (addrs t)) m)"
  using assms
proof (induction t arbitrary: fuel m)
  case (Shape p ts)
  then obtain n where fuel: "fuel = Suc n" by (cases fuel) auto
  obtain sp where sp: "h p = Some sp" "Children sp = map shape_addr ts"
    using repr_shape_addr [OF Shape.prems(1)] by auto
  have "deleteSpan_loop n h (map shape_addr ts) m' = Some (del_ids (sid h ` set (forest_addrs ts)) m')" for m'
    using Shape fuel by (intro deleteSpan_loop_del Shape.IH) auto
  moreover have "SpanID sp = sid h p"
    using sp by (simp add: sid_def)
  ultimately show ?case
    using sp fuel by (simp add: del_ids_one del_ids_Un)
qed

section \<open>Pruning open spans\<close>

text \<open>
  What \<open>keepClosedSpan\<close> keeps of a tree: a closed span with the kept part of each child,
  nothing of an open one. The heap it leaves differs from the one it got in the \<open>Children\<close>
  of the spans of the tree only.
\<close>

fun keep_shape :: "span_heap \<Rightarrow> shape \<Rightarrow> shape list" where
  "keep_shape h (Shape p ts) =
     (if is_open h p then [] else [Shape p (concat (map (keep_shape h) ts))])"

abbreviation keep_forest :: "span_heap \<Rightarrow> shape list \<Rightarrow> shape list" where
  "keep_forest h ts \<equiv> concat (map (keep_shape h) ts)"

definition same_data :: "span_heap \<Rightarrow> span_heap \<Rightarrow> bool" where
  "same_data h h' \<longleftrightarrow> (\<forall>p. map_option (\<lambda>sp. sp\<lparr>Children := []\<rparr>) (h' p) = map_option (\<lambda>sp. sp\<lparr>Children := []\<rparr>) (h p))"

lemma same_data_refl [simp]: "same_data h h"
  by (simp add: same_data_def)

lemma same_data_trans: "same_data h h' \<Longrightarrow> same_data h' h'' \<Longrightarrow> same_data h h''"
  by (simp add: same_data_def)

lemma same_data_the:
  assumes "same_data h h'"
  shows "(the (h' p))\<lparr>Children := []\<rparr> = (the (h p))\<lparr>Children := []\<rparr>"
proof -
  have eq: "map_option (\<lambda>sp. sp\<lparr>Children := []\<rparr>) (h' p) = map_option (\<lambda>sp. sp\<lparr>Children := []\<rparr>) (h p)"
    using assms by (simp add: same_data_def)
  then show ?thesis by (cases "h p"; cases "h' p") auto
qed

lemma same_data_reads:
  assumes "same_data h h'"
  shows "sid h' p = sid h p" and "is_open h' p = is_open h p"
proof -
  have "SpanID ((the (h' p))\<lparr>Children := []\<rparr>) = SpanID ((the (h p))\<lparr>Children := []\<rparr>)"
    and "Ended ((the (h' p))\<lparr>Children := []\<rparr>) = Ended ((the (h p))\<lparr>Children := []\<rparr>)"
    by (simp_all only: same_data_the [OF assms])
  then show "sid h' p = sid h p" and "is_open h' p = is_open h p"
    by (simp_all add: sid_def is_open_def)
qed

lemma same_data_dom: "same_data h h' \<Longrightarrow> dom h' = dom h"
  by (auto simp: same_data_def dom_def) (metis map_option_is_None not_Some_eq)+

lemma same_data_assign_Children: "same_data h (assign h p (\<lambda>sp. sp\<lparr>Children := c\<rparr>))"
  by (auto simp: same_data_def assign_def option.map_comp comp_def)

lemma keep_shape_same_data: "same_data h h' \<Longrightarrow> keep_shape h' t = keep_shape h t"
proof (induction t)
  case (Shape p ts)
  then have "keep_forest h' ts = keep_forest h ts"
    by (simp cong: map_cong)
  with Shape.prems show ?case by (simp add: same_data_reads)
qed

lemma keep_shape_cases: "keep_shape h t = [] \<or> (\<exists>t'. keep_shape h t = [t'] \<and> shape_addr t' = shape_addr t)"
  by (cases t) auto

lemma keep_shape_addrs:
  "map shape_addr (keep_shape h t) = (if keep_shape h t \<noteq> [] then [shape_addr t] else [])"
  using keep_shape_cases [of h t] by auto

lemma keep_shape_subset: "set (forest_addrs (keep_shape h t)) \<subseteq> set (addrs t)"
proof (induction t)
  case (Shape p ts)
  then have "set (forest_addrs (keep_forest h ts)) \<subseteq> set (forest_addrs ts)"
    by auto
  then show ?case by auto
qed

definition dropped :: "span_heap \<Rightarrow> shape \<Rightarrow> addr set" where
  "dropped h t = set (addrs t) - set (forest_addrs (keep_shape h t))"

definition dropped_forest :: "span_heap \<Rightarrow> shape list \<Rightarrow> addr set" where
  "dropped_forest h ts = (\<Union>t \<in> set ts. dropped h t)"

lemma dropped_same_data: "same_data h h' \<Longrightarrow> dropped h' t = dropped h t"
  by (simp add: dropped_def keep_shape_same_data)

lemma keep_forest_subset: "set (forest_addrs (keep_forest h ts)) \<subseteq> set (forest_addrs ts)"
  using keep_shape_subset [of h] by fastforce

lemma dropped_forest_eq:
  "distinct (forest_addrs ts) \<Longrightarrow>
   dropped_forest h ts = set (forest_addrs ts) - set (forest_addrs (keep_forest h ts))"
proof (induction ts)
  case Nil
  then show ?case by (simp add: dropped_forest_def)
next
  case (Cons t ts)
  then have IH: "dropped_forest h ts = set (forest_addrs ts) - set (forest_addrs (keep_forest h ts))"
    and disj: "set (addrs t) \<inter> set (forest_addrs ts) = {}"
    by auto
  have "dropped_forest h (t # ts) = dropped h t \<union> dropped_forest h ts"
    by (simp add: dropped_forest_def)
  also have "\<dots> = (set (addrs t) \<union> set (forest_addrs ts))
      - (set (forest_addrs (keep_shape h t)) \<union> set (forest_addrs (keep_forest h ts)))"
    unfolding IH dropped_def using disj keep_shape_subset [of h t] keep_forest_subset [of h ts] by blast
  finally show ?case by (simp add: map_concat comp_def)
qed

text \<open>What one step of the pruning promises for a tree.\<close>

definition keep_ok :: "nat \<Rightarrow> shape \<Rightarrow> bool" where
  "keep_ok fuel t \<longleftrightarrow> (\<forall>h m. repr h t \<longrightarrow>
     (\<exists>h'. keepClosedSpan fuel (shape_addr t) (h, m)
           = Some (keep_shape h t \<noteq> [], h', del_ids (sid h ` dropped h t) m)
         \<and> same_data h h' \<and> (\<forall>p. p \<notin> set (addrs t) \<longrightarrow> h' p = h p)
         \<and> (\<forall>t' \<in> set (keep_shape h t). repr h' t')))"

lemma keepClosedSpan_loop_keep:
  assumes "\<And>t. t \<in> set ts \<Longrightarrow> keep_ok fuel t" and "\<And>t. t \<in> set ts \<Longrightarrow> repr h t"
    and "distinct (forest_addrs ts)"
  shows "\<exists>h'. keepClosedSpan_loop fuel (map shape_addr ts) kept (h, m)
           = Some (kept @ map shape_addr (keep_forest h ts), h', del_ids (sid h ` dropped_forest h ts) m)
         \<and> same_data h h' \<and> (\<forall>p. p \<notin> set (forest_addrs ts) \<longrightarrow> h' p = h p)
         \<and> (\<forall>t \<in> set (keep_forest h ts). repr h' t)"
  using assms
proof (induction ts arbitrary: h m kept)
  case Nil
  then show ?case by (simp add: dropped_forest_def)
next
  case (Cons t ts)
  obtain h1 where h1: "keepClosedSpan fuel (shape_addr t) (h, m)
           = Some (keep_shape h t \<noteq> [], h1, del_ids (sid h ` dropped h t) m)"
      "same_data h h1" "\<And>p. p \<notin> set (addrs t) \<Longrightarrow> h1 p = h p"
      "\<And>t'. t' \<in> set (keep_shape h t) \<Longrightarrow> repr h1 t'"
    using Cons.prems(1,2) [of t] unfolding keep_ok_def by (metis list.set_intros(1))
  have disj: "set (addrs t) \<inter> set (forest_addrs ts) = {}"
    using Cons.prems(3) by auto
  have repr1: "repr h1 u" if "u \<in> set ts" for u
  proof (rule repr_cong [THEN iffD2])
    show "repr h u" using Cons.prems(2) that by simp
    show "h1 p = h p" if "p \<in> set (addrs u)" for p
      using that \<open>u \<in> set ts\<close> disj by (intro h1(3)) auto
  qed
  let ?kept = "if keep_shape h t \<noteq> [] then kept @ [shape_addr t] else kept"
  have "\<exists>h2. keepClosedSpan_loop fuel (map shape_addr ts) ?kept (h1, del_ids (sid h ` dropped h t) m)
           = Some (?kept @ map shape_addr (keep_forest h1 ts), h2,
                   del_ids (sid h1 ` dropped_forest h1 ts) (del_ids (sid h ` dropped h t) m))
         \<and> same_data h1 h2 \<and> (\<forall>p. p \<notin> set (forest_addrs ts) \<longrightarrow> h2 p = h1 p)
         \<and> (\<forall>t \<in> set (keep_forest h1 ts). repr h2 t)"
    using Cons.prems repr1 by (intro Cons.IH) auto
  then obtain h2 where h2: "keepClosedSpan_loop fuel (map shape_addr ts) ?kept (h1, del_ids (sid h ` dropped h t) m)
           = Some (?kept @ map shape_addr (keep_forest h1 ts), h2,
                   del_ids (sid h1 ` dropped_forest h1 ts) (del_ids (sid h ` dropped h t) m))"
      "same_data h1 h2" "\<And>p. p \<notin> set (forest_addrs ts) \<Longrightarrow> h2 p = h1 p"
      "\<And>u. u \<in> set (keep_forest h1 ts) \<Longrightarrow> repr h2 u"
    by blast
  have same: "keep_shape h1 = keep_shape h" "dropped_forest h1 ts = dropped_forest h ts" "sid h1 = sid h"
    using h1(2) by (auto simp: keep_shape_same_data dropped_forest_def dropped_same_data same_data_reads)
  have keep_t: "repr h2 t'" if "t' \<in> set (keep_shape h t)" for t'
  proof (rule repr_cong [THEN iffD2])
    show "repr h1 t'" using that by (rule h1(4))
    show "h2 p = h1 p" if "p \<in> set (addrs t')" for p
      using that disj keep_shape_subset [of h t] \<open>t' \<in> set (keep_shape h t)\<close>
      by (intro h2(3)) auto
  qed
  have maps: "del_ids (sid h ` dropped_forest h ts) (del_ids (sid h ` dropped h t) m)
      = del_ids (sid h ` dropped_forest h (t # ts)) m"
    by (simp add: del_ids_Un dropped_forest_def image_Un)
  have "?kept @ map shape_addr (keep_forest h ts) = kept @ map shape_addr (keep_forest h (t # ts))"
    by (simp add: keep_shape_addrs)
  then have "keepClosedSpan_loop fuel (map shape_addr (t # ts)) kept (h, m)
      = Some (kept @ map shape_addr (keep_forest h (t # ts)), h2, del_ids (sid h ` dropped_forest h (t # ts)) m)"
    using h1(1) h2(1) by (simp add: same maps)
  moreover have "same_data h h2"
    using h1(2) h2(2) by (rule same_data_trans)
  moreover have "\<forall>p. p \<notin> set (forest_addrs (t # ts)) \<longrightarrow> h2 p = h p"
    using h1(3) h2(3) by simp
  moreover have "\<forall>u \<in> set (keep_forest h (t # ts)). repr h2 u"
    using keep_t h2(4) by (auto simp: same)
  ultimately show ?case by blast
qed

lemma keepClosedSpan_keep:
  assumes "fits fuel t" and "distinct (addrs t)"
  shows "keep_ok fuel t"
  using assms
proof (induction t arbitrary: fuel)
  case (Shape p ts)
  then obtain n where fuel: "fuel = Suc n" by (cases fuel) auto
  show ?case unfolding keep_ok_def
  proof (intro allI impI)
    fix h m assume repr: "repr h (Shape p ts)"
    then obtain sp where sp: "h p = Some sp" "Children sp = map shape_addr ts"
      using repr_shape_addr by fastforce
    show "\<exists>h'. keepClosedSpan fuel (shape_addr (Shape p ts)) (h, m)
           = Some (keep_shape h (Shape p ts) \<noteq> [], h', del_ids (sid h ` dropped h (Shape p ts)) m)
         \<and> same_data h h' \<and> (\<forall>q. q \<notin> set (addrs (Shape p ts)) \<longrightarrow> h' q = h q)
         \<and> (\<forall>t' \<in> set (keep_shape h (Shape p ts)). repr h' t')"
    proof (cases "Ended sp")
      case False
      then have "deleteSpan (Suc n) h p m = Some (del_ids (sid h ` set (addrs (Shape p ts))) m)"
        using deleteSpan_del [OF repr, of "Suc n" m] Shape.prems(1) fuel by simp
      with False sp fuel show ?thesis
        by (simp add: is_open_def dropped_def)
    next
      case True
      obtain h' where h': "keepClosedSpan_loop n (map shape_addr ts) [] (h, m)
             = Some ([] @ map shape_addr (keep_forest h ts), h', del_ids (sid h ` dropped_forest h ts) m)"
          "same_data h h'" "\<And>q. q \<notin> set (forest_addrs ts) \<Longrightarrow> h' q = h q"
          "\<And>t'. t' \<in> set (keep_forest h ts) \<Longrightarrow> repr h' t'"
      proof -
        have "keep_ok n t" if "t \<in> set ts" for t
          using Shape.prems fuel that by (intro Shape.IH) (auto simp: distinct_concat_iff)
        moreover have "repr h t" if "t \<in> set ts" for t
          using repr that by simp
        moreover have "distinct (forest_addrs ts)"
          using Shape.prems(2) by simp
        ultimately show ?thesis
          using keepClosedSpan_loop_keep [of ts n h "[]" m] that by blast
      qed
      let ?h = "assign h' p (\<lambda>sp. sp\<lparr>Children := map shape_addr (keep_forest h ts)\<rparr>)"
      have p_new: "p \<notin> set (forest_addrs ts)"
        using Shape.prems(2) by auto
      have "repr ?h t'" if "t' \<in> set (keep_forest h ts)" for t'
      proof (rule repr_cong [THEN iffD2])
        show "repr h' t'" using that by (rule h'(4))
        show "?h q = h' q" if "q \<in> set (addrs t')" for q
          using that \<open>t' \<in> set (keep_forest h ts)\<close> keep_shape_subset [of h] p_new
          by (auto simp: assign_def)
      qed
      then have repr': "repr ?h (Shape p (keep_forest h ts))"
        using h'(3) [OF p_new] sp by (simp add: assign_def)
      have "same_data h ?h"
        using h'(2) same_data_assign_Children by (rule same_data_trans)
      moreover have "dropped h (Shape p ts) = dropped_forest h ts"
        using dropped_forest_eq [of ts h] p_new Shape.prems(2) keep_forest_subset [of h ts] True sp
        by (auto simp: dropped_def is_open_def)
      ultimately show ?thesis
        using True sp fuel h' repr' p_new
        by (intro exI [of _ ?h]) (auto simp: is_open_def assign_def)
    qed
  qed
qed

end
