(* ===== verification/Store_Spec.thy ===== *)
theory Store_Spec
  imports Store
begin

text \<open>
  What the span store promises, without addresses: a forest of spans in arrival order, the
  stale marks by span ID, and the option that admits orphans. Every operation is a function
  on that forest that looks spans up by their ID. A span's data is its \<open>span_state\<close> with an
  empty \<open>Children\<close> field, its children are the subtrees.
\<close>

section \<open>Forests\<close>

datatype span_tree = SpanTree (tree_data: span_state) (tree_kids: "span_tree list")

fun tree_spans :: "span_tree \<Rightarrow> span_state list" where
  "tree_spans (SpanTree d ts) = d # concat (map tree_spans ts)"

fun tree_walk :: "nat \<Rightarrow> span_tree \<Rightarrow> (span_state \<times> nat) list" where
  "tree_walk k (SpanTree d ts) = (d, k) # concat (map (tree_walk (k + 1)) ts)"

abbreviation forest_spans :: "span_tree list \<Rightarrow> span_state list" where
  "forest_spans f \<equiv> concat (map tree_spans f)"

definition forest_ids :: "span_tree list \<Rightarrow> string list" where
  "forest_ids f = map SpanID (forest_spans f)"

fun modify_tree :: "string \<Rightarrow> (span_state \<Rightarrow> span_state) \<Rightarrow> span_tree \<Rightarrow> span_tree" where
  "modify_tree i f (SpanTree d ts) =
     SpanTree (if SpanID d = i then f d else d) (map (modify_tree i f) ts)"

fun add_child :: "string \<Rightarrow> span_tree \<Rightarrow> span_tree \<Rightarrow> span_tree" where
  "add_child i new (SpanTree d ts) =
     SpanTree d (map (add_child i new) ts @ (if SpanID d = i then [new] else []))"

fun prune_tree :: "span_tree \<Rightarrow> span_tree list" where
  "prune_tree (SpanTree d ts) =
     (if Ended d then [SpanTree d (concat (map prune_tree ts))] else [])"

record spec_store =
  forest :: "span_tree list"
  stale :: "string \<rightharpoonup> go_time"
  allow :: bool

definition spec_new :: "bool \<Rightarrow> spec_store" where
  "spec_new a = \<lparr>forest = [], stale = Map.empty, allow = a\<rparr>"

section \<open>Operations\<close>

definition started_span :: "pb_runtime \<Rightarrow> span_started option \<Rightarrow> span_state" where
  "started_span rt started =
    \<lparr>TraceID = SpanStarted_GetTraceId started, SpanID = SpanStarted_GetSpanId started,
     ParentSpanID = SpanStarted_GetParentSpanId started, Name = SpanStarted_GetName started,
     StartedAt = AsTime rt (SpanStarted_GetStartedAt started), EndedAt = zero_time,
     Attributes = state_cloneAttributes rt (SpanStarted_GetAttributes started),
     Events = [], Children = [], Ended = False,
     TerminalType = TERMINAL_TYPE_UNSPECIFIED, ErrorMessage = []\<rparr>"

text \<open>
  A new span goes under its parent when the forest holds it, and else becomes a root if it
  names no parent or orphans are admitted. IDs already in the forest and empty ones are ignored.
\<close>

definition spec_started :: "pb_runtime \<Rightarrow> spec_store \<Rightarrow> span_started option \<Rightarrow> spec_store" where
  "spec_started rt a started =
    (let i = SpanStarted_GetSpanId started; q = SpanStarted_GetParentSpanId started;
         new = SpanTree (started_span rt started) []
     in if i = [] \<or> i \<in> set (forest_ids (forest a)) then a
        else if q \<in> set (forest_ids (forest a)) then a\<lparr>forest := map (add_child q new) (forest a)\<rparr>
        else if q = [] \<or> allow a then a\<lparr>forest := forest a @ [new]\<rparr>
        else a)"

text \<open>A change to the span with a given ID, unless it has ended.\<close>

definition unless_ended :: "(span_state \<Rightarrow> span_state) \<Rightarrow> span_state \<Rightarrow> span_state" where
  "unless_ended f d = (if Ended d then d else f d)"

definition modify_open :: "string \<Rightarrow> (span_state \<Rightarrow> span_state) \<Rightarrow> spec_store \<Rightarrow> spec_store" where
  "modify_open i f a = a\<lparr>forest := map (modify_tree i (unless_ended f)) (forest a)\<rparr>"

definition updated_span :: "pb_runtime \<Rightarrow> span_updated option \<Rightarrow> span_state \<Rightarrow> span_state" where
  "updated_span rt updated d =
     d\<lparr>Attributes := update_attrs rt (SpanUpdated_GetAttributes updated) (Attributes d)\<rparr>"

definition ended_span :: "pb_runtime \<Rightarrow> span_ended option \<Rightarrow> span_state \<Rightarrow> span_state" where
  "ended_span rt ended d =
     d\<lparr>Ended := True, EndedAt := AsTime rt (SpanEnded_GetEndedAt ended),
       TerminalType := SpanEnded_GetTerminalType rt ended,
       ErrorMessage := SpanEnded_GetErrorMessage ended\<rparr>"

definition event_entry :: "pb_runtime \<Rightarrow> span_event option \<Rightarrow> event_state" where
  "event_entry rt event =
     \<lparr>ev_Name = SpanEvent_GetName event, ev_At = AsTime rt (SpanEvent_GetEventAt event),
      ev_Attributes = state_cloneAttributes rt (SpanEvent_GetAttributes event),
      ev_Severity = SpanEvent_GetSeverity rt event\<rparr>"

definition event_span :: "pb_runtime \<Rightarrow> span_event option \<Rightarrow> span_state \<Rightarrow> span_state" where
  "event_span rt event d = d\<lparr>Events := Events d @ [Some (event_entry rt event)]\<rparr>"

definition spec_apply :: "pb_runtime \<Rightarrow> spec_store \<Rightarrow> sap_record option \<Rightarrow> spec_store" where
  "spec_apply rt a record =
    (let started = Record_GetSpanStarted record; updated = Record_GetSpanUpdated record;
         ended = Record_GetSpanEnded record; event = Record_GetSpanEvent record
     in if started \<noteq> None then spec_started rt a started
        else if updated \<noteq> None then modify_open (SpanUpdated_GetSpanId updated) (updated_span rt updated) a
        else if ended \<noteq> None then modify_open (SpanEnded_GetSpanId ended) (ended_span rt ended) a
        else if event \<noteq> None then modify_open (SpanEvent_GetSpanId event) (event_span rt event) a
        else a)"

definition spec_find :: "spec_store \<Rightarrow> string \<Rightarrow> (span_state \<times> nat) option" where
  "spec_find a i = (if i = [] then None else find (\<lambda>(d, _). SpanID d = i) (concat (map (tree_walk 0) (forest a))))"

definition spec_open :: "spec_store \<Rightarrow> bool" where
  "spec_open a \<longleftrightarrow> (\<exists>d \<in> set (forest_spans (forest a)). \<not> Ended d)"

definition spec_mark :: "spec_store \<Rightarrow> go_time \<Rightarrow> spec_store" where
  "spec_mark a at = a\<lparr>stale := (\<lambda>i.
     if stale a i = None \<and> (\<exists>d \<in> set (forest_spans (forest a)). \<not> Ended d \<and> SpanID d = i)
     then Some at else stale a i)\<rparr>"

text \<open>Marks are kept for exactly the spans that stay.\<close>

definition with_forest :: "spec_store \<Rightarrow> span_tree list \<Rightarrow> spec_store" where
  "with_forest a f = a\<lparr>forest := f, stale := stale a |` set (forest_ids f)\<rparr>"

definition spec_clear_open :: "spec_store \<Rightarrow> spec_store" where
  "spec_clear_open a = with_forest a (concat (map prune_tree (forest a)))"

definition spec_limit :: "spec_store \<Rightarrow> int \<Rightarrow> spec_store" where
  "spec_limit a limit = with_forest a (drop (length (forest a) - nat limit) (forest a))"

definition spec_clear :: "spec_store \<Rightarrow> spec_store" where
  "spec_clear a = with_forest a []"

section \<open>What a client sees\<close>

text \<open>
  The abstraction: read the trees from \<open>roots\<close> along \<open>Children\<close>, as a client of \<open>Roots()\<close>
  does; \<open>None\<close> if that does not end or meets a nil pointer.
\<close>

fun view :: "nat \<Rightarrow> span_heap \<Rightarrow> addr \<Rightarrow> span_tree option"
  and view_loop :: "nat \<Rightarrow> span_heap \<Rightarrow> addr list \<Rightarrow> span_tree list option" where
  "view 0 h p = None"
| "view (Suc fuel) h p =
     (case h p of
        None \<Rightarrow> None
      | Some span \<Rightarrow> map_option (SpanTree (span\<lparr>Children := []\<rparr>)) (view_loop fuel h (Children span)))"
| "view_loop fuel h [] = Some []"
| "view_loop fuel h (c # cs) =
     (case view fuel h c of
        None \<Rightarrow> None
      | Some t \<Rightarrow> map_option ((#) t) (view_loop fuel h cs))"

definition abs_store :: "store \<Rightarrow> spec_store option" where
  "abs_store s = map_option (\<lambda>f. \<lparr>forest = f, stale = staleOpenAt s, allow = allowUnknownParents s\<rparr>)
     (view_loop (walk_fuel s) (heap s) (roots s))"

section \<open>Facts on forests\<close>

lemma map_fst_tree_walk [simp]: "map fst (tree_walk k t) = tree_spans t"
proof (induction t arbitrary: k)
  case (SpanTree d ts)
  then show ?case by (simp add: map_concat comp_def cong: map_cong)
qed

lemma modify_tree_id:
  assumes "\<And>d. d \<in> set (tree_spans t) \<Longrightarrow> SpanID d = i \<Longrightarrow> f d = d"
  shows "modify_tree i f t = t"
  using assms
proof (induction t)
  case (SpanTree d ts)
  have "map (modify_tree i f) ts = ts"
    using SpanTree by (intro map_idI SpanTree.IH) auto
  with SpanTree.prems show ?case by simp
qed

lemma tree_spans_modify [simp]:
  "tree_spans (modify_tree i f t) = map (\<lambda>d. if SpanID d = i then f d else d) (tree_spans t)"
proof (induction t)
  case (SpanTree d ts)
  then show ?case by (simp add: map_concat comp_def cong: map_cong)
qed

lemma prune_tree_closed: "u \<in> set (prune_tree t) \<Longrightarrow> d \<in> set (tree_spans u) \<Longrightarrow> Ended d"
proof (induction t arbitrary: u d)
  case (SpanTree e ts)
  then show ?case by (auto split: if_splits)
qed

lemma prune_tree_subset: "u \<in> set (prune_tree t) \<Longrightarrow> set (tree_spans u) \<subseteq> set (tree_spans t)"
proof (induction t arbitrary: u)
  case (SpanTree e ts)
  then show ?case by (fastforce split: if_splits)
qed

lemma prune_tree_all_closed: "(\<And>d. d \<in> set (tree_spans t) \<Longrightarrow> Ended d) \<Longrightarrow> prune_tree t = [t]"
proof (induction t)
  case (SpanTree e ts)
  have "concat (map prune_tree ts) = ts"
    using SpanTree by (induction ts) auto
  with SpanTree.prems show ?case by simp
qed

end
