(* ===== verification/Store_Inv.thy ===== *)
theory Store_Inv
  imports Store_Shape Store_Spec
begin

text \<open>
  The invariant of the span store and the refinement of its forest specification. A store is
  well-formed when the objects reachable from \<open>roots\<close> form a forest without sharing, \<open>byID\<close>
  maps exactly their span IDs to their addresses, the empty ID is not among them, and stale
  marks are held for tracked spans only. Every operation keeps that, never goes wrong on such
  a store, and changes the forest a client sees as \<open>Store_Spec\<close> says.
\<close>

section \<open>The invariant\<close>

definition store_shape :: "store \<Rightarrow> shape list \<Rightarrow> bool" where
  "store_shape s ts \<longleftrightarrow>
     roots s = map shape_addr ts \<and>
     (\<forall>t \<in> set ts. repr (heap s) t) \<and>
     distinct (forest_addrs ts) \<and>
     (\<forall>i p. byID s i = Some p \<longleftrightarrow> p \<in> set (forest_addrs ts) \<and> sid (heap s) p = i) \<and>
     byID s [] = None \<and>
     dom (staleOpenAt s) \<subseteq> dom (byID s) \<and>
     (\<forall>p. heap s p \<noteq> None \<longrightarrow> 0 < p \<and> p < next_addr s) \<and> 0 < next_addr s"

definition store_wf :: "store \<Rightarrow> bool" where
  "store_wf s \<longleftrightarrow> (\<exists>ts. store_shape s ts)"

lemma store_shapeD:
  assumes "store_shape s ts"
  shows "roots s = map shape_addr ts"
    and "\<And>t. t \<in> set ts \<Longrightarrow> repr (heap s) t"
    and "distinct (forest_addrs ts)"
    and "byID s i = Some p \<longleftrightarrow> p \<in> set (forest_addrs ts) \<and> sid (heap s) p = i"
    and "byID s [] = None"
    and "dom (staleOpenAt s) \<subseteq> dom (byID s)"
    and "heap s p \<noteq> None \<Longrightarrow> 0 < p \<and> p < next_addr s"
    and "0 < next_addr s"
  using assms by (auto simp: store_shape_def)

lemma store_shapeI:
  assumes "roots s = map shape_addr ts"
    and "\<And>t. t \<in> set ts \<Longrightarrow> repr (heap s) t"
    and "distinct (forest_addrs ts)"
    and "\<And>i p. byID s i = Some p \<longleftrightarrow> p \<in> set (forest_addrs ts) \<and> sid (heap s) p = i"
    and "byID s [] = None"
    and "dom (staleOpenAt s) \<subseteq> dom (byID s)"
    and "\<And>p. heap s p \<noteq> None \<Longrightarrow> 0 < p \<and> p < next_addr s"
    and "0 < next_addr s"
  shows "store_shape s ts"
  using assms by (auto simp: store_shape_def)

lemma shape_alloc:
  assumes "store_shape s ts" and "p \<in> set (forest_addrs ts)"
  shows "heap s p \<noteq> None" and "0 < p" and "p < next_addr s"
proof -
  show "heap s p \<noteq> None"
    using assms repr_alloc store_shapeD(2) [OF assms(1)] by fastforce
  then show "0 < p" and "p < next_addr s"
    using store_shapeD(7) [OF assms(1)] by auto
qed

text \<open>A path in the forest is no longer than the heap: the fuel of every walk suffices.\<close>

lemma shape_fits:
  assumes "store_shape s ts" and "t \<in> set ts"
  shows "fits (walk_fuel s) t"
proof (rule length_addrs_fits)
  have "distinct (addrs t)" and "set (addrs t) \<subseteq> {..<next_addr s}"
    using assms shape_alloc(3) [OF assms(1)] store_shapeD(3) [OF assms(1)]
    by (auto simp: distinct_concat_iff)
  then have "length (addrs t) \<le> next_addr s"
    by (metis card_lessThan card_mono distinct_card finite_lessThan)
  then show "length (addrs t) \<le> walk_fuel s"
    by (simp add: walk_fuel_def)
qed

lemma shape_byID_None:
  assumes "store_shape s ts"
  shows "byID s i = None \<longleftrightarrow> i \<notin> sid (heap s) ` set (forest_addrs ts)"
  using store_shapeD(4) [OF assms, of i] by (metis image_iff not_None_eq)

lemma shape_dom_byID:
  assumes "store_shape s ts"
  shows "dom (byID s) = sid (heap s) ` set (forest_addrs ts)"
  by (rule set_eqI) (simp add: domIff shape_byID_None [OF assms])

lemma shape_unique:
  assumes "store_shape s ts" and "p \<in> set (forest_addrs ts)" and "q \<in> set (forest_addrs ts)"
    and "sid (heap s) p = sid (heap s) q"
  shows "p = q"
  using store_shapeD(4) [OF assms(1), of "sid (heap s) q"] assms by (metis option.inject)

section \<open>The abstraction\<close>

definition span_data :: "span_heap \<Rightarrow> addr \<Rightarrow> span_state" where
  "span_data h p = (the (h p))\<lparr>Children := []\<rparr>"

fun abs_shape :: "span_heap \<Rightarrow> shape \<Rightarrow> span_tree" where
  "abs_shape h (Shape p ts) = SpanTree (span_data h p) (map (abs_shape h) ts)"

definition refines :: "store \<Rightarrow> spec_store \<Rightarrow> bool" where
  "refines s a \<longleftrightarrow> (\<exists>ts. store_shape s ts \<and> forest a = map (abs_shape (heap s)) ts
     \<and> stale a = staleOpenAt s \<and> allow a = allowUnknownParents s)"

lemma refinesI:
  "store_shape s ts \<Longrightarrow> forest a = map (abs_shape (heap s)) ts \<Longrightarrow> stale a = staleOpenAt s
   \<Longrightarrow> allow a = allowUnknownParents s \<Longrightarrow> refines s a"
  by (auto simp: refines_def)

lemma span_data_reads [simp]:
  "SpanID (span_data h p) = sid h p"
  "Ended (span_data h p) \<longleftrightarrow> \<not> is_open h p"
  by (simp_all add: span_data_def sid_def is_open_def)

lemma tree_spans_abs [simp]: "tree_spans (abs_shape h t) = map (span_data h) (addrs t)"
proof (induction t)
  case (Shape p ts)
  then show ?case by (simp add: map_concat comp_def cong: map_cong)
qed

lemma forest_spans_abs [simp]:
  "forest_spans (map (abs_shape h) ts) = map (span_data h) (forest_addrs ts)"
  "concat (map (tree_spans \<circ> abs_shape h) ts) = map (span_data h) (forest_addrs ts)"
  by (simp_all add: map_concat comp_def)

lemma forest_ids_abs [simp]: "forest_ids (map (abs_shape h) ts) = map (sid h) (forest_addrs ts)"
  by (simp add: forest_ids_def)

lemma tree_walk_abs: "tree_walk k (abs_shape h t) = map (\<lambda>(p, d). (span_data h p, d)) (walk k t)"
proof (induction t arbitrary: k)
  case (Shape p ts)
  then show ?case by (simp add: map_concat comp_def cong: map_cong)
qed

lemma abs_shape_cong:
  assumes "\<And>p. p \<in> set (addrs t) \<Longrightarrow> span_data h' p = span_data h p"
  shows "abs_shape h' t = abs_shape h t"
  using assms
proof (induction t)
  case (Shape p ts)
  have "map (abs_shape h') ts = map (abs_shape h) ts"
    using Shape.prems by (intro map_cong refl Shape.IH) auto
  with Shape.prems show ?case by simp
qed

lemma view_loop_abs:
  assumes "\<And>t. t \<in> set ts \<Longrightarrow> view fuel h (shape_addr t) = Some (abs_shape h t)"
  shows "view_loop fuel h (map shape_addr ts) = Some (map (abs_shape h) ts)"
  using assms by (induction ts) auto

lemma view_abs:
  assumes "repr h t" and "fits fuel t"
  shows "view fuel h (shape_addr t) = Some (abs_shape h t)"
  using assms
proof (induction t arbitrary: fuel)
  case (Shape p ts)
  then obtain n where fuel: "fuel = Suc n" by (cases fuel) auto
  obtain sp where sp: "h p = Some sp" "Children sp = map shape_addr ts"
    using repr_shape_addr [OF Shape.prems(1)] by auto
  have "view_loop n h (map shape_addr ts) = Some (map (abs_shape h) ts)"
    using Shape fuel by (intro view_loop_abs Shape.IH) auto
  with sp fuel show ?case by (simp add: span_data_def)
qed

text \<open>The relation is a function of the store, the one a client computes.\<close>

lemma refines_abs_store: "refines s a \<Longrightarrow> abs_store s = Some a"
proof -
  assume "refines s a"
  then obtain ts where ts: "store_shape s ts" "forest a = map (abs_shape (heap s)) ts"
    "stale a = staleOpenAt s" "allow a = allowUnknownParents s"
    by (auto simp: refines_def)
  have "view_loop (walk_fuel s) (heap s) (roots s) = Some (map (abs_shape (heap s)) ts)"
    using ts(1) by (simp add: store_shapeD(1,2) shape_fits view_abs view_loop_abs)
  with ts show ?thesis by (simp add: abs_store_def)
qed

lemma store_wf_refines: "store_wf s \<longleftrightarrow> (\<exists>a. refines s a)"
proof
  assume "store_wf s"
  then obtain ts where "store_shape s ts" by (auto simp: store_wf_def)
  then have "refines s \<lparr>forest = map (abs_shape (heap s)) ts, stale = staleOpenAt s,
      allow = allowUnknownParents s\<rparr>"
    by (auto simp: refines_def)
  then show "\<exists>a. refines s a" ..
qed (auto simp: refines_def store_wf_def)

lemma wf_refines_abs: "store_wf s \<Longrightarrow> refines s (the (abs_store s))"
  by (metis option.sel refines_abs_store store_wf_refines)

lemma refines_ids: "refines s a \<Longrightarrow> set (forest_ids (forest a)) = dom (byID s)"
  unfolding refines_def by (metis forest_ids_abs list.set_map shape_dom_byID)

section \<open>New stores\<close>

lemma refines_new: "refines (NewStoreWithOptions opts) (spec_new (AllowUnknownParents opts))"
  unfolding refines_def
  by (rule exI [of _ "[]"]) (simp add: store_shape_def NewStoreWithOptions_def spec_new_def)

section \<open>Field updates through \<open>byID\<close>\<close>

text \<open>
  An assignment that leaves the span ID and the children alone is the change of one node of
  the forest, wherever the pointer came from.
\<close>

definition data_update :: "(span_state \<Rightarrow> span_state) \<Rightarrow> bool" where
  "data_update f \<longleftrightarrow> (\<forall>sp c. f (sp\<lparr>Children := c\<rparr>) = (f sp)\<lparr>Children := c\<rparr> \<and> SpanID (f sp) = SpanID sp)"

lemma data_updateD:
  assumes "data_update f"
  shows "f (sp\<lparr>Children := c\<rparr>) = (f sp)\<lparr>Children := c\<rparr>" and "SpanID (f sp) = SpanID sp"
    and "Children (f sp) = Children sp"
proof -
  show eq: "f (sp\<lparr>Children := c\<rparr>) = (f sp)\<lparr>Children := c\<rparr>" for c
    using assms by (simp add: data_update_def)
  show "SpanID (f sp) = SpanID sp"
    using assms by (simp add: data_update_def)
  show "Children (f sp) = Children sp"
    using arg_cong [OF eq [of "Children sp"], of Children] by simp
qed

lemma assign_reads:
  assumes "data_update f"
  shows "sid (assign h q f) p = sid h p"
    and "repr (assign h q f) t \<longleftrightarrow> repr h t"
    and "h p \<noteq> None \<Longrightarrow> span_data (assign h q f) p = (if p = q then f (span_data h p) else span_data h p)"
proof -
  show "sid (assign h q f) p = sid h p"
    using data_updateD(2) [OF assms] by (cases "h p") (auto simp: sid_def assign_def)
  show "repr (assign h q f) t \<longleftrightarrow> repr h t"
  proof (induction t)
    case (Shape p ts)
    then show ?case
      using data_updateD(3) [OF assms] by (auto simp: assign_def split: option.splits)
  qed
  show "h p \<noteq> None \<Longrightarrow> span_data (assign h q f) p = (if p = q then f (span_data h p) else span_data h p)"
    using data_updateD(1) [OF assms] by (auto simp: span_data_def assign_def)
qed

lemma abs_shape_assign:
  assumes "data_update f" and "repr h t"
    and "\<And>p. p \<in> set (addrs t) \<Longrightarrow> sid h p = i \<longleftrightarrow> p = q"
  shows "abs_shape (assign h q f) t = modify_tree i f (abs_shape h t)"
  using assms(2,3)
proof (induction t)
  case (Shape p ts)
  have "map (abs_shape (assign h q f)) ts = map (\<lambda>t. modify_tree i f (abs_shape h t)) ts"
    using Shape.prems by (intro map_cong refl Shape.IH) auto
  moreover have "h p \<noteq> None"
    using Shape.prems(1) by (auto split: option.splits)
  ultimately show ?case
    using Shape.prems(2) [of p] by (simp add: assign_reads(3) [OF assms(1)])
qed

lemma store_shape_assign:
  assumes "store_shape s ts" and "data_update f"
  shows "store_shape (s\<lparr>heap := assign (heap s) q f\<rparr>) ts"
proof (rule store_shapeI)
  fix p assume "heap (s\<lparr>heap := assign (heap s) q f\<rparr>) p \<noteq> None"
  then have "heap s p \<noteq> None" by (auto simp: assign_def split: if_splits)
  then show "0 < p \<and> p < next_addr (s\<lparr>heap := assign (heap s) q f\<rparr>)"
    using store_shapeD(7) [OF assms(1)] by simp
qed (use assms in \<open>auto simp: store_shapeD(1-3,5,6,8) store_shapeD(4) [OF assms(1)] assign_reads [OF assms(2)] dest: store_shapeD(2,6)\<close>)

text \<open>
  The common part of \<open>applyUpdated\<close>, \<open>applyEnded\<close> and \<open>applyEvent\<close>: look the span up, do
  nothing if it is unknown or has ended, else assign through the pointer.
\<close>

definition apply_open :: "store \<Rightarrow> string \<Rightarrow> (span_state \<Rightarrow> span_state) \<Rightarrow> store option" where
  "apply_open s i f =
    (case byID s i of None \<Rightarrow> Some s
     | Some p \<Rightarrow> (case heap s p of None \<Rightarrow> None
       | Some span \<Rightarrow> if Ended span then Some s else Some (s\<lparr>heap := assign (heap s) p f\<rparr>)))"

lemma data_update_unless_ended: "data_update f \<Longrightarrow> data_update (unless_ended f)"
  by (simp add: data_update_def unless_ended_def)

lemma apply_open_refines:
  assumes "refines s a" and "data_update f"
  shows "\<exists>s'. apply_open s i f = Some s' \<and> refines s' (modify_open i f a)"
proof -
  obtain ts where ts: "store_shape s ts" and abs: "forest a = map (abs_shape (heap s)) ts"
    "stale a = staleOpenAt s" "allow a = allowUnknownParents s"
    using assms(1) by (auto simp: refines_def)
  have same: "refines s (modify_open i f a)"
    if "\<And>p. p \<in> set (forest_addrs ts) \<Longrightarrow> sid (heap s) p = i \<Longrightarrow> \<not> is_open (heap s) p"
  proof -
    have "map (modify_tree i (unless_ended f)) (forest a) = forest a"
      using that by (intro map_idI modify_tree_id) (force simp: abs unless_ended_def)
    with assms(1) show ?thesis by (simp add: modify_open_def)
  qed
  show ?thesis
  proof (cases "byID s i")
    case None
    then show ?thesis
      using same shape_byID_None [OF ts, of i] by (auto simp: apply_open_def)
  next
    case (Some p)
    then have p: "p \<in> set (forest_addrs ts)" "sid (heap s) p = i"
      using store_shapeD(4) [OF ts] by auto
    then obtain sp where sp: "heap s p = Some sp"
      using shape_alloc(1) [OF ts] by blast
    have only_p: "q = p" if "q \<in> set (forest_addrs ts)" "sid (heap s) q = i" for q
      using that p shape_unique [OF ts] by metis
    show ?thesis
    proof (cases "Ended sp")
      case True
      have "\<not> is_open (heap s) q" if "q \<in> set (forest_addrs ts)" "sid (heap s) q = i" for q
        using only_p [OF that] True sp by (simp add: is_open_def)
      then have "refines s (modify_open i f a)"
        by (rule same)
      with Some sp True show ?thesis
        by (simp add: apply_open_def)
    next
      case False
      let ?s = "s\<lparr>heap := assign (heap s) p f\<rparr>"
      have eq: "assign (heap s) p f = assign (heap s) p (unless_ended f)"
        using sp False by (auto simp: assign_def unless_ended_def)
      have "abs_shape (assign (heap s) p f) t = modify_tree i (unless_ended f) (abs_shape (heap s) t)"
        if "t \<in> set ts" for t
        unfolding eq
      proof (rule abs_shape_assign [OF data_update_unless_ended [OF assms(2)]])
        show "repr (heap s) t" using ts that by (rule store_shapeD(2))
        show "sid (heap s) q = i \<longleftrightarrow> q = p" if "q \<in> set (addrs t)" for q
          using that \<open>t \<in> set ts\<close> only_p [of q] p(2) by auto
      qed
      then have "map (abs_shape (heap ?s)) ts = map (modify_tree i (unless_ended f)) (forest a)"
        by (simp add: abs(1))
      then have "refines ?s (modify_open i f a)"
        by (intro refinesI [OF store_shape_assign [OF ts assms(2)]]) (simp_all add: modify_open_def abs)
      with Some sp False show ?thesis by (simp add: apply_open_def)
    qed
  qed
qed

section \<open>Allocation\<close>

fun add_shape :: "addr \<Rightarrow> shape \<Rightarrow> shape \<Rightarrow> shape" where
  "add_shape q new (Shape a us) = Shape a (map (add_shape q new) us @ (if a = q then [new] else []))"

lemma shape_addr_add [simp]: "shape_addr (add_shape q new t) = shape_addr t"
  by (cases t) simp

lemma replicate_mset_add: "replicate_mset (m + n) x = replicate_mset m x + replicate_mset n x"
  by (induction m) simp_all

lemma mset_addrs_add:
  "mset (addrs (add_shape q (Shape p []) t)) = mset (addrs t) + replicate_mset (count (mset (addrs t)) q) p"
proof (induction t)
  case (Shape a us)
  have "mset (forest_addrs (map (add_shape q (Shape p [])) us))
      = mset (forest_addrs us) + replicate_mset (count (mset (forest_addrs us)) q) p"
    using Shape.IH by (induction us) (auto simp: replicate_mset_add)
  then show ?case by (auto simp: replicate_mset_add comp_def)
qed

lemma mset_forest_add:
  assumes "distinct (forest_addrs ts)" and "q \<in> set (forest_addrs ts)"
  shows "mset (forest_addrs (map (add_shape q (Shape p [])) ts)) = mset (p # forest_addrs ts)"
proof -
  have "mset (forest_addrs (map (add_shape q (Shape p [])) ts))
      = mset (forest_addrs ts) + replicate_mset (count (mset (forest_addrs ts)) q) p"
    by (induction ts) (auto simp: mset_addrs_add replicate_mset_add)
  moreover have "count (mset (forest_addrs ts)) q = 1"
    using assms distinct_count_atmost_1 [of "forest_addrs ts"] by simp
  ultimately show ?thesis by simp
qed

text \<open>Linking a fresh object under the object at \<open>q\<close>.\<close>

definition link :: "span_heap \<Rightarrow> addr \<Rightarrow> addr \<Rightarrow> span_heap" where
  "link h q p = assign h q (\<lambda>sp. sp\<lparr>Children := Children sp @ [p]\<rparr>)"

lemma span_data_link [simp]: "span_data (link h q p) a = span_data h a"
  by (cases "h a") (auto simp: span_data_def link_def assign_def)

lemma link_apply: "link h q p a = (if a = q then map_option (\<lambda>sp. sp\<lparr>Children := Children sp @ [p]\<rparr>) (h a) else h a)"
  by (simp add: link_def assign_def)

lemma sid_eq_data: "sid h a = SpanID (span_data h a)"
  by simp

lemma repr_link:
  assumes "repr h t" and "repr h (Shape p [])" and "p \<notin> set (addrs t)" and "p \<noteq> q"
  shows "repr (link h q p) (add_shape q (Shape p []) t)"
  using assms(1,3)
proof (induction t)
  case (Shape a us)
  have "repr (link h q p) (add_shape q (Shape p []) u)" if "u \<in> set us" for u
    using Shape.prems that by (intro Shape.IH) auto
  moreover have "repr (link h q p) (Shape p [])"
    using assms(2,4) by (simp add: link_apply [of h q p p])
  moreover obtain sp where "h a = Some sp" "Children sp = map shape_addr us"
    using Shape.prems(1) by (auto split: option.splits)
  ultimately show ?case
    by (auto simp: link_apply [of h q p a] comp_def)
qed

lemma abs_shape_link:
  assumes "\<And>a. a \<in> set (addrs t) \<Longrightarrow> sid h a = i \<longleftrightarrow> a = q"
  shows "abs_shape (link h q p) (add_shape q (Shape p []) t) = add_child i (SpanTree (span_data h p) []) (abs_shape h t)"
  using assms
proof (induction t)
  case (Shape a us)
  have "map (abs_shape (link h q p) \<circ> add_shape q (Shape p [])) us
      = map (add_child i (SpanTree (span_data h p) []) \<circ> abs_shape h) us"
    using Shape by (intro map_cong refl) (auto simp: comp_def)
  with Shape.prems [of a] show ?case by simp
qed

lemma abs_shape_alloc: "p \<notin> set (addrs t) \<Longrightarrow> abs_shape (h(p \<mapsto> sp)) t = abs_shape h t"
  by (rule abs_shape_cong) (auto simp: span_data_def)

definition alloc_span :: "store \<Rightarrow> span_state \<Rightarrow> store" where
  "alloc_span s sp = s\<lparr>heap := (heap s)(next_addr s \<mapsto> sp), next_addr := Suc (next_addr s),
     byID := (byID s)(SpanID sp \<mapsto> next_addr s)\<rparr>"

lemma alloc_fresh:
  assumes "store_shape s ts"
  shows "next_addr s \<notin> set (forest_addrs ts)" and "heap s (next_addr s) = None"
  using shape_alloc(3) [OF assms, of "next_addr s"] store_shapeD(7) [OF assms, of "next_addr s"] by fastforce+

lemma alloc_sid:
  assumes "store_shape s ts" and "p \<in> set (forest_addrs ts)"
  shows "sid (heap (alloc_span s sp)) p = sid (heap s) p"
  using assms alloc_fresh(1) [OF assms(1)] by (auto simp: alloc_span_def sid_def)

lemma alloc_byID:
  assumes "store_shape s ts" and "byID s (SpanID sp) = None"
  shows "byID (alloc_span s sp) i = Some p \<longleftrightarrow>
    p \<in> insert (next_addr s) (set (forest_addrs ts)) \<and> sid (heap (alloc_span s sp)) p = i"
proof (cases "p = next_addr s")
  case True
  then show ?thesis
    using alloc_fresh(1) [OF assms(1)] store_shapeD(4) [OF assms(1), of i p]
    by (auto simp: alloc_span_def sid_def)
next
  case False
  then have "byID (alloc_span s sp) i = Some p \<longleftrightarrow> i \<noteq> SpanID sp \<and> byID s i = Some p"
    by (auto simp: alloc_span_def)
  also have "\<dots> \<longleftrightarrow> p \<in> set (forest_addrs ts) \<and> sid (heap s) p = i"
    using store_shapeD(4) [OF assms(1), of i p] assms(2) by auto
  also have "\<dots> \<longleftrightarrow> p \<in> set (forest_addrs ts) \<and> sid (heap (alloc_span s sp)) p = i"
    by (metis alloc_sid [OF assms(1)])
  finally show ?thesis using False by simp
qed

lemma alloc_heap:
  assumes "store_shape s ts" and "heap (alloc_span s sp) p \<noteq> None"
  shows "0 < p \<and> p < next_addr (alloc_span s sp)"
  using assms store_shapeD(7) [OF assms(1), of p] store_shapeD(8) [OF assms(1)]
  by (auto simp: alloc_span_def less_Suc_eq split: if_splits)

lemma alloc_repr:
  assumes "store_shape s ts" and "t \<in> set ts"
  shows "repr (heap (alloc_span s sp)) t" and "abs_shape (heap (alloc_span s sp)) t = abs_shape (heap s) t"
proof -
  have new: "next_addr s \<notin> set (addrs t)"
    using alloc_fresh(1) [OF assms(1)] assms(2) by auto
  have "repr (heap s) t" using assms by (rule store_shapeD(2))
  then show "repr (heap (alloc_span s sp)) t"
    using new by (subst repr_cong) (auto simp: alloc_span_def)
  show "abs_shape (heap (alloc_span s sp)) t = abs_shape (heap s) t"
    using abs_shape_alloc [OF new] by (simp add: alloc_span_def)
qed

lemma alloc_repr_new:
  assumes "Children sp = []"
  shows "repr (heap (alloc_span s sp)) (Shape (next_addr s) [])"
    and "span_data (heap (alloc_span s sp)) (next_addr s) = sp"
  using assms by (simp_all add: alloc_span_def span_data_def)

lemma alloc_root_shape:
  assumes "store_shape s ts" and "byID s (SpanID sp) = None" and "SpanID sp \<noteq> []" and "Children sp = []"
  shows "store_shape ((alloc_span s sp)\<lparr>roots := roots s @ [next_addr s]\<rparr>) (ts @ [Shape (next_addr s) []])"
proof (rule store_shapeI)
  let ?s = "(alloc_span s sp)\<lparr>roots := roots s @ [next_addr s]\<rparr>"
  let ?ts = "ts @ [Shape (next_addr s) []]"
  show "roots ?s = map shape_addr ?ts"
    using store_shapeD(1) [OF assms(1)] by simp
  show "repr (heap ?s) t" if "t \<in> set ?ts" for t
    using that alloc_repr(1) [OF assms(1)] alloc_repr_new(1) [OF assms(4)] by (auto simp del: repr.simps)
  show "distinct (forest_addrs ?ts)"
    using store_shapeD(3) [OF assms(1)] alloc_fresh(1) [OF assms(1)] by simp
  show "byID ?s i = Some p \<longleftrightarrow> p \<in> set (forest_addrs ?ts) \<and> sid (heap ?s) p = i" for i p
    using alloc_byID [OF assms(1,2), of i p] by simp
  show "byID ?s [] = None"
    using store_shapeD(5) [OF assms(1)] assms(3) by (simp add: alloc_span_def)
  show "dom (staleOpenAt ?s) \<subseteq> dom (byID ?s)"
    using store_shapeD(6) [OF assms(1)] by (auto simp: alloc_span_def)
  show "0 < p \<and> p < next_addr ?s" if "heap ?s p \<noteq> None" for p
    using that alloc_heap [OF assms(1)] by simp
  show "0 < next_addr ?s" by (simp add: alloc_span_def)
qed

lemma link_alloc_sid:
  "sid (link h q p) a = sid h a"
  by (cases "h a") (auto simp: sid_def link_apply [of h q p a])

lemma alloc_child_shape:
  assumes "store_shape s ts" and "byID s (SpanID sp) = None" and "SpanID sp \<noteq> []" and "Children sp = []"
    and "q \<in> set (forest_addrs ts)"
  shows "store_shape ((alloc_span s sp)\<lparr>heap := link (heap (alloc_span s sp)) q (next_addr s)\<rparr>)
           (map (add_shape q (Shape (next_addr s) [])) ts)"
proof (rule store_shapeI)
  let ?h = "heap (alloc_span s sp)"
  let ?s = "(alloc_span s sp)\<lparr>heap := link ?h q (next_addr s)\<rparr>"
  let ?ts = "map (add_shape q (Shape (next_addr s) [])) ts"
  have mset: "mset (forest_addrs ?ts) = mset (next_addr s # forest_addrs ts)"
    using store_shapeD(3) [OF assms(1)] assms(5) by (rule mset_forest_add)
  have set_eq: "set (forest_addrs ?ts) = insert (next_addr s) (set (forest_addrs ts))"
    using mset_eq_setD [OF mset] by simp
  show "roots ?s = map shape_addr ?ts"
    using store_shapeD(1) [OF assms(1)] by (simp add: alloc_span_def)
  show "repr (heap ?s) t" if t: "t \<in> set ?ts" for t
  proof -
    obtain u where u: "u \<in> set ts" "t = add_shape q (Shape (next_addr s) []) u"
      using t by auto
    have "next_addr s \<notin> set (addrs u)" and "next_addr s \<noteq> q"
      using alloc_fresh(1) [OF assms(1)] u(1) assms(5) by auto
    then have "repr (link ?h q (next_addr s)) (add_shape q (Shape (next_addr s) []) u)"
      by (intro repr_link alloc_repr(1) [OF assms(1) u(1)] alloc_repr_new(1) [OF assms(4)])
    with u(2) show ?thesis by simp
  qed
  show "distinct (forest_addrs ?ts)"
    using mset_eq_imp_distinct_iff [OF mset] store_shapeD(3) [OF assms(1)] alloc_fresh(1) [OF assms(1)]
    by simp
  show "byID ?s i = Some p \<longleftrightarrow> p \<in> set (forest_addrs ?ts) \<and> sid (heap ?s) p = i" for i p
    unfolding set_eq using alloc_byID [OF assms(1,2), of i p] by (simp add: link_alloc_sid)
  show "byID ?s [] = None"
    using store_shapeD(5) [OF assms(1)] assms(3) by (simp add: alloc_span_def)
  show "dom (staleOpenAt ?s) \<subseteq> dom (byID ?s)"
    using store_shapeD(6) [OF assms(1)] by (auto simp: alloc_span_def)
  show "0 < p \<and> p < next_addr ?s" if "heap ?s p \<noteq> None" for p
    using that alloc_heap [OF assms(1), of sp p] by (simp add: link_apply [of ?h q _ p] split: if_splits)
  show "0 < next_addr ?s" by (simp add: alloc_span_def)
qed

section \<open>Applying records\<close>

lemma applyStarted_eq:
  "applyStarted rt s started =
    (let i = SpanStarted_GetSpanId started; q = SpanStarted_GetParentSpanId started;
         a = alloc_span s (started_span rt started)
     in if started = None \<or> i = [] \<or> byID s i \<noteq> None then Some s
        else case byID s q of
          Some p \<Rightarrow> if heap a p = None then None else Some (a\<lparr>heap := link (heap a) p (next_addr s)\<rparr>)
        | None \<Rightarrow> if q \<noteq> [] \<and> \<not> allowUnknownParents s then Some s
                  else Some (a\<lparr>roots := roots s @ [next_addr s]\<rparr>))"
  by (simp add: applyStarted_def alloc_span_def started_span_def timeValue_def link_def Let_def
      split: option.split)

lemma started_span_fields [simp]:
  "SpanID (started_span rt x) = SpanStarted_GetSpanId x"
  "Children (started_span rt x) = []"
  "Ended (started_span rt x) = False"
  by (simp_all add: started_span_def)

lemma alloc_child_refines:
  assumes ts: "store_shape s ts" and abs: "forest a = map (abs_shape (heap s)) ts" "stale a = staleOpenAt s" "allow a = allowUnknownParents s"
    and fresh: "byID s (SpanID sp) = None" "SpanID sp \<noteq> []" "Children sp = []" and parent: "byID s i = Some q"
  shows "refines ((alloc_span s sp)\<lparr>heap := link (heap (alloc_span s sp)) q (next_addr s)\<rparr>)
    (a\<lparr>forest := map (add_child i (SpanTree sp [])) (forest a)\<rparr>)"
proof -
  let ?a = "alloc_span s sp" and ?p = "next_addr s"
  have q: "q \<in> set (forest_addrs ts)" "sid (heap s) q = i"
    using parent store_shapeD(4) [OF ts] by auto
  have "abs_shape (link (heap ?a) q ?p) (add_shape q (Shape ?p []) t) = add_child i (SpanTree sp []) (abs_shape (heap s) t)"
    if t: "t \<in> set ts" for t
  proof -
    have "sid (heap ?a) b = i \<longleftrightarrow> b = q" if "b \<in> set (addrs t)" for b
    proof -
      have b: "b \<in> set (forest_addrs ts)" using that t by auto
      show ?thesis
        using q alloc_sid [OF ts b, of sp] shape_unique [OF ts b q(1)] by metis
    qed
    then have "abs_shape (link (heap ?a) q ?p) (add_shape q (Shape ?p []) t)
        = add_child i (SpanTree (span_data (heap ?a) ?p) []) (abs_shape (heap ?a) t)"
      by (rule abs_shape_link)
    then show ?thesis
      using alloc_repr(2) [OF ts t] alloc_repr_new(2) [of sp s] fresh(3) by simp
  qed
  then show ?thesis
    by (intro refinesI [OF alloc_child_shape [OF ts fresh q(1)]]) (simp_all add: abs alloc_span_def)
qed

lemma alloc_root_refines:
  assumes ts: "store_shape s ts" and abs: "forest a = map (abs_shape (heap s)) ts" "stale a = staleOpenAt s" "allow a = allowUnknownParents s"
    and fresh: "byID s (SpanID sp) = None" "SpanID sp \<noteq> []" "Children sp = []"
  shows "refines ((alloc_span s sp)\<lparr>roots := roots s @ [next_addr s]\<rparr>) (a\<lparr>forest := forest a @ [SpanTree sp []]\<rparr>)"
  using alloc_repr(2) [OF ts] alloc_repr_new(2) [of sp s] fresh(3)
  by (intro refinesI [OF alloc_root_shape [OF ts fresh]]) (simp_all add: abs alloc_span_def)

lemma applyStarted_refines:
  assumes "refines s a"
  shows "\<exists>s'. applyStarted rt s started = Some s' \<and>
    refines s' (if started = None then a else spec_started rt a started)"
proof -
  let ?i = "SpanStarted_GetSpanId started" and ?q = "SpanStarted_GetParentSpanId started" and ?sp = "started_span rt started"
  obtain ts where ts: "store_shape s ts" and abs: "forest a = map (abs_shape (heap s)) ts"
    "stale a = staleOpenAt s" "allow a = allowUnknownParents s"
    using assms by (auto simp: refines_def)
  have ids: "i \<in> set (forest_ids (forest a)) \<longleftrightarrow> byID s i \<noteq> None" for i
    using refines_ids [OF assms] by auto
  consider (ignored) "started = None \<or> ?i = [] \<or> byID s ?i \<noteq> None \<or> (byID s ?q = None \<and> ?q \<noteq> [] \<and> \<not> allowUnknownParents s)"
    | (root) "started \<noteq> None" "?i \<noteq> []" "byID s ?i = None" "byID s ?q = None" "?q = [] \<or> allowUnknownParents s"
    | (child) q where "started \<noteq> None" "?i \<noteq> []" "byID s ?i = None" "byID s ?q = Some q"
    by (cases "byID s ?q") blast+
  then show ?thesis
  proof cases
    case ignored
    with assms ids abs(3) show ?thesis
      by (auto simp: applyStarted_eq spec_started_def Let_def)
  next
    case root
    then have "refines ((alloc_span s ?sp)\<lparr>roots := roots s @ [next_addr s]\<rparr>) (a\<lparr>forest := forest a @ [SpanTree ?sp []]\<rparr>)"
      by (intro alloc_root_refines [OF ts abs]) simp_all
    with root ids abs(3) show ?thesis by (auto simp: applyStarted_eq spec_started_def Let_def)
  next
    case (child q)
    then have "refines ((alloc_span s ?sp)\<lparr>heap := link (heap (alloc_span s ?sp)) q (next_addr s)\<rparr>)
        (a\<lparr>forest := map (add_child ?q (SpanTree ?sp [])) (forest a)\<rparr>)"
      by (intro alloc_child_refines [OF ts abs]) simp_all
    moreover have "heap (alloc_span s ?sp) q \<noteq> None"
      using shape_alloc(1) [OF ts, of q] store_shapeD(4) [OF ts] child(4) by (auto simp: alloc_span_def)
    ultimately show ?thesis using child ids by (auto simp: applyStarted_eq spec_started_def Let_def)
  qed
qed

lemma apply_open_updates:
  "applyUpdated rt s updated = (if updated = None then Some s
     else apply_open s (SpanUpdated_GetSpanId updated) (updated_span rt updated))"
  "applyEnded rt s ended = (if ended = None then Some s
     else apply_open s (SpanEnded_GetSpanId ended) (ended_span rt ended))"
  "applyEvent rt s event = (if event = None then Some s
     else apply_open s (SpanEvent_GetSpanId event) (event_span rt event))"
  by (simp_all add: applyUpdated_def applyEnded_def applyEvent_def apply_open_def timeValue_def
      updated_span_def [abs_def] ended_span_def [abs_def] event_span_def [abs_def] event_entry_def
      split: option.split)

lemma data_update_spans:
  "data_update (updated_span rt updated)"
  "data_update (ended_span rt ended)"
  "data_update (event_span rt event)"
  by (simp_all add: data_update_def updated_span_def ended_span_def event_span_def)

lemma Apply_refines:
  assumes "refines s a"
  shows "\<exists>s'. Apply rt s record = Some s' \<and> refines s' (spec_apply rt a record)"
proof -
  note open_refines = apply_open_refines [OF assms data_update_spans(1)]
    apply_open_refines [OF assms data_update_spans(2)] apply_open_refines [OF assms data_update_spans(3)]
  show ?thesis
  proof (cases "record = None")
    case True
    with assms show ?thesis by (simp add: Apply_def spec_apply_def Record_getter_defs)
  next
    case False
    then obtain r where r: "record = Some r" by auto
    show ?thesis
    proof (cases "rec_Kind r")
      case None
      with r assms show ?thesis
        by (simp add: Apply_def spec_apply_def Record_getter_defs)
    next
      case (Some k)
      with r show ?thesis
        using assms applyStarted_refines [OF assms, of rt "Record_GetSpanStarted record"] open_refines
        by (cases k) (auto simp: Apply_def spec_apply_def Record_getter_defs apply_open_updates Let_def)
    qed
  qed
qed

section \<open>Reading, marking and removing\<close>

lemma find_map: "find P (map f xs) = map_option f (find (P \<circ> f) xs)"
  by (induction xs) auto

lemma walk_forest_find:
  "find (\<lambda>(d, _). SpanID d = i) (concat (map (tree_walk k) (map (abs_shape h) ts)))
     = map_option (\<lambda>(p, d). (span_data h p, d)) (find (\<lambda>(p, _). sid h p = i) (concat (map (walk k) ts)))"
proof -
  have "concat (map (tree_walk k) (map (abs_shape h) ts)) = map (\<lambda>(p, d). (span_data h p, d)) (concat (map (walk k) ts))"
    by (simp add: map_concat comp_def tree_walk_abs)
  then show ?thesis
    by (simp only: find_map) (simp add: comp_def case_prod_unfold)
qed

lemma FindSpan_shape:
  assumes "store_shape s ts"
  shows "FindSpan s i = Some (if i = [] then None
    else find (\<lambda>(p, _). sid (heap s) p = i) (concat (map (walk 0) ts)))"
  using store_shapeD(1,2) [OF assms] shape_fits [OF assms]
  by (simp add: FindSpan_def findSpan_loop_find findSpan_find)

lemma FindSpan_refines:
  assumes "refines s a"
  shows "\<exists>r. FindSpan s i = Some r \<and> map_option (\<lambda>(p, d). (span_data (heap s) p, d)) r = spec_find a i"
  using assms walk_forest_find [of i 0 "heap s"]
  by (auto simp: refines_def FindSpan_shape spec_find_def simp del: map_map)

lemma map_fst_walk_forest [simp]: "map fst (concat (map (walk k) ts)) = forest_addrs ts"
  by (simp add: map_concat comp_def)

lemma fst_image_iff: "p \<in> fst ` A \<longleftrightarrow> (\<exists>d. (p, d) \<in> A)"
  by force

text \<open>The tree walk and the index agree.\<close>

lemma FindSpan_byID:
  assumes "store_shape s ts"
  shows "FindSpan s i = Some r \<Longrightarrow> map_option fst r = byID s i"
proof -
  assume find: "FindSpan s i = Some r"
  let ?ws = "concat (map (walk 0) ts)"
  have mem: "p \<in> set (forest_addrs ts) \<longleftrightarrow> (\<exists>d. (p, d) \<in> set ?ws)" for p
    by (simp only: map_fst_walk_forest [symmetric, where k = 0] set_map fst_image_iff)
  show ?thesis
  proof (cases "i = []")
    case True
    with find store_shapeD(5) [OF assms] show ?thesis by (simp add: FindSpan_def)
  next
    case False
    with find have r: "r = find (\<lambda>(p, _). sid (heap s) p = i) ?ws"
      by (simp add: FindSpan_shape [OF assms])
    show ?thesis
    proof (cases r)
      case None
      then have "\<not> (\<exists>x. x \<in> set ?ws \<and> (case x of (p, _) \<Rightarrow> sid (heap s) p = i))"
        using r find_None_iff [of _ ?ws] by metis
      then have "sid (heap s) p \<noteq> i" if "p \<in> set (forest_addrs ts)" for p
        using mem [of p] that by blast
      then have "i \<notin> sid (heap s) ` set (forest_addrs ts)"
        by blast
      then have "byID s i = None"
        using shape_byID_None [OF assms, of i] by blast
      with None show ?thesis by simp
    next
      case (Some x)
      obtain p d where x: "x = (p, d)" by (cases x)
      have "(p, d) \<in> set ?ws \<and> sid (heap s) p = i"
        using Some x r find_Some_iff [of "\<lambda>(p, _). sid (heap s) p = i" ?ws "(p, d)"]
        by (metis (mono_tags, lifting) case_prodD nth_mem)
      then have "byID s i = Some p"
        using mem store_shapeD(4) [OF assms] by blast
      with Some x show ?thesis by simp
    qed
  qed
qed

lemma HasOpenSpans_refines:
  assumes "refines s a"
  shows "HasOpenSpans s = Some (spec_open a)"
proof -
  obtain ts where ts: "store_shape s ts" and abs: "forest a = map (abs_shape (heap s)) ts"
    using assms by (auto simp: refines_def)
  have "HasOpenSpans s = Some (\<exists>p \<in> set (forest_addrs ts). is_open (heap s) p)"
    using store_shapeD(1,2) [OF ts] shape_fits [OF ts]
    by (simp add: HasOpenSpans_def hasOpenSpan_loop_ex hasOpenSpan_ex del: set_concat)
  then show ?thesis
    by (simp add: spec_open_def abs del: set_concat)
qed

lemma store_shape_stale:
  "store_shape s ts \<Longrightarrow> dom m \<subseteq> dom (byID s) \<Longrightarrow> store_shape (s\<lparr>staleOpenAt := m\<rparr>) ts"
  by (simp add: store_shape_def)

lemma MarkOpenSpansStale_refines:
  assumes "refines s a"
  shows "\<exists>s'. MarkOpenSpansStale s at = Some s' \<and> refines s' (spec_mark a at)"
proof -
  obtain ts where ts: "store_shape s ts" and abs: "forest a = map (abs_shape (heap s)) ts"
    "stale a = staleOpenAt s" "allow a = allowUnknownParents s"
    using assms by (auto simp: refines_def)
  let ?m = "fold (mark_one (heap s) at) (forest_addrs ts) (staleOpenAt s)"
  have m: "?m i = (if staleOpenAt s i = None \<and> (\<exists>p \<in> set (forest_addrs ts). is_open (heap s) p \<and> sid (heap s) p = i)
      then Some at else staleOpenAt s i)" for i
    by (rule fold_mark_one)
  have "MarkOpenSpansStale s at = Some (s\<lparr>staleOpenAt := ?m\<rparr>)"
    using store_shapeD(1,2) [OF ts] shape_fits [OF ts]
    by (simp add: MarkOpenSpansStale_def markOpenSpanStale_loop_fold markOpenSpanStale_fold del: set_concat)
  moreover have "dom ?m \<subseteq> dom (byID s)"
  proof
    fix i assume "i \<in> dom ?m"
    then have "i \<in> dom (staleOpenAt s) \<or> i \<in> sid (heap s) ` set (forest_addrs ts)"
      by (auto simp: m dom_def split: if_splits)
    then show "i \<in> dom (byID s)"
      using store_shapeD(6) [OF ts] shape_dom_byID [OF ts] by blast
  qed
  then have "refines (s\<lparr>staleOpenAt := ?m\<rparr>) (spec_mark a at)"
    using abs by (intro refinesI [OF store_shape_stale [OF ts]])
      (auto simp: spec_mark_def m fun_eq_iff simp del: set_concat)
  ultimately show ?thesis by blast
qed

lemma Clear_refines:
  assumes "refines s a"
  shows "refines (Clear s) (spec_clear a)"
proof -
  obtain ts where "store_shape s ts" and "allow a = allowUnknownParents s"
    using assms by (auto simp: refines_def)
  then show ?thesis
    by (intro refinesI [of _ "[]"]) (auto simp: store_shape_def Clear_def spec_clear_def with_forest_def restrict_map_def forest_ids_def)
qed

section \<open>Eviction\<close>

text \<open>Dropping whole subtrees leaves a store whose maps are those of the rest.\<close>

lemma restrict_stale:
  assumes "store_shape s ts" and "A \<union> B = sid (heap s) ` set (forest_addrs ts)" and "A \<inter> B = {}"
  shows "staleOpenAt s |` (- A) = staleOpenAt s |` B"
proof
  fix i
  have "staleOpenAt s i = None" if "i \<notin> A \<union> B"
    using that store_shapeD(6) [OF assms(1)] shape_dom_byID [OF assms(1)] assms(2) by blast
  with assms(3) show "(staleOpenAt s |` (- A)) i = (staleOpenAt s |` B) i"
    by (auto simp: restrict_map_def)
qed

lemma sub_forest_shape:
  assumes "store_shape s ts"
    and us: "roots s' = map shape_addr us" "\<And>u. u \<in> set us \<Longrightarrow> repr (heap s') u" "distinct (forest_addrs us)"
      "set (forest_addrs us) \<subseteq> set (forest_addrs ts)"
    and data: "same_data (heap s) (heap s')" "next_addr s' = next_addr s"
    and maps: "(byID s', staleOpenAt s')
      = del_ids (sid (heap s) ` (set (forest_addrs ts) - set (forest_addrs us))) (byID s, staleOpenAt s)"
  shows "store_shape s' us"
    and "staleOpenAt s' = staleOpenAt s |` (sid (heap s) ` set (forest_addrs us))"
proof -
  let ?gone = "set (forest_addrs ts) - set (forest_addrs us)"
  have sid': "sid (heap s') p = sid (heap s) p" for p
    using data(1) by (rule same_data_reads)
  have byID': "byID s' = byID s |` (- sid (heap s) ` ?gone)"
    and stale': "staleOpenAt s' = staleOpenAt s |` (- sid (heap s) ` ?gone)"
    using maps by (simp_all add: del_ids_def)
  have disj: "sid (heap s) ` ?gone \<inter> sid (heap s) ` set (forest_addrs us) = {}"
    using shape_unique [OF assms(1)] us(4) by blast
  have union: "sid (heap s) ` ?gone \<union> sid (heap s) ` set (forest_addrs us) = sid (heap s) ` set (forest_addrs ts)"
    using us(4) by blast
  show stale_eq: "staleOpenAt s' = staleOpenAt s |` (sid (heap s) ` set (forest_addrs us))"
    unfolding stale' by (rule restrict_stale [OF assms(1) union disj])
  have byID_eq: "byID s' i = Some p \<longleftrightarrow> p \<in> set (forest_addrs us) \<and> sid (heap s') p = i" for i p
  proof -
    have "byID s' i = Some p \<longleftrightarrow> i \<notin> sid (heap s) ` ?gone \<and> p \<in> set (forest_addrs ts) \<and> sid (heap s) p = i"
      using store_shapeD(4) [OF assms(1), of i p] by (auto simp: byID' restrict_map_def)
    also have "\<dots> \<longleftrightarrow> p \<in> set (forest_addrs us) \<and> sid (heap s) p = i"
      using disj us(4) by blast
    finally show ?thesis by (simp add: sid')
  qed
  show "store_shape s' us"
  proof (rule store_shapeI)
    show "byID s' [] = None"
      using store_shapeD(5) [OF assms(1)] by (simp add: byID' restrict_map_def)
    show "dom (staleOpenAt s') \<subseteq> dom (byID s')"
    proof
      fix i assume "i \<in> dom (staleOpenAt s')"
      then have "i \<in> sid (heap s) ` set (forest_addrs us)"
        by (auto simp: stale_eq restrict_map_def split: if_splits)
      then show "i \<in> dom (byID s')"
        using byID_eq sid' by (metis (no_types, lifting) domI imageE)
    qed
    show "0 < p \<and> p < next_addr s'" if "heap s' p \<noteq> None" for p
      using that store_shapeD(7) [OF assms(1), of p] same_data_dom [OF data(1)] data(2) by auto
    show "0 < next_addr s'" using store_shapeD(8) [OF assms(1)] data(2) by simp
  qed (use us byID_eq in auto)
qed

lemma LimitRoots_refines:
  assumes "refines s a"
  shows "\<exists>s'. LimitRoots s limit = Some s' \<and> refines s' (spec_limit a limit)"
proof -
  obtain ts where ts: "store_shape s ts" and abs: "forest a = map (abs_shape (heap s)) ts"
    "stale a = staleOpenAt s" "allow a = allowUnknownParents s"
    using assms by (auto simp: refines_def)
  have len: "length (roots s) = length ts" "length (forest a) = length ts"
    using store_shapeD(1) [OF ts] abs(1) by simp_all
  consider "limit \<le> 0" | "0 < limit" "int (length ts) \<le> limit" | "0 < limit" "limit < int (length ts)"
    by linarith
  then show ?thesis
  proof cases
    case 1
    then have "spec_limit a limit = spec_clear a"
      by (simp add: spec_limit_def spec_clear_def)
    with 1 Clear_refines [OF assms] show ?thesis by (simp add: LimitRoots_def)
  next
    case 2
    have "dom (stale a) \<subseteq> set (forest_ids (forest a))"
      using store_shapeD(6) [OF ts] shape_dom_byID [OF ts] by (simp add: abs)
    then have "stale a |` set (forest_ids (forest a)) = stale a"
      by (rule restrict_map_id)
    with 2 len have "spec_limit a limit = a"
      by (simp add: spec_limit_def with_forest_def)
    with 2 len assms show ?thesis by (simp add: LimitRoots_def)
  next
    case 3
    define n where "n = length ts - nat limit"
    have split: "forest_addrs ts = forest_addrs (take n ts) @ forest_addrs (drop n ts)"
      by (metis append_take_drop_id concat_append map_append)
    let ?ids = "sid (heap s) ` set (forest_addrs (take n ts))"
    let ?s = "s\<lparr>byID := fst (del_ids ?ids (byID s, staleOpenAt s)),
      staleOpenAt := snd (del_ids ?ids (byID s, staleOpenAt s)), roots := drop n (roots s)\<rparr>"
    have fits: "fits (walk_fuel s) t" "repr (heap s) t" if "t \<in> set (take n ts)" for t
      using that shape_fits [OF ts] store_shapeD(2) [OF ts] by (auto dest: in_set_takeD)
    have "deleteSpan_loop (walk_fuel s) (heap s) (take n (roots s)) (byID s, staleOpenAt s)
        = Some (del_ids ?ids (byID s, staleOpenAt s))"
      unfolding store_shapeD(1) [OF ts] take_map
      using fits by (intro deleteSpan_loop_del deleteSpan_del) auto
    then have run: "LimitRoots s limit = Some ?s"
      using 3 len by (simp add: LimitRoots_def n_def case_prod_unfold Let_def)
    have gone: "set (forest_addrs (take n ts)) = set (forest_addrs ts) - set (forest_addrs (drop n ts))"
      using store_shapeD(3) [OF ts] unfolding split distinct_append by auto
    have sub: "store_shape ?s (drop n ts)"
      "staleOpenAt ?s = staleOpenAt s |` (sid (heap s) ` set (forest_addrs (drop n ts)))"
    proof (rule_tac [!] sub_forest_shape [OF ts])
      show "distinct (forest_addrs (drop n ts))" "distinct (forest_addrs (drop n ts))"
        using store_shapeD(3) [OF ts] unfolding split distinct_append by auto
      show "set (forest_addrs (drop n ts)) \<subseteq> set (forest_addrs ts)" "set (forest_addrs (drop n ts)) \<subseteq> set (forest_addrs ts)"
        unfolding split by auto
    qed (use store_shapeD(1,2) [OF ts] gone in \<open>auto simp: drop_map del_ids_def dest: in_set_dropD simp del: set_concat\<close>)
    have "refines ?s (spec_limit a limit)"
      by (rule refinesI [OF sub(1)])
        (use abs len sub(2) n_def in \<open>simp_all add: spec_limit_def with_forest_def drop_map del: set_concat\<close>)
    with run show ?thesis by blast
  qed
qed

section \<open>Pruning\<close>

lemma keep_shape_subseq: "subseq (forest_addrs (keep_shape h t)) (addrs t)"
proof (induction t)
  case (Shape p ts)
  then have "subseq (forest_addrs (keep_forest h ts)) (forest_addrs ts)"
    by (induction ts) (auto intro: list_emb_append_mono)
  then show ?case by simp
qed

lemma keep_forest_subseq: "subseq (forest_addrs (keep_forest h ts)) (forest_addrs ts)"
  by (induction ts) (auto intro: list_emb_append_mono keep_shape_subseq)

lemma prune_tree_abs: "prune_tree (abs_shape h t) = map (abs_shape h) (keep_shape h t)"
proof (induction t)
  case (Shape p ts)
  have "concat (map prune_tree (map (abs_shape h) ts)) = map (abs_shape h) (keep_forest h ts)"
    using Shape by (simp add: map_concat comp_def cong: map_cong)
  then show ?case by simp
qed

lemma abs_shape_same_data: "same_data h h' \<Longrightarrow> abs_shape h' t = abs_shape h t"
  by (rule abs_shape_cong) (simp add: span_data_def same_data_the)

lemma ClearOpenSpans_refines:
  assumes "refines s a"
  shows "\<exists>s'. ClearOpenSpans s = Some s' \<and> refines s' (spec_clear_open a)"
proof -
  obtain ts where ts: "store_shape s ts" and abs: "forest a = map (abs_shape (heap s)) ts"
    "stale a = staleOpenAt s" "allow a = allowUnknownParents s"
    using assms by (auto simp: refines_def)
  let ?us = "keep_forest (heap s) ts"
  have "keep_ok (walk_fuel s) t" if "t \<in> set ts" for t
    using that shape_fits [OF ts] store_shapeD(3) [OF ts]
    by (intro keepClosedSpan_keep) (auto simp: distinct_concat_iff)
  then obtain h' where h': "keepClosedSpan_loop (walk_fuel s) (map shape_addr ts) [] (heap s, byID s, staleOpenAt s)
      = Some (map shape_addr ?us, h', del_ids (sid (heap s) ` dropped_forest (heap s) ts) (byID s, staleOpenAt s))"
      "same_data (heap s) h'" "\<And>u. u \<in> set ?us \<Longrightarrow> repr h' u"
    using keepClosedSpan_loop_keep [of ts "walk_fuel s" "heap s" "[]" "(byID s, staleOpenAt s)",
        OF _ store_shapeD(2) [OF ts] store_shapeD(3) [OF ts]]
    unfolding append_Nil by blast
  let ?m = "del_ids (sid (heap s) ` dropped_forest (heap s) ts) (byID s, staleOpenAt s)"
  let ?s = "s\<lparr>heap := h', roots := map shape_addr ?us, byID := fst ?m, staleOpenAt := snd ?m\<rparr>"
  have sub: "store_shape ?s ?us"
    "staleOpenAt ?s = staleOpenAt s |` (sid (heap s) ` set (forest_addrs ?us))"
  proof (rule_tac [!] sub_forest_shape [OF ts])
    show "distinct (forest_addrs ?us)" "distinct (forest_addrs ?us)"
      using keep_forest_subseq store_shapeD(3) [OF ts] by (auto intro: subseq_distinct simp del: distinct_concat_iff)
    show "set (forest_addrs ?us) \<subseteq> set (forest_addrs ts)" "set (forest_addrs ?us) \<subseteq> set (forest_addrs ts)"
      by (rule keep_forest_subset)+
  qed (use h'(2,3) dropped_forest_eq [OF store_shapeD(3) [OF ts]] in \<open>simp_all del: set_concat\<close>)
  have run: "ClearOpenSpans s = Some ?s" if "ts \<noteq> []"
    using h'(1) that store_shapeD(1) [OF ts] by (simp add: ClearOpenSpans_def case_prod_unfold)
  have abs': "abs_shape h' = abs_shape (heap s)"
    by (rule ext) (rule abs_shape_same_data [OF h'(2)])
  have pruned: "concat (map prune_tree (forest a)) = map (abs_shape (heap s)) ?us"
    by (simp add: abs(1) prune_tree_abs map_concat comp_def)
  have ids: "set (forest_ids (map (abs_shape (heap s)) ?us)) = sid (heap s) ` set (forest_addrs ?us)"
    by (simp only: forest_ids_abs set_map)
  have "stale (spec_clear_open a) = staleOpenAt ?s"
    unfolding sub(2) spec_clear_open_def with_forest_def pruned ids using abs(2) by simp
  then have new: "refines ?s (spec_clear_open a)"
    by (intro refinesI [OF sub(1)]) (simp_all add: spec_clear_open_def with_forest_def pruned abs' abs(3))
  show ?thesis
  proof (cases "ts = []")
    case True
    have "dom (staleOpenAt s) = {}"
      using store_shapeD(6) [OF ts] shape_dom_byID [OF ts] True by simp
    with True abs have "spec_clear_open a = a"
      by (simp add: spec_clear_open_def with_forest_def restrict_map_id)
    with True assms store_shapeD(1) [OF ts] show ?thesis
      by (simp add: ClearOpenSpans_def)
  next
    case False
    with run new show ?thesis by blast
  qed
qed

end
