(* ===== verification/Simulation.thy ===== *)
theory Simulation
  imports Prelude
begin

text \<open>
  The interface between a component whose operations may panic or not return (\<open>None\<close>) and the
  abstract functions that say what it promises: one simulation law, from which whole runs of
  operations return, keep the invariant and compute the abstract result.
\<close>

fun run_steps :: "('s \<Rightarrow> 'op \<Rightarrow> 's option) \<Rightarrow> 's \<Rightarrow> 'op list \<Rightarrow> 's option" where
  "run_steps step s [] = Some s"
| "run_steps step s (op # ops) =
     (case step s op of None \<Rightarrow> None | Some s' \<Rightarrow> run_steps step s' ops)"

lemma run_steps_append:
  "run_steps step s (xs @ ys) =
     (case run_steps step s xs of None \<Rightarrow> None | Some s' \<Rightarrow> run_steps step s' ys)"
  by (induction xs arbitrary: s) (auto split: option.split)

locale simulation =
  fixes rel :: "'s \<Rightarrow> 'a \<Rightarrow> bool"
    and step :: "'s \<Rightarrow> 'op \<Rightarrow> 's option"
    and spec :: "'a \<Rightarrow> 'op \<Rightarrow> 'a"
  assumes step_simulates: "rel s a \<Longrightarrow> \<exists>s'. step s op = Some s' \<and> rel s' (spec a op)"
begin

lemma run_simulates:
  assumes "rel s a"
  shows "\<exists>s'. run_steps step s ops = Some s' \<and> rel s' (foldl spec a ops)"
  using assms
proof (induction ops arbitrary: s a)
  case (Cons op ops)
  obtain s' where "step s op = Some s'" and "rel s' (spec a op)"
    using step_simulates [OF Cons.prems] by blast
  with Cons.IH [of s' "spec a op"] show ?case by simp
qed simp

lemma step_rel: "rel s a \<Longrightarrow> step s op = Some s' \<Longrightarrow> rel s' (spec a op)"
  using step_simulates [of s a op] by auto

lemma run_rel: "rel s a \<Longrightarrow> run_steps step s ops = Some s' \<Longrightarrow> rel s' (foldl spec a ops)"
  using run_simulates [of s a ops] by auto

text \<open>What every abstract operation preserves holds of the abstraction of every run.\<close>

lemma run_invariant:
  assumes "rel s a" and "P a" and "\<And>a op. P a \<Longrightarrow> P (spec a op)"
  shows "\<exists>s' a'. run_steps step s ops = Some s' \<and> rel s' a' \<and> P a'"
proof -
  have "P (foldl spec a ops)"
    using assms(2) by (induction ops arbitrary: a) (auto intro: assms(3))
  with run_simulates [OF assms(1), of ops] show ?thesis by blast
qed

end

text \<open>The smaller contract of a component whose steps always succeed and keep an invariant.\<close>

locale total_steps =
  fixes inv :: "'s \<Rightarrow> bool"
    and step :: "'s \<Rightarrow> 'op \<Rightarrow> 's option"
  assumes step_total: "inv s \<Longrightarrow> \<exists>s'. step s op = Some s' \<and> inv s'"
begin

lemma run_total: "inv s \<Longrightarrow> \<exists>s'. run_steps step s ops = Some s' \<and> inv s'"
proof (induction ops arbitrary: s)
  case (Cons op ops)
  obtain s' where "step s op = Some s'" and "inv s'"
    using step_total [OF Cons.prems] by blast
  with Cons.IH [of s'] show ?case by simp
qed simp

lemma step_inv: "inv s \<Longrightarrow> step s op = Some s' \<Longrightarrow> inv s'"
  using step_total [of s op] by auto

end

end
