(* ===== verification/Store_Props.thy ===== *)
theory Store_Props
  imports Store_Inv Simulation Attr
begin

text \<open>
  The properties of the span store: every sequence of its operations returns and computes
  what the forest specification says, and what that means for each operation.
\<close>

section \<open>Sequences of operations\<close>

text \<open>The operations that change a store, as a client calls them.\<close>

datatype store_op =
    OpApply "sap_record option"
  | OpMarkStale go_time
  | OpClearOpen
  | OpClear
  | OpLimit int

fun store_step :: "pb_runtime \<Rightarrow> store \<Rightarrow> store_op \<Rightarrow> store option" where
  "store_step rt s (OpApply r) = Apply rt s r"
| "store_step rt s (OpMarkStale at) = MarkOpenSpansStale s at"
| "store_step rt s OpClearOpen = ClearOpenSpans s"
| "store_step rt s OpClear = Some (Clear s)"
| "store_step rt s (OpLimit n) = LimitRoots s n"

fun spec_step :: "pb_runtime \<Rightarrow> spec_store \<Rightarrow> store_op \<Rightarrow> spec_store" where
  "spec_step rt a (OpApply r) = spec_apply rt a r"
| "spec_step rt a (OpMarkStale at) = spec_mark a at"
| "spec_step rt a OpClearOpen = spec_clear_open a"
| "spec_step rt a OpClear = spec_clear a"
| "spec_step rt a (OpLimit n) = spec_limit a n"

interpretation span_store: simulation refines "store_step rt" "spec_step rt" for rt
proof
  fix s a op
  assume "refines s a"
  then show "\<exists>s'. store_step rt s op = Some s' \<and> refines s' (spec_step rt a op)"
    by (cases op) (simp_all add: Apply_refines MarkOpenSpansStale_refines ClearOpenSpans_refines
        Clear_refines LimitRoots_refines)
qed

lemma refines_wf: "refines s a \<Longrightarrow> store_wf s"
  by (auto simp: store_wf_refines)

lemma wf_refinesE:
  assumes "store_wf s"
  obtains a where "refines s a" and "abs_store s = Some a"
  using assms refines_abs_store store_wf_refines by blast

text \<open>C1: From an empty store, every sequence of records, stale marks, prunings, evictions and
  clears runs to its end without a nil dereference or an endless walk, leaves a well-formed
  store, and a client reading the tree from \<open>Roots\<close> sees exactly the forest of the
  specification.\<close>

theorem store_run_refines:
  "\<exists>s. run_steps (store_step rt) (NewStoreWithOptions opts) ops = Some s \<and> store_wf s
     \<and> abs_store s = Some (foldl (spec_step rt) (spec_new (AllowUnknownParents opts)) ops)"
  using span_store.run_simulates [OF refines_new] refines_abs_store refines_wf by metis

lemma store_wf_new: "store_wf (NewStoreWithOptions opts)"
  using refines_new refines_wf by blast

section \<open>A concrete store\<close>

text \<open>
  Two roots, the first closed with an open child that carries an attribute and an event, on
  which the properties below are instantiated.
\<close>

definition start_record :: "string \<Rightarrow> string \<Rightarrow> go_time \<Rightarrow> sap_record option" where
  "start_record i parent at = Some (Record_Build
     (empty_Record_builder\<lparr>rb_SpanStarted := Some (SpanStarted_Build ref_runtime
        \<lparr>stb_TraceId = Some ''t'', stb_SpanId = Some i, stb_ParentSpanId = Some parent, stb_Name = Some i,
         stb_StartedAt = Some (TimestampNew ref_runtime at),
         stb_Attributes = [Some (String_attr ref_runtime ''k'' i [])]\<rparr>)\<rparr>))"

definition end_record :: "string \<Rightarrow> go_time \<Rightarrow> sap_record option" where
  "end_record i at = Some (Record_Build
     (empty_Record_builder\<lparr>rb_SpanEnded := Some (SpanEnded_Build ref_runtime
        \<lparr>enb_TraceId = Some ''t'', enb_SpanId = Some i, enb_EndedAt = Some (TimestampNew ref_runtime at),
         enb_TerminalType = Some TERMINAL_TYPE_COMPLETE, enb_ErrorMessage = None\<rparr>)\<rparr>))"

definition sample_ops :: "store_op list" where
  "sample_ops = [OpApply (start_record ''a'' [] 1), OpApply (start_record ''b'' ''a'' 2), OpApply (end_record ''a'' 3),
     OpApply (start_record ''c'' [] 4), OpMarkStale 5]"

definition sample_store :: store where
  "sample_store = the (run_steps (store_step ref_runtime) NewStore sample_ops)"

lemma sample_store_refines:
  "refines sample_store (foldl (spec_step ref_runtime) (spec_new False) sample_ops)"
  using span_store.run_simulates [OF refines_new, of ref_runtime "\<lparr>AllowUnknownParents = False\<rparr>" sample_ops]
  by (auto simp: sample_store_def NewStore_def)

lemma sample_store_wf [simp]: "store_wf sample_store"
  using sample_store_refines by (rule refines_wf)

lemma sample_store_reads:
  "byID sample_store ''a'' = Some 1" "byID sample_store ''b'' = Some 2" "byID sample_store ''c'' = Some 3"
  "roots sample_store = [1, 3]" "staleOpenAt sample_store ''b'' = Some 5" "staleOpenAt sample_store ''a'' = None"
  by code_simp+

lemma sample_store_heap:
  "map_option Ended (heap sample_store 1) = Some True" "map_option Children (heap sample_store 1) = Some [2]"
  by code_simp+

text \<open>C2: On a well-formed store \<open>Apply\<close> returns, keeps the store well-formed, and changes the
  forest as the specification says, whatever the record holds.\<close>

theorem Apply_correct:
  assumes "store_wf s"
  shows "\<exists>a s'. abs_store s = Some a \<and> Apply rt s record = Some s' \<and> store_wf s'
     \<and> abs_store s' = Some (spec_apply rt a record)"
proof -
  obtain a where a: "refines s a" "abs_store s = Some a"
    using assms by (rule wf_refinesE)
  with Apply_refines [OF a(1)] show ?thesis
    using refines_abs_store refines_wf by blast
qed

theorem Apply_correct_witness:
  "\<exists>a s'. abs_store sample_store = Some a \<and> Apply ref_runtime sample_store (end_record ''b'' 6) = Some s'
     \<and> store_wf s' \<and> abs_store s' = Some (spec_apply ref_runtime a (end_record ''b'' 6))"
  by (rule Apply_correct [OF sample_store_wf])

section \<open>The index and the tree\<close>

lemma wf_shapeE:
  assumes "store_wf s"
  obtains ts where "store_shape s ts" and "abs_store s = Some \<lparr>forest = map (abs_shape (heap s)) ts,
    stale = staleOpenAt s, allow = allowUnknownParents s\<rparr>"
proof -
  obtain ts where ts: "store_shape s ts"
    using assms by (auto simp: store_wf_def)
  have "refines s \<lparr>forest = map (abs_shape (heap s)) ts, stale = staleOpenAt s, allow = allowUnknownParents s\<rparr>"
    by (rule refinesI [OF ts]) simp_all
  with ts show thesis
    using that refines_abs_store by blast
qed

lemma shape_ids_distinct:
  assumes "store_shape s ts"
  shows "distinct (forest_ids (map (abs_shape (heap s)) ts))"
proof -
  have "inj_on (sid (heap s)) (set (forest_addrs ts))"
    using shape_unique [OF assms] by (intro inj_onI)
  then show ?thesis
    using store_shapeD(3) [OF assms] by (simp only: forest_ids_abs distinct_map)
qed

text \<open>\<open>FindSpan\<close>, which walks the tree, returns the span the index holds under that ID,
  and its depth and data are those of the first span with the ID in preorder.\<close>

theorem FindSpan_correct:
  assumes "store_wf s" and "abs_store s = Some a"
  shows "\<exists>r. FindSpan s i = Some r \<and> map_option fst r = byID s i
    \<and> map_option (\<lambda>(p, d). (span_data (heap s) p, d)) r = spec_find a i"
proof -
  obtain ts where ts: "store_shape s ts"
    using assms(1) by (auto simp: store_wf_def)
  have "refines s a"
    using wf_refines_abs [OF assms(1)] assms(2) by simp
  then show ?thesis
    using FindSpan_refines FindSpan_byID [OF ts] by metis
qed

theorem FindSpan_correct_witness:
  "\<exists>r. FindSpan sample_store ''b'' = Some r \<and> map_option fst r = Some 2"
proof -
  obtain a where "abs_store sample_store = Some a"
    by (rule wf_refinesE [OF sample_store_wf])
  from FindSpan_correct [OF sample_store_wf this, of "''b''"] show ?thesis
    by (auto simp: sample_store_reads)
qed

text \<open>C3: Index and tree never drift apart: after any operations on an empty store every span ID occurs
  once in the tree read from \<open>Roots\<close>, never as the empty string, the index holds exactly the IDs of
  the tree, looking an ID up by walking the tree returns the span the index holds, and stale marks
  exist only for spans that are tracked.\<close>

theorem tree_index_agree:
  "\<exists>s a. run_steps (store_step rt) (NewStoreWithOptions opts) ops = Some s \<and> abs_store s = Some a
    \<and> distinct (forest_ids (forest a)) \<and> set (forest_ids (forest a)) = dom (byID s) \<and> [] \<notin> dom (byID s)
    \<and> (\<forall>i. \<exists>r. FindSpan s i = Some r \<and> map_option fst r = byID s i)
    \<and> dom (staleOpenAt s) \<subseteq> dom (byID s)"
proof -
  obtain s where s: "run_steps (store_step rt) (NewStoreWithOptions opts) ops = Some s" "store_wf s"
    using span_store.run_simulates [OF refines_new] refines_wf by metis
  obtain ts where ts: "store_shape s ts" "abs_store s = Some \<lparr>forest = map (abs_shape (heap s)) ts,
      stale = staleOpenAt s, allow = allowUnknownParents s\<rparr>"
    using s(2) by (rule wf_shapeE)
  have "set (forest_ids (map (abs_shape (heap s)) ts)) = dom (byID s)"
    by (simp only: forest_ids_abs set_map shape_dom_byID [OF ts(1)])
  moreover have "[] \<notin> dom (byID s)" and "dom (staleOpenAt s) \<subseteq> dom (byID s)"
    using store_shapeD(5,6) [OF ts(1)] by auto
  moreover have "\<exists>r. FindSpan s i = Some r \<and> map_option fst r = byID s i" for i
    using FindSpan_correct [OF s(2) ts(2), of i] by blast
  ultimately show ?thesis
    using s(1) ts(2) shape_ids_distinct [OF ts(1)] by (intro exI [of _ s]) simp
qed

section \<open>Stale marks\<close>

lemma shape_span:
  assumes "store_shape s ts"
  shows "(\<exists>d \<in> set (forest_spans (map (abs_shape (heap s)) ts)). \<not> Ended d \<and> SpanID d = i) \<longleftrightarrow>
    (\<exists>p sp. byID s i = Some p \<and> heap s p = Some sp \<and> \<not> Ended sp)"
proof -
  have "(\<exists>d \<in> set (forest_spans (map (abs_shape (heap s)) ts)). \<not> Ended d \<and> SpanID d = i) \<longleftrightarrow>
      (\<exists>p \<in> set (forest_addrs ts). is_open (heap s) p \<and> sid (heap s) p = i)"
    by (simp del: set_concat)
  also have "\<dots> \<longleftrightarrow> (\<exists>p. byID s i = Some p \<and> is_open (heap s) p)"
    using store_shapeD(4) [OF assms, of i] by blast
  also have "\<dots> \<longleftrightarrow> (\<exists>p sp. byID s i = Some p \<and> heap s p = Some sp \<and> \<not> Ended sp)"
    using shape_alloc(1) [OF assms] store_shapeD(4) [OF assms, of i] by (fastforce simp: is_open_def)
  finally show ?thesis .
qed

definition stale_marks :: "store \<Rightarrow> go_time \<Rightarrow> string \<Rightarrow> go_time option" where
  "stale_marks s at i = (if staleOpenAt s i = None
     \<and> (\<exists>p sp. byID s i = Some p \<and> heap s p = Some sp \<and> \<not> Ended sp) then Some at else staleOpenAt s i)"

lemma stale_marks_twice: "stale_marks (s\<lparr>staleOpenAt := stale_marks s at\<rparr>) later = stale_marks s at"
proof
  fix i
  show "stale_marks (s\<lparr>staleOpenAt := stale_marks s at\<rparr>) later i = stale_marks s at i"
  proof (cases "staleOpenAt s i = None \<and> (\<exists>p sp. byID s i = Some p \<and> heap s p = Some sp \<and> \<not> Ended sp)")
    case True
    then show ?thesis by (simp add: stale_marks_def)
  next
    case False
    then show ?thesis unfolding stale_marks_def by (simp del: not_all not_ex)
  qed
qed

lemma MarkOpenSpansStale_eq:
  assumes "store_wf s"
  shows "MarkOpenSpansStale s at = Some (s\<lparr>staleOpenAt := stale_marks s at\<rparr>)"
proof -
  obtain a where a: "refines s a" using assms by (rule wf_refinesE)
  then obtain ts where ts: "store_shape s ts" and abs: "forest a = map (abs_shape (heap s)) ts"
      "stale a = staleOpenAt s"
    by (auto simp: refines_def)
  obtain s' where s': "MarkOpenSpansStale s at = Some s'" "refines s' (spec_mark a at)"
    using MarkOpenSpansStale_refines [OF a] by blast
  have "staleOpenAt s' = stale (spec_mark a at)"
    using s'(2) by (auto simp: refines_def)
  also have "\<dots> = stale_marks s at"
    unfolding spec_mark_def abs shape_span [OF ts] by (simp add: stale_marks_def [abs_def])
  finally show ?thesis
    using s'(1) by (auto simp: MarkOpenSpansStale_def)
qed

text \<open>C4: \<open>MarkOpenSpansStale\<close> gives the mark \<open>at\<close> to exactly the open tracked spans without
  a mark: a mark once given is never moved, not even by a second call, and nothing else of
  the store changes.\<close>

theorem MarkOpenSpansStale_marks:
  assumes "store_wf s"
  shows "\<exists>m. MarkOpenSpansStale s at = Some (s\<lparr>staleOpenAt := m\<rparr>)
    \<and> (\<forall>i. m i = (if staleOpenAt s i = None
          \<and> (\<exists>p sp. byID s i = Some p \<and> heap s p = Some sp \<and> \<not> Ended sp)
        then Some at else staleOpenAt s i))
    \<and> MarkOpenSpansStale (s\<lparr>staleOpenAt := m\<rparr>) later = Some (s\<lparr>staleOpenAt := m\<rparr>)"
proof (intro exI conjI allI)
  have "store_wf (s\<lparr>staleOpenAt := stale_marks s at\<rparr>)"
    using MarkOpenSpansStale_refines MarkOpenSpansStale_eq [OF assms] refines_wf wf_refinesE [OF assms]
    by (metis option.inject)
  from MarkOpenSpansStale_eq [OF this] show "MarkOpenSpansStale (s\<lparr>staleOpenAt := stale_marks s at\<rparr>) later
      = Some (s\<lparr>staleOpenAt := stale_marks s at\<rparr>)"
    by (simp add: stale_marks_twice)
qed (simp_all add: MarkOpenSpansStale_eq [OF assms] stale_marks_def)

theorem MarkOpenSpansStale_marks_witness:
  "\<exists>m. MarkOpenSpansStale sample_store 9 = Some (sample_store\<lparr>staleOpenAt := m\<rparr>)
    \<and> m ''a'' = None \<and> m ''b'' = Some 5"
proof -
  have closed: "\<not> (\<exists>p sp. byID sample_store ''a'' = Some p \<and> heap sample_store p = Some sp \<and> \<not> Ended sp)"
    using sample_store_heap(1) by (auto simp: sample_store_reads)
  obtain m where "MarkOpenSpansStale sample_store 9 = Some (sample_store\<lparr>staleOpenAt := m\<rparr>)"
    and m: "\<And>i. m i = (if staleOpenAt sample_store i = None
          \<and> (\<exists>p sp. byID sample_store i = Some p \<and> heap sample_store p = Some sp \<and> \<not> Ended sp)
        then Some 9 else staleOpenAt sample_store i)"
    using MarkOpenSpansStale_marks [OF sample_store_wf, of 9] by blast
  moreover have "m ''a'' = None"
    using m [of "''a''"] closed by (simp add: sample_store_reads del: not_ex)
  moreover have "m ''b'' = Some 5"
    using m [of "''b''"] by (simp add: sample_store_reads)
  ultimately show ?thesis by blast
qed

end
