(* ===== verification/Store_Life.thy ===== *)
theory Store_Life
  imports Store_Props
begin

text \<open>
  What becomes of spans in the store: where a started span is placed, that an ended span no
  longer changes, and which spans pruning and eviction remove.
\<close>

section \<open>Placement\<close>

fun placed :: "span_tree \<Rightarrow> bool" where
  "placed (SpanTree d ts) = list_all (\<lambda>t. ParentSpanID (tree_data t) = SpanID d \<and> placed t) ts"

definition well_placed :: "spec_store \<Rightarrow> bool" where
  "well_placed a = list_all (\<lambda>t. placed t \<and> (allow a \<or> ParentSpanID (tree_data t) = [])) (forest a)"

lemma placed_iff:
  "placed t \<longleftrightarrow> (\<forall>u \<in> set (tree_kids t). ParentSpanID (tree_data u) = SpanID (tree_data t) \<and> placed u)"
  by (cases t) (simp add: list_all_iff)

lemma well_placed_iff:
  "well_placed a \<longleftrightarrow> (\<forall>t \<in> set (forest a). placed t \<and> (allow a \<or> ParentSpanID (tree_data t) = []))"
  by (simp add: well_placed_def list_all_iff)

lemma placed_modify:
  assumes "\<And>d. SpanID (f d) = SpanID d \<and> ParentSpanID (f d) = ParentSpanID d"
  shows "ParentSpanID (tree_data (modify_tree i f t)) = ParentSpanID (tree_data t)
    \<and> SpanID (tree_data (modify_tree i f t)) = SpanID (tree_data t)
    \<and> (placed t \<longrightarrow> placed (modify_tree i f t))"
proof (induction t)
  case (SpanTree d ts)
  then show ?case by (auto simp: list_all_iff assms)
qed

lemma tree_data_add [simp]: "tree_data (add_child i new t) = tree_data t"
  by (cases t) simp

lemma placed_add:
  assumes "placed new" and "ParentSpanID (tree_data new) = i" and "placed t"
  shows "placed (add_child i new t)"
  using assms(3)
proof (induction t)
  case (SpanTree d ts)
  then show ?case using assms(1,2) by (auto simp: list_all_iff)
qed

lemma prune_tree_data: "u \<in> set (prune_tree t) \<Longrightarrow> tree_data u = tree_data t"
  by (cases t) (auto split: if_splits)

lemma placed_prune: "placed t \<Longrightarrow> u \<in> set (prune_tree t) \<Longrightarrow> placed u"
proof (induction t arbitrary: u)
  case (SpanTree d ts)
  then have "u = SpanTree d (concat (map prune_tree ts))"
    by (auto split: if_splits)
  moreover have "ParentSpanID (tree_data v) = SpanID d \<and> placed v" if "v \<in> set (concat (map prune_tree ts))" for v
    using that SpanTree prune_tree_data by (fastforce simp: list_all_iff)
  ultimately show ?case by (auto simp: list_all_iff)
qed

lemma well_placed_sub:
  assumes "well_placed a" and "set f \<subseteq> set (forest a)"
  shows "well_placed (with_forest a f)"
  using assms by (auto simp: well_placed_iff with_forest_def)

lemma well_placed_modify:
  assumes "well_placed a" and "\<And>d. SpanID (f d) = SpanID d \<and> ParentSpanID (f d) = ParentSpanID d"
  shows "well_placed (modify_open i f a)"
proof -
  have "SpanID (unless_ended f d) = SpanID d \<and> ParentSpanID (unless_ended f d) = ParentSpanID d" for d
    using assms(2) by (simp add: unless_ended_def)
  from placed_modify [OF this] assms(1) show ?thesis
    by (auto simp: well_placed_iff modify_open_def)
qed

lemma well_placed_apply:
  assumes "well_placed a"
  shows "well_placed (spec_apply rt a record)"
proof -
  have "placed (SpanTree (started_span rt x) [])"
    and "ParentSpanID (started_span rt x) = SpanStarted_GetParentSpanId x" for x
    by (simp_all add: started_span_def)
  then have "well_placed (spec_started rt a x)" for x
    using assms by (auto simp: well_placed_iff spec_started_def Let_def intro!: placed_add)
  with assms show ?thesis
    by (auto simp: spec_apply_def Let_def updated_span_def ended_span_def event_span_def intro!: well_placed_modify)
qed

lemma well_placed_step: "well_placed a \<Longrightarrow> well_placed (spec_step rt a op)"
proof (cases op)
  case OpClearOpen
  assume a: "well_placed a"
  have "ParentSpanID (tree_data u) = ParentSpanID (tree_data t) \<and> placed u"
    if "u \<in> set (prune_tree t)" and "placed t" for t u
    using that by (simp add: prune_tree_data placed_prune)
  with a OpClearOpen show ?thesis
    by (fastforce simp: well_placed_iff spec_clear_open_def with_forest_def)
next
  case (OpApply r)
  assume "well_placed a"
  with OpApply show ?thesis by (simp add: well_placed_apply)
qed (auto simp: spec_limit_def spec_clear_def spec_mark_def well_placed_iff with_forest_def
    dest: in_set_dropD)

text \<open>C5: However records arrive and whatever is pruned or evicted in between, every span in the
  tree hangs under the span its \<open>ParentSpanID\<close> names, and the roots name no parent unless the
  store was made to admit unknown parents.\<close>

theorem store_run_placed:
  "\<exists>s a. run_steps (store_step rt) (NewStoreWithOptions opts) ops = Some s \<and> abs_store s = Some a
     \<and> well_placed a"
proof -
  have "well_placed (spec_new (AllowUnknownParents opts))"
    by (simp add: well_placed_def spec_new_def)
  from span_store.run_invariant [OF refines_new, of well_placed, OF this well_placed_step]
  show ?thesis using refines_abs_store by blast
qed

section \<open>Ended spans\<close>

text \<open>The same data, and children only added at the end.\<close>

definition frozen_as :: "span_state \<Rightarrow> span_state \<Rightarrow> bool" where
  "frozen_as sp sp' \<longleftrightarrow> sp'\<lparr>Children := []\<rparr> = sp\<lparr>Children := []\<rparr> \<and> prefix (Children sp) (Children sp')"

lemma frozen_as_refl [simp]: "frozen_as sp sp"
  by (simp add: frozen_as_def)

lemma frozen_as_trans: "frozen_as a b \<Longrightarrow> frozen_as b c \<Longrightarrow> frozen_as a c"
  by (auto simp: frozen_as_def)

lemma frozen_as_child: "frozen_as sp (sp\<lparr>Children := Children sp @ cs\<rparr>)"
  by (simp add: frozen_as_def)

lemma frozen_as_ended: "frozen_as sp sp' \<Longrightarrow> Ended sp' = Ended sp"
  unfolding frozen_as_def by (metis span_state.select_convs(10) span_state.surjective span_state.update_convs(9))

lemma applyStarted_frozen:
  assumes "applyStarted rt s started = Some s'" and "heap s p = Some sp" and "p < next_addr s"
  shows "\<exists>sp'. heap s' p = Some sp' \<and> frozen_as sp sp'"
  using assms frozen_as_child
  by (auto simp: applyStarted_def Let_def assign_def split: if_splits option.splits)

lemma apply_open_frozen:
  assumes "apply_open s i f = Some s'" and "heap s p = Some sp" and "Ended sp"
  shows "heap s' p = Some sp"
  using assms by (auto simp: apply_open_def assign_def split: if_splits option.splits)

lemma Apply_frozen:
  assumes "Apply rt s record = Some s'" and "heap s p = Some sp" and "Ended sp" and "p < next_addr s"
  shows "\<exists>sp'. heap s' p = Some sp' \<and> frozen_as sp sp'"
  using assms applyStarted_frozen apply_open_frozen frozen_as_refl
  unfolding Apply_def apply_open_updates
  by (auto split: if_splits option.splits case_Record_Kind.splits)

interpretation record_store: simulation refines "Apply rt" "spec_apply rt" for rt
  by unfold_locales (rule Apply_refines)

lemma Apply_run_frozen:
  assumes "store_wf s" and "heap s p = Some sp" and "Ended sp" and "run_steps (Apply rt) s records = Some s'"
  shows "\<exists>sp'. heap s' p = Some sp' \<and> frozen_as sp sp'"
  using assms
proof (induction records arbitrary: s sp)
  case (Cons r rs)
  obtain s1 where s1: "Apply rt s r = Some s1" "run_steps (Apply rt) s1 rs = Some s'" and wf: "store_wf s1"
  proof -
    obtain a where "refines s a" using Cons.prems(1) by (rule wf_refinesE)
    from Apply_refines [OF this, of rt r] obtain s1 where "Apply rt s r = Some s1" "store_wf s1"
      using refines_wf by blast
    with Cons.prems(4) that show thesis by simp
  qed
  have "p < next_addr s"
    using Cons.prems(1,2) store_shapeD(7) by (fastforce simp: store_wf_def)
  from Apply_frozen [OF s1(1) Cons.prems(2,3) this] obtain sp1
    where sp1: "heap s1 p = Some sp1" "frozen_as sp sp1" by blast
  then have "Ended sp1" using Cons.prems(3) frozen_as_ended by blast
  from Cons.IH [OF wf sp1(1) this s1(2)] sp1(2) show ?case
    using frozen_as_trans by blast
qed simp

text \<open>C6: Once a span has ended, no sequence of records changes its data: no update, no event,
  no second end. Only children that name it as their parent are still appended.\<close>

theorem ended_span_frozen:
  assumes "store_wf s" and "heap s p = Some sp" and "Ended sp"
  shows "\<exists>s' sp'. run_steps (Apply rt) s records = Some s' \<and> heap s' p = Some sp'
    \<and> sp'\<lparr>Children := []\<rparr> = sp\<lparr>Children := []\<rparr> \<and> prefix (Children sp) (Children sp')"
proof -
  obtain a where a: "refines s a" using assms(1) by (rule wf_refinesE)
  obtain s' where "run_steps (Apply rt) s records = Some s'"
    using record_store.run_simulates [OF a] by blast
  with Apply_run_frozen [OF assms this] show ?thesis
    by (auto simp: frozen_as_def)
qed

theorem ended_span_frozen_witness:
  "\<exists>s' sp'. run_steps (Apply ref_runtime) sample_store [end_record ''a'' 9, start_record ''d'' ''a'' 8] = Some s'
    \<and> heap s' 1 = Some sp' \<and> Ended sp'"
proof -
  obtain sp where "heap sample_store 1 = Some sp" "Ended sp"
    using sample_store_heap(1) by auto
  from ended_span_frozen [OF sample_store_wf this] this(2) show ?thesis
    by (metis span_state.select_convs(10) span_state.surjective span_state.update_convs(9))
qed

section \<open>Single records\<close>

text \<open>A record that starts a span the store does not know yet and does not refuse, and records for an open span.\<close>

lemma Apply_start_new:
  assumes wf: "store_wf s" and "Record_GetSpanStarted r = Some x" and new: "byID s (SpanStarted_GetSpanId (Some x)) = None"
    and "SpanStarted_GetSpanId (Some x) \<noteq> []"
    and taken: "SpanStarted_GetParentSpanId (Some x) = [] \<or> allowUnknownParents s \<or> byID s (SpanStarted_GetParentSpanId (Some x)) \<noteq> None"
  obtains s1 where "Apply rt s r = Some s1" and "store_wf s1"
    and "byID s1 = (byID s)(SpanStarted_GetSpanId (Some x) \<mapsto> next_addr s)"
    and "heap s1 (next_addr s) = Some (started_span rt (Some x))"
    and "\<And>q sp. byID s (SpanStarted_GetParentSpanId (Some x)) = Some q \<Longrightarrow> heap s q = Some sp \<Longrightarrow>
      roots s1 = roots s \<and> heap s1 q = Some (sp\<lparr>Children := Children sp @ [next_addr s]\<rparr>)"
proof -
  obtain b where b: "refines s b" using wf by (rule wf_refinesE)
  obtain s1 where s1: "Apply rt s r = Some s1" "refines s1 (spec_apply rt b r)" using Apply_refines [OF b] by blast
  have "Record_WhichKind r = Record_SpanStarted_case"
    using assms(2) Record_GetSpanStarted_kind [of r] by blast
  moreover have "r \<noteq> None"
    using assms(2) by (cases r) (auto simp: Record_getter_defs)
  ultimately have start: "applyStarted rt s (Some x) = Some s1" using s1(1) assms(2) by (simp add: Apply_def del: not_None_eq)
  obtain ts where ts: "store_shape s ts" using wf by (auto simp: store_wf_def)
  have fresh: "heap s (next_addr s) = None"
    using store_shapeD(7) [OF ts, of "next_addr s"] by (cases "heap s (next_addr s)") auto
  let ?i = "SpanStarted_GetSpanId (Some x)" and ?q = "SpanStarted_GetParentSpanId (Some x)"
  let ?a = "alloc_span s (started_span rt (Some x))"
  have a: "byID ?a = (byID s)(?i \<mapsto> next_addr s)" "heap ?a = (heap s)(next_addr s \<mapsto> started_span rt (Some x))" "roots ?a = roots s"
    by (simp_all add: alloc_span_def)
  have out: "(case byID s ?q of Some p \<Rightarrow> if heap ?a p = None then None else Some (?a\<lparr>heap := link (heap ?a) p (next_addr s)\<rparr>)
      | None \<Rightarrow> Some (?a\<lparr>roots := roots s @ [next_addr s]\<rparr>)) = Some s1"
    using start assms(4) new taken by (auto simp: applyStarted_eq Let_def simp del: not_None_eq split: option.splits)
  have here: "heap s q \<noteq> None" "q \<noteq> next_addr s" if "byID s ?q = Some q" for q
    using store_shapeD(4) [OF ts] that shape_alloc [OF ts, of q] fresh by (blast, metis)
  have "byID s1 = (byID s)(?i \<mapsto> next_addr s)"
    using out a(1) by (auto split: option.splits if_splits)
  moreover have "heap s1 (next_addr s) = Some (started_span rt (Some x))"
    using out a(2) here by (cases "byID s ?q") (auto simp: link_apply split: if_splits)
  moreover have "roots s1 = roots s \<and> heap s1 q = Some (sp\<lparr>Children := Children sp @ [next_addr s]\<rparr>)"
    if "byID s ?q = Some q" "heap s q = Some sp" for q sp
    using out a(2,3) here(2) [OF that(1)] that by (auto simp: link_apply)
  ultimately show thesis using that s1 refines_wf by blast
qed

lemma Apply_event_open:
  assumes "Record_GetSpanEvent r = Some e" and "byID s (SpanEvent_GetSpanId (Some e)) = Some p" and "heap s p = Some sp" and "\<not> Ended sp"
  shows "Apply rt s r = Some (s\<lparr>heap := (heap s)(p \<mapsto> event_span rt (Some e) sp)\<rparr>)"
proof -
  have "Record_WhichKind r = Record_SpanEvent_case"
    using assms(1) Record_GetSpanEvent_kind [of r] by blast
  moreover have "r \<noteq> None"
    using assms(1) by (cases r) (auto simp: Record_getter_defs)
  ultimately show ?thesis
    using assms by (simp add: Apply_def apply_open_updates apply_open_def assign_def del: not_None_eq)
qed

lemma Apply_end_open:
  assumes "Record_GetSpanEnded r = Some e" and "byID s (SpanEnded_GetSpanId (Some e)) = Some p" and "heap s p = Some sp" and "\<not> Ended sp"
  shows "Apply rt s r = Some (s\<lparr>heap := (heap s)(p \<mapsto> ended_span rt (Some e) sp)\<rparr>)"
proof -
  have "Record_WhichKind r = Record_SpanEnded_case"
    using assms(1) Record_GetSpanEnded_kind [of r] by blast
  moreover have "r \<noteq> None"
    using assms(1) by (cases r) (auto simp: Record_getter_defs)
  ultimately show ?thesis
    using assms by (simp add: Apply_def apply_open_updates apply_open_def assign_def del: not_None_eq)
qed

text \<open>The spans after a start and after a change of one span.\<close>

lemma tree_spans_add:
  "set (tree_spans (add_child q new t)) = set (tree_spans t)
     \<union> (if q \<in> SpanID ` set (tree_spans t) then set (tree_spans new) else {})"
proof (induction t)
  case (SpanTree d ts)
  then have "(\<Union>u \<in> set ts. set (tree_spans (add_child q new u))) = (\<Union>u \<in> set ts. set (tree_spans u))
      \<union> (if \<exists>u \<in> set ts. q \<in> SpanID ` set (tree_spans u) then set (tree_spans new) else {})"
    by (auto split: if_splits)
  then show ?case by auto
qed

lemma forest_spans_modify:
  "forest_spans (map (modify_tree i f) F) = map (\<lambda>d. if SpanID d = i then f d else d) (forest_spans F)"
  by (simp add: map_concat comp_def)

lemma spec_started_spans:
  "set (forest_spans (forest (spec_started rt a x))) \<subseteq> insert (started_span rt x) (set (forest_spans (forest a)))"
  by (auto simp: spec_started_def Let_def tree_spans_add split: if_splits)

section \<open>Pruning\<close>

text \<open>The IDs of spans that are closed and whose ancestors all are.\<close>

inductive closed_path :: "span_tree list \<Rightarrow> string \<Rightarrow> bool" where
  here: "t \<in> set f \<Longrightarrow> Ended (tree_data t) \<Longrightarrow> closed_path f (SpanID (tree_data t))"
| below: "t \<in> set f \<Longrightarrow> Ended (tree_data t) \<Longrightarrow> closed_path (tree_kids t) i \<Longrightarrow> closed_path f i"

inductive_simps closed_path_Nil: "closed_path [] i"

inductive_simps closed_path_iff: "closed_path f i"

lemma closed_path_Cons: "closed_path (t # f) i \<longleftrightarrow>
    Ended (tree_data t) \<and> (SpanID (tree_data t) = i \<or> closed_path (tree_kids t) i) \<or> closed_path f i"
  by (subst (1 3) closed_path_iff) auto

lemma forest_ids_simps [simp]:
  "forest_ids [] = []"
  "forest_ids (f @ g) = forest_ids f @ forest_ids g"
  "forest_ids (SpanTree d ts # f) = SpanID d # forest_ids ts @ forest_ids f"
  by (simp_all add: forest_ids_def)

lemma prune_forest_ids:
  assumes "\<And>t i. t \<in> set f \<Longrightarrow> i \<in> set (forest_ids (prune_tree t)) \<longleftrightarrow> closed_path [t] i"
  shows "i \<in> set (forest_ids (concat (map prune_tree f))) \<longleftrightarrow> closed_path f i"
  using assms by (induction f) (auto simp: closed_path_Cons closed_path_Nil)

lemma prune_tree_ids: "i \<in> set (forest_ids (prune_tree t)) \<longleftrightarrow> closed_path [t] i"
proof (induction t arbitrary: i)
  case (SpanTree d ts)
  from prune_forest_ids [OF this] show ?case
    by (auto simp: closed_path_Cons closed_path_Nil)
qed

lemma prune_forest_closed: "\<not> spec_open a \<Longrightarrow> concat (map prune_tree (forest a)) = forest a"
proof -
  assume "\<not> spec_open a"
  then have closed: "Ended d" if "t \<in> set (forest a)" "d \<in> set (tree_spans t)" for t d
    using that by (auto simp: spec_open_def)
  have "prune_tree t = [t]" if "t \<in> set (forest a)" for t
    using closed [OF that] by (rule prune_tree_all_closed)
  then have "map prune_tree (forest a) = map (\<lambda>t. [t]) (forest a)" by (intro map_cong) auto
  then show ?thesis by (simp only: concat_map_singleton map_ident)
qed

lemma refines_stale_dom: "refines s a \<Longrightarrow> dom (stale a) \<subseteq> set (forest_ids (forest a))"
  using store_shapeD(6) refines_ids unfolding refines_def by metis

text \<open>C7: \<open>ClearOpenSpans\<close> keeps exactly the spans that are closed together with all their
  ancestors, with their marks, and leaves no open span; a store without open spans is left
  as it is.\<close>

theorem ClearOpenSpans_keeps:
  assumes "store_wf s" and "abs_store s = Some a"
  shows "\<exists>s' a'. ClearOpenSpans s = Some s' \<and> store_wf s' \<and> abs_store s' = Some a'
    \<and> dom (byID s') = {i. closed_path (forest a) i} \<and> staleOpenAt s' = staleOpenAt s |` dom (byID s')
    \<and> HasOpenSpans s' = Some False \<and> (HasOpenSpans s = Some False \<longrightarrow> a' = a)"
proof -
  have a: "refines s a" using wf_refines_abs assms by fastforce
  obtain s' where s': "ClearOpenSpans s = Some s'" "refines s' (spec_clear_open a)"
    using ClearOpenSpans_refines [OF a] by blast
  have ids: "set (forest_ids (forest (spec_clear_open a))) = {i. closed_path (forest a) i}"
    by (simp add: spec_clear_open_def with_forest_def set_eq_iff prune_forest_ids [OF prune_tree_ids] del: set_concat)
  have "\<not> spec_open (spec_clear_open a)"
    using prune_tree_closed by (fastforce simp: spec_open_def spec_clear_open_def with_forest_def)
  moreover have "spec_clear_open a = a" if "HasOpenSpans s = Some False"
    using that HasOpenSpans_refines [OF a] prune_forest_closed [of a] refines_stale_dom [OF a]
    by (simp add: spec_clear_open_def with_forest_def restrict_map_id del: set_concat)
  moreover have "staleOpenAt s' = staleOpenAt s |` dom (byID s')"
    using s'(2) a refines_ids [OF s'(2)] by (auto simp: refines_def spec_clear_open_def with_forest_def)
  ultimately show ?thesis
    using s'(1) refines_ids [OF s'(2)] ids HasOpenSpans_refines [OF s'(2)] refines_abs_store [OF s'(2)]
      refines_wf [OF s'(2)] by simp
qed

theorem ClearOpenSpans_keeps_witness:
  "\<exists>s'. ClearOpenSpans sample_store = Some s' \<and> HasOpenSpans s' = Some False
    \<and> ''b'' \<notin> dom (byID s')"
proof -
  let ?a = "foldl (spec_step ref_runtime) (spec_new False) sample_ops"
  have a: "abs_store sample_store = Some ?a"
    by (rule refines_abs_store [OF sample_store_refines])
  have "''b'' \<notin> set (forest_ids (concat (map prune_tree (forest ?a))))"
    by code_simp
  then have "\<not> closed_path (forest ?a) ''b''"
    by (simp only: prune_forest_ids [OF prune_tree_ids] not_False_eq_True)
  with ClearOpenSpans_keeps [OF sample_store_wf a] show ?thesis by auto
qed

section \<open>Eviction\<close>

text \<open>C8: \<open>LimitRoots\<close> drops the oldest roots so that at most \<open>limit\<close> remain (none when it is not
  positive), keeps the later ones in order, and removes from the index and the stale marks
  exactly the spans of the dropped subtrees.\<close>

theorem LimitRoots_evicts:
  assumes "store_wf s" and "abs_store s = Some a"
  shows "\<exists>s' a'. LimitRoots s limit = Some s' \<and> store_wf s' \<and> abs_store s' = Some a'
    \<and> roots s' = drop (length (roots s) - nat limit) (roots s)
    \<and> int (length (roots s')) \<le> max 0 limit
    \<and> forest a' = drop (length (roots s) - nat limit) (forest a)
    \<and> dom (byID s') = set (forest_ids (forest a'))
    \<and> staleOpenAt s' = staleOpenAt s |` dom (byID s')"
proof -
  have a: "refines s a" using wf_refines_abs assms by fastforce
  obtain s' where s': "LimitRoots s limit = Some s'" "refines s' (spec_limit a limit)"
    using LimitRoots_refines [OF a] by blast
  have len: "length (forest a) = length (roots s)"
    using a by (auto simp: refines_def store_shape_def)
  have roots: "roots s' = drop (length (roots s) - nat limit) (roots s)"
    using s'(1) by (auto simp: LimitRoots_def Clear_def Let_def split: if_splits)
  moreover have "int (length (roots s')) \<le> max 0 limit"
    by (simp add: roots)
  moreover have "staleOpenAt s' = staleOpenAt s |` dom (byID s')"
    using s'(2) a refines_ids [OF s'(2)] by (auto simp: refines_def spec_limit_def with_forest_def)
  moreover have "forest (spec_limit a limit) = drop (length (roots s) - nat limit) (forest a)"
    by (simp add: spec_limit_def with_forest_def len)
  ultimately show ?thesis
    using s'(1) refines_ids [OF s'(2)] refines_abs_store [OF s'(2)] refines_wf [OF s'(2)] by simp
qed

theorem LimitRoots_evicts_witness:
  "\<exists>s'. LimitRoots sample_store 1 = Some s' \<and> roots s' = [3] \<and> staleOpenAt s' ''c'' = Some 5
    \<and> staleOpenAt s' ''b'' = None"
proof -
  let ?a = "foldl (spec_step ref_runtime) (spec_new False) sample_ops"
  have "forest_ids (drop 1 (forest ?a)) = [''c'']" and "staleOpenAt sample_store ''c'' = Some 5"
    by code_simp+
  with LimitRoots_evicts [OF sample_store_wf refines_abs_store [OF sample_store_refines], of 1]
  show ?thesis
    by (auto simp: sample_store_reads restrict_map_def)
qed

end
