(* ===== verification/Protocol.thy ===== *)
theory Protocol
  imports Store_Life
begin

text \<open>
  The contract between the SDK that publishes records and the store that applies them: the
  streams in which every record refers to a span that is open, each span starts once under a
  known parent of its trace, and nothing follows a span's end. \<open>Sdk_Protocol\<close> shows that the
  SDK publishes only such streams; here the store reconstructs exactly what such a stream says.
\<close>

section \<open>Well-formed streams\<close>

text \<open>What is known of a span: its trace and whether it has ended.\<close>

type_synonym life = "string \<rightharpoonup> string \<times> bool"

definition life_of_open :: "life \<Rightarrow> string \<Rightarrow> string \<Rightarrow> bool" where
  "life_of_open m i trace \<longleftrightarrow> m i = Some (trace, False)"

definition life_step :: "life \<Rightarrow> sap_record option \<Rightarrow> life option" where
  "life_step m r = (case Record_WhichKind r of
     Record_SpanStarted_case \<Rightarrow>
       (let x = Record_GetSpanStarted r; i = SpanStarted_GetSpanId x; q = SpanStarted_GetParentSpanId x;
            trace = SpanStarted_GetTraceId x
        in if x \<noteq> None \<and> i \<noteq> [] \<and> m i = None \<and> (q = [] \<or> map_option fst (m q) = Some trace)
           then Some (m(i \<mapsto> (trace, False))) else None)
   | Record_SpanUpdated_case \<Rightarrow>
       (let x = Record_GetSpanUpdated r
        in if x \<noteq> None \<and> life_of_open m (SpanUpdated_GetSpanId x) (SpanUpdated_GetTraceId x) then Some m else None)
   | Record_SpanEnded_case \<Rightarrow>
       (let x = Record_GetSpanEnded r; i = SpanEnded_GetSpanId x; trace = SpanEnded_GetTraceId x
        in if x \<noteq> None \<and> life_of_open m i trace then Some (m(i \<mapsto> (trace, True))) else None)
   | Record_SpanEvent_case \<Rightarrow>
       (let x = Record_GetSpanEvent r
        in if x \<noteq> None \<and> life_of_open m (SpanEvent_GetSpanId x) (SpanEvent_GetTraceId x) then Some m else None)
   | Record_Kind_not_set_case \<Rightarrow> None)"

section \<open>Forests of one trace\<close>

fun one_trace :: "span_tree \<Rightarrow> bool" where
  "one_trace (SpanTree d ts) \<longleftrightarrow> list_all (\<lambda>t. TraceID (tree_data t) = TraceID d \<and> one_trace t) ts"

lemma one_trace_modify:
  assumes "\<And>d. TraceID (f d) = TraceID d"
  shows "TraceID (tree_data (modify_tree i f t)) = TraceID (tree_data t) \<and> (one_trace t \<longrightarrow> one_trace (modify_tree i f t))"
proof (induction t)
  case (SpanTree d ts)
  then show ?case by (auto simp: list_all_iff assms)
qed

lemma one_trace_add:
  assumes "one_trace t" and "one_trace new"
    and "\<And>d. d \<in> set (tree_spans t) \<Longrightarrow> SpanID d = q \<Longrightarrow> TraceID d = TraceID (tree_data new)"
  shows "one_trace (add_child q new t)"
  using assms(1,3)
proof (induction t)
  case (SpanTree d ts)
  have sub: "\<forall>u \<in> set ts. TraceID (tree_data u) = TraceID d \<and> one_trace u"
    using SpanTree.prems(1) by (simp add: list_all_iff)
  have "one_trace (add_child q new u)" if u: "u \<in> set ts" for u
  proof (rule SpanTree.IH [OF u])
    show "one_trace u" using sub u by simp
    show "TraceID e = TraceID (tree_data new)" if "e \<in> set (tree_spans u)" "SpanID e = q" for e
      using SpanTree.prems(2) [of e] that u by auto
  qed
  moreover have "TraceID (tree_data new) = TraceID d" if "SpanID d = q"
    using SpanTree.prems(2) [of d] that by simp
  ultimately show ?case using sub assms(2) by (auto simp: list_all_iff)
qed

section \<open>What the store makes of a stream\<close>

definition follows :: "spec_store \<Rightarrow> life \<Rightarrow> bool" where
  "follows a m \<longleftrightarrow> \<not> allow a \<and> set (forest_ids (forest a)) = dom m
     \<and> (\<forall>d \<in> set (forest_spans (forest a)). m (SpanID d) = Some (TraceID d, Ended d))
     \<and> (\<forall>t \<in> set (forest a). one_trace t)"

lemma forest_ids_set: "set (forest_ids f) = SpanID ` set (forest_spans f)"
  by (simp add: forest_ids_def)

lemma follows_started:
  assumes "follows a m" and "SpanStarted_GetSpanId x = i" and "i \<noteq> []" and "m i = None"
    and "SpanStarted_GetTraceId x = trace"
    and "SpanStarted_GetParentSpanId x = [] \<or> map_option fst (m (SpanStarted_GetParentSpanId x)) = Some trace"
    and "m [] = None"
  shows "follows (spec_started rt a x) (m(i \<mapsto> (trace, False)))"
proof -
  let ?q = "SpanStarted_GetParentSpanId x" and ?new = "SpanTree (started_span rt x) []"
  have ids: "set (forest_ids (forest a)) = dom m" and not_allow: "\<not> allow a"
    and data: "\<And>d. d \<in> set (forest_spans (forest a)) \<Longrightarrow> m (SpanID d) = Some (TraceID d, Ended d)"
    and one: "\<And>t. t \<in> set (forest a) \<Longrightarrow> one_trace t"
    using assms(1) by (auto simp: follows_def)
  have new: "SpanID (started_span rt x) = i" "TraceID (started_span rt x) = trace" "\<not> Ended (started_span rt x)"
    using assms(2,5) by (simp_all add: started_span_def)
  have fresh: "i \<notin> set (forest_ids (forest a))" using ids assms(4) by auto
  have out: "m (SpanID d) = (m(i \<mapsto> (trace, False))) (SpanID d)" if "d \<in> set (forest_spans (forest a))" for d
    using that fresh by (auto simp: forest_ids_set)
  show ?thesis
  proof (cases "?q = []")
    case True
    then have "?q \<notin> set (forest_ids (forest a))" using ids assms(7) by auto
    then have a': "spec_started rt a x = a\<lparr>forest := forest a @ [?new]\<rparr>"
      using True fresh assms(2,3) by (simp add: spec_started_def Let_def)
    show ?thesis
      unfolding follows_def a' using not_allow ids new data one out
      by (auto simp: forest_ids_def)
  next
    case False
    with assms(6) obtain e where q: "m ?q = Some (trace, e)" by auto
    then have qin: "?q \<in> set (forest_ids (forest a))" using ids by auto
    then have a': "spec_started rt a x = a\<lparr>forest := map (add_child ?q ?new) (forest a)\<rparr>"
      using fresh assms(2,3) by (simp add: spec_started_def Let_def)
    have "\<exists>t \<in> set (forest a). ?q \<in> SpanID ` set (tree_spans t)"
      using qin by (auto simp: forest_ids_set)
    then have spans: "set (forest_spans (map (add_child ?q ?new) (forest a))) = insert (started_span rt x) (set (forest_spans (forest a)))"
      by (auto simp: tree_spans_add split: if_splits)
    have "one_trace (add_child ?q ?new t)" if "t \<in> set (forest a)" for t
    proof (rule one_trace_add)
      fix d assume "d \<in> set (tree_spans t)" and "SpanID d = ?q"
      moreover from this that have "d \<in> set (forest_spans (forest a))" by auto
      ultimately show "TraceID d = TraceID (tree_data ?new)" using data [of d] q new(2) by simp
    qed (use one [OF that] in auto)
    moreover have "set (forest_ids (map (add_child ?q ?new) (forest a))) = insert i (dom m)"
      unfolding forest_ids_set spans using ids new(1) by (simp add: forest_ids_set del: set_concat)
    moreover have "(m(i \<mapsto> (trace, False))) (SpanID d) = Some (TraceID d, Ended d)"
      if d: "d \<in> set (forest_spans (map (add_child ?q ?new) (forest a)))" for d
    proof -
      consider "d = started_span rt x" | "d \<in> set (forest_spans (forest a))"
        using d unfolding spans by blast
      then show ?thesis using new data out by cases auto
    qed
    ultimately show ?thesis
      using not_allow by (simp add: follows_def a' del: set_concat)
  qed
qed

lemma follows_modify:
  assumes "follows a m" and "m i = Some (trace, False)"
    and f: "\<And>d. SpanID (f d) = SpanID d \<and> TraceID (f d) = TraceID d"
    and ended: "\<And>d. Ended (f d) \<longleftrightarrow> Ended d \<or> e"
  shows "follows (modify_open i f a) (m(i \<mapsto> (trace, e)))"
proof -
  have data: "m (SpanID d) = Some (TraceID d, Ended d)" if "d \<in> set (forest_spans (forest a))" for d
    using assms(1) that by (auto simp: follows_def)
  have spans: "forest_spans (forest (modify_open i f a))
      = map (\<lambda>d. if SpanID d = i then unless_ended f d else d) (forest_spans (forest a))"
  proof -
    have "forest (modify_open i f a) = map (modify_tree i (unless_ended f)) (forest a)"
      by (simp add: modify_open_def)
    then show ?thesis by (simp only: forest_spans_modify)
  qed
  have keep: "SpanID (unless_ended f d) = SpanID d" "TraceID (unless_ended f d) = TraceID d" for d
    using f by (simp_all add: unless_ended_def)
  have "map SpanID (forest_spans (forest (modify_open i f a))) = map SpanID (forest_spans (forest a))"
    unfolding spans using keep(1) by simp
  then have ids: "set (forest_ids (forest (modify_open i f a))) = dom m"
    using assms(1) by (simp add: forest_ids_def follows_def)
  have "(m(i \<mapsto> (trace, e))) (SpanID d) = Some (TraceID d, Ended d)"
    if d: "d \<in> set (forest_spans (forest (modify_open i f a)))" for d
  proof -
    obtain c where c: "c \<in> set (forest_spans (forest a))" "d = (if SpanID c = i then unless_ended f c else c)"
      using d unfolding spans set_map by blast
    show ?thesis
      using data [OF c(1)] c(2) assms(2) f ended by (auto simp: unless_ended_def)
  qed
  moreover have "one_trace t" if "t \<in> set (forest (modify_open i f a))" for t
    using that one_trace_modify [OF keep(2)] assms(1) by (auto simp: modify_open_def follows_def)
  moreover have "dom (m(i \<mapsto> (trace, e))) = dom m" using assms(2) by auto
  moreover have "\<not> allow (modify_open i f a)" using assms(1) by (simp add: follows_def modify_open_def)
  ultimately show ?thesis using ids by (simp add: follows_def)
qed

lemma follows_same: "follows a m \<Longrightarrow> m i = Some v \<Longrightarrow> follows a (m(i \<mapsto> v)) = follows a m"
  by (simp add: fun_upd_idem)

lemma follows_step:
  assumes "follows a m" and "m [] = None" and "life_step m r = Some m'"
  shows "follows (spec_apply rt a r) m' \<and> m' [] = None"
proof -
  have upd: "follows (modify_open i f a) m" if "m i = Some (trace, False)"
      "\<And>d. SpanID (f d) = SpanID d \<and> TraceID (f d) = TraceID d \<and> Ended (f d) = Ended d" for i trace f
    using follows_modify [OF assms(1) that(1), of f False] that by (simp add: fun_upd_idem)
  show ?thesis
  proof (cases "Record_WhichKind r")
    case Record_SpanStarted_case
    let ?x = "Record_GetSpanStarted r"
    from assms(3) Record_SpanStarted_case have x: "?x \<noteq> None" "SpanStarted_GetSpanId ?x \<noteq> []"
        "m (SpanStarted_GetSpanId ?x) = None"
        "SpanStarted_GetParentSpanId ?x = [] \<or> map_option fst (m (SpanStarted_GetParentSpanId ?x)) = Some (SpanStarted_GetTraceId ?x)"
        "m' = m(SpanStarted_GetSpanId ?x \<mapsto> (SpanStarted_GetTraceId ?x, False))"
      by (auto simp: life_step_def Let_def split: if_splits)
    have "spec_apply rt a r = spec_started rt a ?x" using x(1) by (simp add: spec_apply_def)
    with follows_started [OF assms(1) refl x(2,3) refl x(4) assms(2)] x(2,5) assms(2) show ?thesis by simp
  next
    case Record_SpanUpdated_case
    let ?x = "Record_GetSpanUpdated r"
    from assms(3) Record_SpanUpdated_case have x: "?x \<noteq> None" "m' = m"
        "m (SpanUpdated_GetSpanId ?x) = Some (SpanUpdated_GetTraceId ?x, False)"
      by (auto simp: life_step_def life_of_open_def Let_def split: if_splits)
    have "spec_apply rt a r = modify_open (SpanUpdated_GetSpanId ?x) (updated_span rt ?x) a"
      using x(1) Record_SpanUpdated_case Record_GetSpanStarted_kind [of r] by (auto simp: spec_apply_def Let_def)
    with upd [OF x(3), of "updated_span rt ?x"] x(2) assms(2) show ?thesis by (simp add: updated_span_def)
  next
    case Record_SpanEnded_case
    let ?x = "Record_GetSpanEnded r"
    from assms(3) Record_SpanEnded_case have x: "?x \<noteq> None" "m (SpanEnded_GetSpanId ?x) = Some (SpanEnded_GetTraceId ?x, False)"
        "m' = m(SpanEnded_GetSpanId ?x \<mapsto> (SpanEnded_GetTraceId ?x, True))"
      by (auto simp: life_step_def life_of_open_def Let_def split: if_splits)
    have "spec_apply rt a r = modify_open (SpanEnded_GetSpanId ?x) (ended_span rt ?x) a"
      using x(1) Record_SpanEnded_case Record_GetSpanStarted_kind [of r] Record_GetSpanUpdated_kind [of r]
      by (auto simp: spec_apply_def Let_def)
    with follows_modify [OF assms(1) x(2), of "ended_span rt ?x" True] x(2,3) assms(2) show ?thesis
      by (auto simp: ended_span_def)
  next
    case Record_SpanEvent_case
    let ?x = "Record_GetSpanEvent r"
    from assms(3) Record_SpanEvent_case have x: "?x \<noteq> None" "m' = m"
        "m (SpanEvent_GetSpanId ?x) = Some (SpanEvent_GetTraceId ?x, False)"
      by (auto simp: life_step_def life_of_open_def Let_def split: if_splits)
    have "spec_apply rt a r = modify_open (SpanEvent_GetSpanId ?x) (event_span rt ?x) a"
      using x(1) Record_SpanEvent_case Record_GetSpanStarted_kind [of r] Record_GetSpanUpdated_kind [of r]
        Record_GetSpanEnded_kind [of r]
      by (auto simp: spec_apply_def Let_def)
    with upd [OF x(3), of "event_span rt ?x"] x(2) assms(2) show ?thesis by (simp add: event_span_def)
  qed (use assms(3) in \<open>simp add: life_step_def\<close>)
qed

text \<open>
  What a stream tells of each span, by its ID: every record gives the data of the span it refers
  to, in the order of the stream and with no condition. A start gives a fresh span, an update,
  an event and an end change the data the earlier records gave.
\<close>

fun tell :: "pb_runtime \<Rightarrow> (string \<rightharpoonup> span_state) \<Rightarrow> sap_record option \<Rightarrow> string \<rightharpoonup> span_state" where
  "tell rt f r = (case Record_WhichKind r of
     Record_SpanStarted_case \<Rightarrow> (let x = Record_GetSpanStarted r in f(SpanStarted_GetSpanId x \<mapsto> started_span rt x))
   | Record_SpanUpdated_case \<Rightarrow> (let x = Record_GetSpanUpdated r; i = SpanUpdated_GetSpanId x
       in f(i := map_option (updated_span rt x) (f i)))
   | Record_SpanEnded_case \<Rightarrow> (let x = Record_GetSpanEnded r; i = SpanEnded_GetSpanId x
       in f(i := map_option (ended_span rt x) (f i)))
   | Record_SpanEvent_case \<Rightarrow> (let x = Record_GetSpanEvent r; i = SpanEvent_GetSpanId x
       in f(i := map_option (event_span rt x) (f i)))
   | Record_Kind_not_set_case \<Rightarrow> f)"

definition told :: "pb_runtime \<Rightarrow> sap_record option list \<Rightarrow> string \<rightharpoonup> span_state" where
  "told rt log = foldl (tell rt) Map.empty log"

definition holds_told :: "spec_store \<Rightarrow> (string \<rightharpoonup> span_state) \<Rightarrow> bool" where
  "holds_told a f \<longleftrightarrow> (\<forall>d \<in> set (forest_spans (forest a)). f (SpanID d) = Some d)"

lemma holds_told_started:
  assumes "holds_told a f" and "SpanStarted_GetSpanId x \<notin> set (forest_ids (forest a))"
  shows "holds_told (spec_started rt a x) (f(SpanStarted_GetSpanId x \<mapsto> started_span rt x))"
proof -
  have "SpanID d \<noteq> SpanStarted_GetSpanId x" if "d \<in> set (forest_spans (forest a))" for d
    using assms(2) that unfolding forest_ids_set by force
  then show ?thesis
    using assms(1) spec_started_spans [of rt a x] unfolding holds_told_def by (fastforce simp del: set_concat)
qed

lemma holds_told_modify:
  assumes "holds_told a f" and "follows a m" and "m i = Some (trace, False)" and "\<And>d. SpanID (g d) = SpanID d"
  shows "holds_told (modify_open i g a) (f(i := map_option g (f i)))"
proof -
  have "unless_ended g d = g d" if "d \<in> set (forest_spans (forest a))" "SpanID d = i" for d
    using assms(2,3) that by (auto simp: follows_def unless_ended_def)
  moreover have "forest (modify_open i g a) = map (modify_tree i (unless_ended g)) (forest a)"
    by (simp add: modify_open_def)
  then have "forest_spans (forest (modify_open i g a))
      = map (\<lambda>d. if SpanID d = i then unless_ended g d else d) (forest_spans (forest a))"
    by (simp only: forest_spans_modify)
  ultimately show ?thesis
    using assms(1,4) by (auto simp: holds_told_def)
qed

lemma holds_told_step:
  assumes "holds_told a f" and "follows a m" and "life_step m r = Some m'"
  shows "holds_told (spec_apply rt a r) (tell rt f r)"
proof -
  note kinds = Record_GetSpanStarted_kind [of r] Record_GetSpanUpdated_kind [of r] Record_GetSpanEnded_kind [of r]
  show ?thesis
  proof (cases "Record_WhichKind r")
    case Record_SpanStarted_case
    with assms(2,3) have "Record_GetSpanStarted r \<noteq> None"
        "SpanStarted_GetSpanId (Record_GetSpanStarted r) \<notin> set (forest_ids (forest a))"
      by (auto simp: life_step_def follows_def Let_def split: if_splits)
    with holds_told_started [OF assms(1)] Record_SpanStarted_case show ?thesis
      by (simp add: spec_apply_def Let_def)
  qed (use assms(3) kinds holds_told_modify [OF assms(1,2)] in
      \<open>auto simp: life_step_def life_of_open_def spec_apply_def updated_span_def ended_span_def event_span_def Let_def split: if_splits\<close>)
qed

lemma follows_run:
  assumes "follows a m" and "m [] = None" and "holds_told a f" and "run_steps life_step m log = Some m'"
  shows "follows (foldl (spec_apply rt) a log) m' \<and> holds_told (foldl (spec_apply rt) a log) (foldl (tell rt) f log)"
  using assms
proof (induction log arbitrary: a m f)
  case (Cons r log)
  then obtain m1 where m1: "life_step m r = Some m1" "run_steps life_step m1 log = Some m'"
    by (auto split: option.splits)
  from follows_step [OF Cons.prems(1,2) m1(1), of rt] holds_told_step [OF Cons.prems(3,1) m1(1), of rt] Cons.IH [OF _ _ _ m1(2)]
  show ?case by (simp del: tell.simps)
qed simp

lemma life_records: "run_steps life_step m rs = Some m' \<Longrightarrow> None \<notin> set rs"
  by (induction rs arbitrary: m) (auto simp: life_step_def Record_WhichKind_def split: option.splits)

lemma store_follows:
  assumes "run_steps life_step Map.empty log = Some m"
  shows "\<exists>s a. run_steps (Apply rt) NewStore log = Some s \<and> abs_store s = Some a \<and> follows a m
    \<and> distinct (forest_ids (forest a)) \<and> holds_told a (told rt log)"
proof -
  let ?a = "foldl (spec_apply rt) (spec_new False) log"
  have "follows (spec_new False) Map.empty"
    by (simp add: follows_def spec_new_def)
  from follows_run [OF this _ _ assms, of Map.empty rt] have follows: "follows ?a m" "holds_told ?a (told rt log)"
    by (simp_all add: holds_told_def told_def spec_new_def)
  have "refines NewStore (spec_new False)"
    using refines_new [of "\<lparr>AllowUnknownParents = False\<rparr>"] by (simp add: NewStore_def)
  from record_store.run_simulates [OF this] obtain s
    where s: "run_steps (Apply rt) NewStore log = Some s" "refines s ?a" by blast
  then obtain ts where "store_shape s ts" "forest ?a = map (abs_shape (heap s)) ts" by (auto simp: refines_def)
  then have "distinct (forest_ids (forest ?a))" using shape_ids_distinct by simp
  with follows s refines_abs_store [OF s(2)] show ?thesis by blast
qed

text \<open>C19: A store without unknown parents reconstructs a well-formed stream completely: the tree
  holds exactly the spans the stream started, each once; the data of every span, its attributes,
  events, times and end included, are what all records of the stream that refer to it give when
  they are put in one after the other, so no record is ignored; and every tree is one trace.\<close>

theorem store_reconstructs:
  assumes "run_steps life_step Map.empty log = Some m"
  shows "\<exists>s a. run_steps (Apply rt) NewStore log = Some s \<and> abs_store s = Some a
    \<and> set (forest_ids (forest a)) = dom m \<and> distinct (forest_ids (forest a))
    \<and> (\<forall>d \<in> set (forest_spans (forest a)). told rt log (SpanID d) = Some d \<and> m (SpanID d) = Some (TraceID d, Ended d))
    \<and> (\<forall>t \<in> set (forest a). one_trace t)"
  using store_follows [OF assms, of rt] unfolding follows_def holds_told_def by blast

theorem store_reconstructs_witness:
  "let log = [start_record ''a'' [] 1, start_record ''b'' ''a'' 2, end_record ''a'' 3]
   in \<exists>s a. run_steps (Apply ref_runtime) NewStore log = Some s \<and> abs_store s = Some a
     \<and> {''a'', ''b''} \<subseteq> set (forest_ids (forest a))
     \<and> (\<exists>d \<in> set (forest_spans (forest a)). SpanID d = ''a'' \<and> Ended d \<and> StartedAt d = 1 \<and> EndedAt d = 3)"
proof -
  let ?log = "[start_record ''a'' [] 1, start_record ''b'' ''a'' 2, end_record ''a'' 3]"
  have "map_option (\<lambda>m. (m ''a'', m ''b'')) (run_steps life_step Map.empty ?log) = Some (Some (''t'', True), Some (''t'', False))"
    by code_simp
  then obtain m where m: "run_steps life_step Map.empty ?log = Some m" "m ''a'' = Some (''t'', True)" "m ''b'' = Some (''t'', False)"
    by (auto simp del: run_steps.simps)
  obtain s a where s: "run_steps (Apply ref_runtime) NewStore ?log = Some s" "abs_store s = Some a"
      "set (forest_ids (forest a)) = dom m"
      "\<forall>d \<in> set (forest_spans (forest a)). told ref_runtime ?log (SpanID d) = Some d \<and> m (SpanID d) = Some (TraceID d, Ended d)"
    using store_reconstructs [OF m(1), of ref_runtime] by blast
  have ids: "{''a'', ''b''} \<subseteq> set (forest_ids (forest a))" using m(2,3) s(3) by auto
  then have "''a'' \<in> SpanID ` set (forest_spans (forest a))"
    unfolding forest_ids_set by (simp del: set_concat)
  then obtain d where d: "d \<in> set (forest_spans (forest a))" "SpanID d = ''a''"
    by (elim imageE) simp
  have "map_option (\<lambda>d. (Ended d, StartedAt d, EndedAt d)) (told ref_runtime ?log ''a'') = Some (True, 1, 3)"
    by code_simp
  then have "Ended d \<and> StartedAt d = 1 \<and> EndedAt d = 3" using s(4) [rule_format, OF d(1)] d(2) by simp
  with d s(1,2) ids show ?thesis unfolding Let_def by blast
qed

end
