(* ===== verification/Sdk_Protocol.thy ===== *)
theory Sdk_Protocol
  imports Sdk_Props Protocol
begin

text \<open>
  The SDK keeps the protocol: whatever is called on spans of one hub, what a subscriber
  receives is a well-formed stream, and a store that applies it holds the SDK's spans.
\<close>

section \<open>The records of a span\<close>

lemma stringOrNil_value [simp]: "value_or [] (stringOrNil v) = v"
  by (simp add: stringOrNil_def)

lemma kind_simps:
  "Record_WhichKind (Some (started_record rt e t sp name attrs)) = Record_SpanStarted_case"
  "Record_WhichKind (Some (updated_record rt e sp attrs)) = Record_SpanUpdated_case"
  "Record_WhichKind (Some (event_record_of rt e at sp name cfg)) = Record_SpanEvent_case"
  "Record_WhichKind (Some (ended_record rt e t sp tt msg)) = Record_SpanEnded_case"
  by (simp_all add: Record_WhichKind_def Record_Build_Kind empty_Record_builder_def started_record_def
      updated_record_def event_record_of_def ended_record_def)

lemma message_simps:
  "Record_GetSpanStarted (Some (started_record rt e t sp name attrs)) = Some (SpanStarted_Build rt \<lparr>
       stb_TraceId = Some (sp_traceID sp), stb_SpanId = Some (sp_spanID sp),
       stb_ParentSpanId = stringOrNil (sp_parentID sp), stb_Name = Some name,
       stb_StartedAt = Some t, stb_Attributes = cloneAttributes rt attrs\<rparr>)"
  "Record_GetSpanUpdated (Some (updated_record rt e sp attrs)) = Some (SpanUpdated_Build rt \<lparr>
       upb_TraceId = Some (sp_traceID sp), upb_SpanId = Some (sp_spanID sp), upb_Attributes = cloneAttributes rt attrs\<rparr>)"
  "Record_GetSpanEvent (Some (event_record_of rt e at sp name cfg)) = Some (SpanEvent_Build rt \<lparr>
       evb_TraceId = Some (sp_traceID sp), evb_SpanId = Some (sp_spanID sp), evb_Name = Some name,
       evb_EventAt = Some (TimestampNew rt at), evb_Attributes = cloneAttributes rt (cfg_attrs cfg),
       evb_Severity = (if cfg_severity cfg \<noteq> SEVERITY_UNSPECIFIED then Some (cfg_severity cfg) else None)\<rparr>)"
  "Record_GetSpanEnded (Some (ended_record rt e t sp tt msg)) = Some (SpanEnded_Build rt \<lparr>
       enb_TraceId = Some (sp_traceID sp), enb_SpanId = Some (sp_spanID sp), enb_EndedAt = Some t,
       enb_TerminalType = Some tt, enb_ErrorMessage = stringOrNil msg\<rparr>)"
  by (simp_all add: Record_getter_defs Record_Build_Kind empty_Record_builder_def started_record_def
      updated_record_def event_record_of_def ended_record_def)

lemmas span_records = kind_simps message_simps

section \<open>Tracking\<close>

text \<open>The random source has not repeated itself so far.\<close>

definition fresh_upto :: "go_env \<Rightarrow> nat \<Rightarrow> bool" where
  "fresh_upto env n \<longleftrightarrow> (\<forall>j k. j < k \<longrightarrow> k < n \<longrightarrow> env_rand env j 16 \<noteq> env_rand env k 16)"

lemma fresh_upto_mono: "fresh_upto env n \<Longrightarrow> m \<le> n \<Longrightarrow> fresh_upto env m"
  by (auto simp: fresh_upto_def)

lemma fresh_random_id:
  assumes "env_ok env" and "fresh_upto env n" and "j < k" and "k < n"
  shows "random_id env j \<noteq> random_id env k"
proof -
  obtain a b where "env_rand env j 16 = Inr a" "env_rand env k 16 = Inr b"
    using assms(1) unfolding env_ok_def by blast
  moreover have "env_rand env j 16 \<noteq> env_rand env k 16"
    using assms(2-4) by (simp add: fresh_upto_def)
  ultimately show ?thesis by (simp add: random_id_def EncodeToString_inj)
qed

text \<open>What the stream says of the spans is what the SDK holds.\<close>

definition tracks :: "go_env \<Rightarrow> sdk \<Rightarrow> life \<Rightarrow> bool" where
  "tracks env s m \<longleftrightarrow>
     (\<forall>p sp. sdk_spans s p = Some sp \<longrightarrow> (if sp_hub sp = None then sp_traceID sp = []
        else m (sp_spanID sp) = Some (sp_traceID sp, sp_ended sp) \<and> sp_spanID sp \<noteq> [] \<and> sp_traceID sp \<noteq> []))
   \<and> (\<forall>p q sp sq. sdk_spans s p = Some sp \<longrightarrow> sdk_spans s q = Some sq \<longrightarrow> sp_hub sp \<noteq> None \<longrightarrow> sp_hub sq \<noteq> None
        \<longrightarrow> sp_spanID sp = sp_spanID sq \<longrightarrow> p = q)
   \<and> (\<forall>i \<in> dom m. (\<exists>k < sdk_ticks s. i = random_id env k) \<and> (\<exists>p sp. sdk_spans s p = Some sp \<and> sp_hub sp \<noteq> None \<and> sp_spanID sp = i))"

lemma tracksD:
  assumes "tracks env s m" and "sdk_spans s p = Some sp"
  shows "sp_hub sp = None \<Longrightarrow> sp_traceID sp = []"
    and "sp_hub sp \<noteq> None \<Longrightarrow> m (sp_spanID sp) = Some (sp_traceID sp, sp_ended sp)"
    and "sp_hub sp \<noteq> None \<Longrightarrow> sp_spanID sp \<noteq> []"
    and "sp_hub sp \<noteq> None \<Longrightarrow> sp_traceID sp \<noteq> []"
    and "sdk_spans s q = Some sq \<Longrightarrow> sp_hub sp \<noteq> None \<Longrightarrow> sp_hub sq \<noteq> None \<Longrightarrow> sp_spanID sp = sp_spanID sq \<Longrightarrow> p = q"
  using assms unfolding tracks_def by (auto split: if_splits)

lemma tracks_dom:
  assumes "tracks env s m" and "m i = Some v"
  shows "\<exists>k < sdk_ticks s. i = random_id env k"
    and "\<exists>p sp. sdk_spans s p = Some sp \<and> sp_hub sp \<noteq> None \<and> sp_spanID sp = i"
  using assms unfolding tracks_def by blast+

lemma used_id_mono: "\<exists>k < m. i = random_id env k \<Longrightarrow> m \<le> n \<Longrightarrow> \<exists>k < n. i = random_id env k"
  using order_less_le_trans by blast

lemma tracks_same:
  assumes "tracks env s m" and "sdk_spans s' = sdk_spans s" and "sdk_ticks s \<le> sdk_ticks s'"
  shows "tracks env s' m"
proof -
  have "\<exists>k < sdk_ticks s'. i = random_id env k" if "\<exists>k < sdk_ticks s. i = random_id env k" for i
    using that assms(3) by (rule used_id_mono)
  with assms(1) show ?thesis unfolding tracks_def assms(2) by simp
qed

lemma tracks_inert:
  assumes "tracks env s m" and "sdk_spans s p = None" and "sp_hub sp = None" and "sp_traceID sp = []"
    and "sdk_spans s' = (sdk_spans s)(p \<mapsto> sp)" and "sdk_ticks s \<le> sdk_ticks s'"
  shows "tracks env s' m"
proof -
  have other: "sdk_spans s q = Some sq" if "sdk_spans s' q = Some sq" "sp_hub sq \<noteq> None" for q sq
    using that assms(3,5) by (auto split: if_splits)
  show ?thesis
    unfolding tracks_def
  proof (intro conjI allI ballI impI)
    fix q sq assume q: "sdk_spans s' q = Some sq"
    show "if sp_hub sq = None then sp_traceID sq = [] else m (sp_spanID sq) = Some (sp_traceID sq, sp_ended sq)
        \<and> sp_spanID sq \<noteq> [] \<and> sp_traceID sq \<noteq> []"
    proof (cases "sp_hub sq = None")
      case True
      with q assms(4,5) tracksD(1) [OF assms(1)] show ?thesis by (auto split: if_splits)
    next
      case False
      with tracksD(2-4) [OF assms(1) other [OF q False]] show ?thesis by simp
    qed
  next
    fix i assume "i \<in> dom m"
    then obtain v where v: "m i = Some v" by auto
    from tracks_dom(1) [OF assms(1) v] assms(6) show "\<exists>k < sdk_ticks s'. i = random_id env k"
      by (rule used_id_mono)
    from tracks_dom(2) [OF assms(1) v] assms(2,5)
    show "\<exists>p sp. sdk_spans s' p = Some sp \<and> sp_hub sp \<noteq> None \<and> sp_spanID sp = i" by (metis fun_upd_apply option.distinct(1))
  next
    fix p q sp sq
    assume "sdk_spans s' p = Some sp" "sdk_spans s' q = Some sq" "sp_hub sp \<noteq> None" "sp_hub sq \<noteq> None"
      "sp_spanID sp = sp_spanID sq"
    with other tracksD(5) [OF assms(1)] show "p = q" by metis
  qed
qed

lemma tracks_started:
  assumes "tracks env s m" and "sdk_spans s p = None" and "sp_hub sp \<noteq> None" and "\<not> sp_ended sp"
    and "sp_spanID sp = random_id env (sdk_ticks s)" and "sp_traceID sp \<noteq> []" and "sp_spanID sp \<noteq> []"
    and "m (sp_spanID sp) = None"
    and "sdk_spans s' = (sdk_spans s)(p \<mapsto> sp)" and "sdk_ticks s < sdk_ticks s'"
  shows "tracks env s' (m(sp_spanID sp \<mapsto> (sp_traceID sp, False)))"
proof -
  let ?m = "m(sp_spanID sp \<mapsto> (sp_traceID sp, False))"
  have old: "sp_spanID sq \<noteq> sp_spanID sp" if "sdk_spans s q = Some sq" "sp_hub sq \<noteq> None" for q sq
    using tracksD(2) [OF assms(1) that] assms(8) by auto
  show ?thesis
    unfolding tracks_def
  proof (intro conjI allI ballI impI)
    fix q sq assume q: "sdk_spans s' q = Some sq"
    show "if sp_hub sq = None then sp_traceID sq = [] else ?m (sp_spanID sq) = Some (sp_traceID sq, sp_ended sq)
        \<and> sp_spanID sq \<noteq> [] \<and> sp_traceID sq \<noteq> []"
    proof (cases "q = p")
      case True
      with q assms(3-9) show ?thesis by auto
    next
      case False
      then have "sdk_spans s q = Some sq" using q assms(9) by simp
      with tracksD(1-4) [OF assms(1) this] old [OF this] show ?thesis by auto
    qed
  next
    fix i assume "i \<in> dom ?m"
    then consider "i = sp_spanID sp" | v where "m i = Some v" by (auto split: if_splits)
    then show "\<exists>k < sdk_ticks s'. i = random_id env k"
      using tracks_dom(1) [OF assms(1)] assms(5,10) by cases (auto, meson order_less_trans)
    from \<open>i \<in> dom ?m\<close> consider "i = sp_spanID sp" | v where "m i = Some v" by (auto split: if_splits)
    then show "\<exists>p sp. sdk_spans s' p = Some sp \<and> sp_hub sp \<noteq> None \<and> sp_spanID sp = i"
    proof cases
      case 1
      with assms(3,9) show ?thesis by (intro exI [of _ p] exI [of _ sp]) auto
    next
      case 2
      from tracks_dom(2) [OF assms(1) this] assms(2,9) show ?thesis by (metis fun_upd_apply option.distinct(1))
    qed
  next
    fix a b sa sb
    assume "sdk_spans s' a = Some sa" "sdk_spans s' b = Some sb" "sp_hub sa \<noteq> None" "sp_hub sb \<noteq> None"
      "sp_spanID sa = sp_spanID sb"
    with old tracksD(5) [OF assms(1)] assms(9) show "a = b" by (metis fun_upd_apply option.sel)
  qed
qed

lemma tracks_ended:
  assumes "tracks env s m" and "sdk_spans s p = Some sp" and "sp_hub sp \<noteq> None"
    and "sdk_spans s' = (sdk_spans s)(p \<mapsto> sp\<lparr>sp_ended := True\<rparr>)" and "sdk_ticks s \<le> sdk_ticks s'"
  shows "tracks env s' (m(sp_spanID sp \<mapsto> (sp_traceID sp, True)))"
proof -
  let ?m = "m(sp_spanID sp \<mapsto> (sp_traceID sp, True))"
  have dom: "dom ?m = dom m" using tracksD(2) [OF assms(1-3)] by auto
  have old: "\<exists>sq. sdk_spans s q = Some sq \<and> sp_hub sq = sp_hub sq' \<and> sp_spanID sq = sp_spanID sq'"
    if "sdk_spans s' q = Some sq'" for q sq'
    using that assms(2,4) by (auto split: if_splits)
  show ?thesis
    unfolding tracks_def dom
  proof (intro conjI allI ballI impI)
    fix q sq assume q: "sdk_spans s' q = Some sq"
    show "if sp_hub sq = None then sp_traceID sq = [] else ?m (sp_spanID sq) = Some (sp_traceID sq, sp_ended sq)
        \<and> sp_spanID sq \<noteq> [] \<and> sp_traceID sq \<noteq> []"
    proof (cases "q = p")
      case True
      with q assms(3,4) tracksD(3,4) [OF assms(1-3)] show ?thesis by auto
    next
      case False
      then have s: "sdk_spans s q = Some sq" using q assms(4) by simp
      have "sp_hub sq \<noteq> None \<Longrightarrow> sp_spanID sq \<noteq> sp_spanID sp"
        using tracksD(5) [OF assms(1) s assms(2)] assms(3) False by blast
      with tracksD(1-4) [OF assms(1) s] show ?thesis by auto
    qed
  next
    fix i assume "i \<in> dom m"
    then obtain v where v: "m i = Some v" by auto
    from tracks_dom(1) [OF assms(1) v] assms(5) show "\<exists>k < sdk_ticks s'. i = random_id env k"
      by (rule used_id_mono)
    obtain q sq where q: "sdk_spans s q = Some sq" "sp_hub sq \<noteq> None" "sp_spanID sq = i"
      using tracks_dom(2) [OF assms(1) v] by blast
    then show "\<exists>p sp. sdk_spans s' p = Some sp \<and> sp_hub sp \<noteq> None \<and> sp_spanID sp = i"
      using assms(2,4) by (intro exI [of _ q] exI [of _ "if q = p then sp\<lparr>sp_ended := True\<rparr> else sq"]) auto
  next
    fix a b sa sb
    assume "sdk_spans s' a = Some sa" "sdk_spans s' b = Some sb" "sp_hub sa \<noteq> None" "sp_hub sb \<noteq> None"
      "sp_spanID sa = sp_spanID sb"
    with old tracksD(5) [OF assms(1)] show "a = b" by metis
  qed
qed

section \<open>Each effect keeps the protocol\<close>

lemma new_span_parent:
  assumes "env_ok env" and "tracks env s m" and sp: "sp = new_span env h ctx s"
  shows "sp_traceID sp \<noteq> [] \<and> (sp_parentID sp = [] \<or> (\<exists>e. m (sp_parentID sp) = Some (sp_traceID sp, e)))"
proof (cases "span_at s (FromContext ctx)")
  case None
  with sp random_id_not_Nil [OF assms(1)] show ?thesis by (simp add: new_span_def Let_def)
next
  case (Some ps)
  then obtain q where q: "sdk_spans s q = Some ps" by (auto simp: span_at_def split: option.splits)
  show ?thesis
  proof (cases "sp_traceID ps = []")
    case True
    with Some sp random_id_not_Nil [OF assms(1)] show ?thesis by (simp add: new_span_def Let_def)
  next
    case False
    then have "sp_hub ps \<noteq> None" using tracksD(1) [OF assms(2) q] by blast
    with False Some sp tracksD(2) [OF assms(2) q] show ?thesis by (simp add: new_span_def Let_def)
  qed
qed

lemma new_span_fresh:
  assumes "env_ok env" and "tracks env s m" and "sp_spanID sp = random_id env (sdk_ticks s)"
    and "fresh_upto env n" and "sdk_ticks s < n"
  shows "m (sp_spanID sp) = None"
proof (rule ccontr)
  assume "m (sp_spanID sp) \<noteq> None"
  then obtain k where "k < sdk_ticks s" "sp_spanID sp = random_id env k"
    using tracks_dom(1) [OF assms(2)] by blast
  with assms(3,5) fresh_random_id [OF assms(1,4), of k "sdk_ticks s"] show False by simp
qed

lemma tracks_effect:
  assumes "env_ok env" and "tracks env s m" and "sdk_effect env h s s' rs" and "sdk_spans s (sdk_next s) = None"
    and "fresh_upto env (sdk_ticks s')"
  shows "\<exists>m'. run_steps life_step m rs = Some m' \<and> tracks env s' m'"
  using assms(3)
proof cases
  case quiet
  with tracks_same [OF assms(2)] show ?thesis by simp
next
  case inert
  have "tracks env s' m"
    by (rule tracks_inert [OF assms(2,4) _ _ inert(2,3)]) simp_all
  with inert(1) show ?thesis by simp
next
  case (started sp ctx emitted at name attrs)
  have new: "sp_hub sp = Some h" "\<not> sp_ended sp" "sp_spanID sp = random_id env (sdk_ticks s)"
    using started(2) by (auto simp: new_span_def Let_def split: option.split)
  note parent = new_span_parent [OF assms(1,2) started(2)]
  have "m (sp_spanID sp) = None"
    by (rule new_span_fresh [OF assms(1,2) new(3) assms(5)]) (use started(4) in simp)
  moreover have "sp_spanID sp \<noteq> []" using new(3) random_id_not_Nil [OF assms(1)] by simp
  ultimately have "life_step m (Some (started_record (env_rt env) emitted at sp name attrs))
      = Some (m(sp_spanID sp \<mapsto> (sp_traceID sp, False)))" and
    "tracks env s' (m(sp_spanID sp \<mapsto> (sp_traceID sp, False)))"
    using parent tracks_started [OF assms(2,4) _ new(2,3) _ _ _ started(3,4)] new(1)
    by (auto simp: life_step_def span_records getter_simps Let_def)
  with started(1) show ?thesis by simp
next
  case (updated a sp emitted attrs)
  then have "m (sp_spanID sp) = Some (sp_traceID sp, False)" using tracksD(2) [OF assms(2)] by fastforce
  with updated tracks_same [OF assms(2)] show ?thesis
    by (simp add: life_step_def life_of_open_def span_records getter_simps)
next
  case (event a sp emitted at name cfg)
  then have "m (sp_spanID sp) = Some (sp_traceID sp, False)" using tracksD(2) [OF assms(2)] by fastforce
  with event tracks_same [OF assms(2)] show ?thesis
    by (simp add: life_step_def life_of_open_def span_records getter_simps)
next
  case (ended a sp emitted at tt msg)
  then have "m (sp_spanID sp) = Some (sp_traceID sp, False)" using tracksD(2) [OF assms(2)] by fastforce
  moreover have "tracks env s' (m(sp_spanID sp \<mapsto> (sp_traceID sp, True)))"
    using tracks_ended [OF assms(2) ended(2) _ ended(5,6)] ended(3) by simp
  ultimately show ?thesis
    using ended(1) by (simp add: life_step_def life_of_open_def span_records getter_simps Let_def)
qed

lemma run_steps_snoc:
  "run_steps step s xs = Some s1 \<Longrightarrow> run_steps step s1 ys = Some s2 \<Longrightarrow> run_steps step s (xs @ ys) = Some s2"
  by (simp add: run_steps_append)

lemma effect_ticks: "sdk_effect env h s s' rs \<Longrightarrow> sdk_ticks s \<le> sdk_ticks s'"
  by (erule sdk_effectE) auto

text \<open>An SDK without spans, observed from the start by channel \<open>ch\<close> on hub \<open>h\<close>.\<close>

definition observed :: "go_env \<Rightarrow> addr \<Rightarrow> addr \<Rightarrow> nat \<Rightarrow> sdk \<Rightarrow> bool" where
  "observed env h ch n s \<longleftrightarrow> sdk_room env h ch n s \<and> sdk_spans s = Map.empty \<and> sdk_log ch s = []"

text \<open>What the observer received so far is well formed and says what the SDK holds, provided the random
  source did not repeat itself.\<close>

definition followed :: "go_env \<Rightarrow> addr \<Rightarrow> sdk \<Rightarrow> bool" where
  "followed env ch s \<longleftrightarrow> (fresh_upto env (sdk_ticks s) \<longrightarrow> (\<exists>m. run_steps life_step Map.empty (sdk_log ch s) = Some m \<and> tracks env s m))"

lemma followed_effect:
  assumes "followed env ch s" and "sdk_room env h ch (Suc n) s" and "sdk_effect env h s s' rs" and "sdk_log ch s' = sdk_log ch s @ rs"
  shows "followed env ch s'"
  unfolding followed_def
proof
  assume fresh: "fresh_upto env (sdk_ticks s')"
  then have "fresh_upto env (sdk_ticks s)" using effect_ticks [OF assms(3)] by (rule fresh_upto_mono)
  then obtain m where m: "run_steps life_step Map.empty (sdk_log ch s) = Some m" "tracks env s m"
    using assms(1) by (auto simp: followed_def)
  have "env_ok env" "sdk_spans s (sdk_next s) = None"
    using assms(2) less_irrefl unfolding sdk_room_def listens_def sdk_inv_def by (blast, metis not_Some_eq)
  from tracks_effect [OF this(1) m(2) assms(3) this(2) fresh] run_steps_snoc [OF m(1)]
  show "\<exists>m. run_steps life_step Map.empty (sdk_log ch s') = Some m \<and> tracks env s' m"
    unfolding assms(4) by blast
qed

lemma observed_followed: "observed env h ch n s \<Longrightarrow> followed env ch s"
  by (simp add: observed_def followed_def tracks_def)

lemma sdk_stream:
  assumes "observed env h ch (length calls) s" and "list_all (on_hub h) calls"
  shows "\<exists>s'. run_results (sdk_exec env) s calls = Inr s' \<and> sdk_room env h ch 0 s' \<and>
    (fresh_upto env (sdk_ticks s') \<longrightarrow> (\<exists>m. run_steps life_step Map.empty (sdk_log ch s') = Some m \<and> tracks env s' m))"
  unfolding followed_def [symmetric]
proof (rule sdk_calls.run_invariant [where Q = "\<lambda>s _. followed env ch s"])
  show "sdk_room env h ch (length calls) s" using assms(1) by (simp add: observed_def)
  show "list_all (on_hub h) calls" by (rule assms(2))
  show "followed env ch s" using assms(1) by (rule observed_followed)
qed (rule followed_effect)

section \<open>The stream and the store\<close>

lemma tracks_iff:
  assumes tracks: "tracks env s m" and room: "sdk_room env h ch n s"
  shows "m i = Some (trace, e) \<longleftrightarrow> (\<exists>p sp. sdk_spans s p = Some sp \<and> sp_hub sp = Some h
      \<and> sp_spanID sp = i \<and> sp_traceID sp = trace \<and> sp_ended sp = e)"
proof
  assume m: "m i = Some (trace, e)"
  obtain p sp where sp: "sdk_spans s p = Some sp" "sp_hub sp \<noteq> None" "sp_spanID sp = i"
    using tracks_dom(2) [OF tracks m] by blast
  moreover have "sp_hub sp = Some h" using room sp(1,2) unfolding sdk_room_def by metis
  ultimately show "\<exists>p sp. sdk_spans s p = Some sp \<and> sp_hub sp = Some h
      \<and> sp_spanID sp = i \<and> sp_traceID sp = trace \<and> sp_ended sp = e"
    using tracksD(2) [OF tracks sp(1,2)] m by auto
next
  assume "\<exists>p sp. sdk_spans s p = Some sp \<and> sp_hub sp = Some h
      \<and> sp_spanID sp = i \<and> sp_traceID sp = trace \<and> sp_ended sp = e"
  then show "m i = Some (trace, e)" using tracksD(2) [OF tracks] by auto
qed

text \<open>C18: Whatever is called on spans of one hub, no call panics, and a subscriber that was there from
  the start and whose free buffer has room for a record of every call (the hub drops records for
  others) receives a well-formed stream, as long as the random source does not repeat itself:
  every span is started once, before its updates and events and under a parent of its trace, is
  ended at most once, and nothing follows its end. The stream knows exactly the spans of the SDK,
  with their traces and whether they have ended.\<close>

theorem sdk_stream_well_formed:
  assumes "observed env h ch (length calls) s" and "list_all (on_hub h) calls"
  shows "\<exists>s'. run_results (sdk_exec env) s calls = Inr s' \<and>
    (fresh_upto env (sdk_ticks s') \<longrightarrow> (\<exists>m. run_steps life_step Map.empty (sdk_log ch s') = Some m
      \<and> (\<forall>i trace e. m i = Some (trace, e) \<longleftrightarrow> (\<exists>p sp. sdk_spans s' p = Some sp \<and> sp_hub sp = Some h
            \<and> sp_spanID sp = i \<and> sp_traceID sp = trace \<and> sp_ended sp = e))))"
proof -
  obtain s' where s': "run_results (sdk_exec env) s calls = Inr s'" "sdk_room env h ch 0 s'"
      "fresh_upto env (sdk_ticks s') \<longrightarrow> (\<exists>m. run_steps life_step Map.empty (sdk_log ch s') = Some m \<and> tracks env s' m)"
    using sdk_stream [OF assms] by blast
  with tracks_iff show ?thesis by blast
qed

text \<open>What a subscriber received rebuilds the spans, and holds no nil record.\<close>

lemma log_rebuilds:
  assumes "observed env h ch (length calls) s" and "list_all (on_hub h) calls"
    and "run_results (sdk_exec env) s calls = Inr s'" and "fresh_upto env (sdk_ticks s')"
  shows "\<exists>store a. run_steps (Apply (env_rt env)) NewStore (sdk_log ch s') = Some store \<and> abs_store store = Some a
    \<and> distinct (forest_ids (forest a))
    \<and> (\<lambda>d. (SpanID d, TraceID d, Ended d)) ` set (forest_spans (forest a))
      = {(sp_spanID sp, sp_traceID sp, sp_ended sp) | p sp. sdk_spans s' p = Some sp \<and> sp_hub sp = Some h}
    \<and> None \<notin> set (sdk_log ch s')"
proof -
  obtain m where m: "run_steps life_step Map.empty (sdk_log ch s') = Some m" "tracks env s' m" and room: "sdk_room env h ch 0 s'"
    using sdk_stream [OF assms(1,2)] assms(3,4) by auto
  obtain st a where st: "run_steps (Apply (env_rt env)) NewStore (sdk_log ch s') = Some st" "abs_store st = Some a"
      "follows a m" "distinct (forest_ids (forest a))"
    using store_follows [OF m(1)] by blast
  have data: "m (SpanID d) = Some (TraceID d, Ended d)" if "d \<in> set (forest_spans (forest a))" for d
    using st(3) that unfolding follows_def by blast
  have "(\<lambda>d. (SpanID d, TraceID d, Ended d)) ` set (forest_spans (forest a)) = {(i, trace, e). m i = Some (trace, e)}"
  proof (intro equalityI subsetI)
    fix x assume "x \<in> {(i, trace, e). m i = Some (trace, e)}"
    then obtain i trace e where x: "x = (i, trace, e)" "m i = Some (trace, e)" by auto
    then have "i \<in> SpanID ` set (forest_spans (forest a))"
      using st(3) unfolding follows_def forest_ids_set [symmetric] by auto
    then obtain d where "d \<in> set (forest_spans (forest a))" "i = SpanID d" by blast
    with data x show "x \<in> (\<lambda>d. (SpanID d, TraceID d, Ended d)) ` set (forest_spans (forest a))"
      by (intro image_eqI [of _ _ d]) auto
  next
    fix x assume "x \<in> (\<lambda>d. (SpanID d, TraceID d, Ended d)) ` set (forest_spans (forest a))"
    then obtain d where "d \<in> set (forest_spans (forest a))" "x = (SpanID d, TraceID d, Ended d)" by blast
    with data [of d] show "x \<in> {(i, trace, e). m i = Some (trace, e)}" by simp
  qed
  also have "\<dots> = {(sp_spanID sp, sp_traceID sp, sp_ended sp) | p sp. sdk_spans s' p = Some sp \<and> sp_hub sp = Some h}"
    unfolding tracks_iff [OF m(2) room] by auto
  finally show ?thesis using st life_records [OF m(1)] by blast
qed

text \<open>C20: Let a subscriber of a hub be there before the first span, with a free buffer that has room for a
  record of every call, so that \<open>Publish\<close> drops none for it, let all calls be on that hub, and let
  the random source not repeat itself. Then a store that applies what the subscriber received
  holds exactly the spans of the SDK on that hub, each once, with its trace and its ended state.\<close>

theorem sdk_to_store:
  assumes "observed env h ch (length calls) s" and "list_all (on_hub h) calls"
    and "run_results (sdk_exec env) s calls = Inr s'" and "fresh_upto env (sdk_ticks s')"
  shows "\<exists>store a. run_steps (Apply (env_rt env)) NewStore (sdk_log ch s') = Some store \<and> abs_store store = Some a
    \<and> distinct (forest_ids (forest a))
    \<and> (\<lambda>d. (SpanID d, TraceID d, Ended d)) ` set (forest_spans (forest a))
      = {(sp_spanID sp, sp_traceID sp, sp_ended sp) | p sp. sdk_spans s' p = Some sp \<and> sp_hub sp = Some h}"
  using log_rebuilds [OF assms] by blast

section \<open>A concrete run\<close>

definition sample_env :: go_env where
  "sample_env = \<lparr>env_rt = ref_runtime, env_now = int,
     env_rand = (\<lambda>k n. Inr (map (\<lambda>i. if i = 0 then of_nat k else 0) [0..<n])),
     env_range = (\<lambda>_. sorted_list_of_set)\<rparr>"

definition sample_sdk :: sdk where
  "sample_sdk = \<lparr>sdk_spans = Map.empty, sdk_next = 1, sdk_hubs = [1 \<mapsto> \<lparr>subs = {1}, closed = False\<rparr>],
     sdk_chans = \<lparr>channels = [1 \<mapsto> \<lparr>buffered = [], capacity = 8, is_closed = False\<rparr>], next_chan = 2\<rparr>, sdk_ticks = 0\<rparr>"

text \<open>A root, a child of it, an event, the child's end and a late update of the child.\<close>

definition sample_calls :: "sdk_call list" where
  "sample_calls = [CallHubStart (Some 1) [] ''root'' [],
     CallStart (contextWithSpan (ContextWithHub [] (Some 1)) 1) ''child'' [],
     CallAddEvent (Some 1) ''note'' [Some (WithSeverity SEVERITY_WARN)],
     CallComplete (Some 2), CallSetAttributes (Some 2) [None]]"

lemma sample_env_ok [simp]: "env_ok sample_env"
  by (auto simp: env_ok_def sample_env_def)

lemma sample_observed: "observed sample_env 1 1 (length sample_calls) sample_sdk"
  by (auto simp: observed_def sdk_room_def listens_def sdk_inv_def sample_sdk_def sdk_log_def sample_calls_def
      hub_inv_def world_inv_def)

lemma sample_on_hub: "list_all (on_hub 1) sample_calls"
  by (simp add: sample_calls_def ContextWithHub_def contextWithSpan_def WithValue_def HubFromContext_def)

lemma sample_fresh: "n \<le> 256 \<Longrightarrow> fresh_upto sample_env n"
proof -
  assume n: "n \<le> 256"
  have "(of_nat j :: 8 word) \<noteq> of_nat k" if "j < k" "k < n" for j k
    using that n by (simp add: word_of_nat_eq_iff take_bit_nat_def)
  then have "map (\<lambda>i. if i = 0 then of_nat j else 0) [0..<16] \<noteq> (map (\<lambda>i. if i = 0 then of_nat k else 0) [0..<16] :: 8 word list)"
    if "j < k" "k < n" for j k
    using that by (simp add: upt_conv_Cons)
  then show ?thesis by (simp add: fresh_upto_def sample_env_def)
qed

definition sample_end :: sdk where
  "sample_end = projr (run_results (sdk_exec sample_env) sample_sdk sample_calls)"

lemma sample_run: "run_results (sdk_exec sample_env) sample_sdk sample_calls = Inr sample_end"
  using sdk_stream [OF sample_observed sample_on_hub] by (auto simp: sample_end_def)

lemma sample_end_reads:
  "sdk_ticks sample_end \<le> 256" "length (sdk_log 1 sample_end) = 4"
  "map_option (\<lambda>sp. (sp_hub sp, sp_ended sp)) (sdk_spans sample_end 2) = Some (Some 1, True)"
  by code_simp+

theorem sdk_stream_well_formed_witness:
  "\<exists>s' m. run_results (sdk_exec sample_env) sample_sdk sample_calls = Inr s'
    \<and> length (sdk_log 1 s') = 4 \<and> run_steps life_step Map.empty (sdk_log 1 s') = Some m"
  using sdk_stream_well_formed [OF sample_observed sample_on_hub] sample_run sample_end_reads(2)
    sample_fresh [OF sample_end_reads(1)] by auto

theorem sdk_to_store_witness:
  "\<exists>store a. run_steps (Apply ref_runtime) NewStore (sdk_log 1 sample_end) = Some store \<and> abs_store store = Some a
    \<and> (\<exists>d \<in> set (forest_spans (forest a)). Ended d)"
proof -
  obtain sp where sp: "sdk_spans sample_end 2 = Some sp" "sp_ended sp" "sp_hub sp = Some 1"
    using sample_end_reads(3) by auto
  obtain store a where st: "run_steps (Apply (env_rt sample_env)) NewStore (sdk_log 1 sample_end) = Some store"
      "abs_store store = Some a"
      "(\<lambda>d. (SpanID d, TraceID d, Ended d)) ` set (forest_spans (forest a))
        = {(sp_spanID sp, sp_traceID sp, sp_ended sp) | p sp. sdk_spans sample_end p = Some sp \<and> sp_hub sp = Some 1}"
    using sdk_to_store [OF sample_observed sample_on_hub sample_run sample_fresh [OF sample_end_reads(1)]] by blast
  have "(sp_spanID sp, sp_traceID sp, True) \<in> (\<lambda>d. (SpanID d, TraceID d, Ended d)) ` set (forest_spans (forest a))"
    unfolding st(3) using sp by auto
  then show ?thesis using st(1,2) by (auto simp: sample_env_def)
qed

end
