(* ===== verification/Sdk_Methods.thy ===== *)
theory Sdk_Methods
  imports Sdk_Protocol
begin

text \<open>
  Single calls of the SDK: what a started span inherits from its context, what an event's
  options make of the record, and that a span that does not record does nothing.
\<close>

section \<open>Starting\<close>

text \<open>Starting a span on a hub publishes one record and returns a context that carries the new
  span and that hub. If the given context carries a span with a trace, the new one joins that
  trace as its child, else it is the root of a trace of its own; IDs are 32 hex digits.\<close>

theorem Hub_Start_inherits:
  assumes "env_ok env" and "listens h ch (Suc n) s"
  shows "\<exists>ctx' p s' sp r. Hub_Start env (Some h) ctx name attrs s = Inr (ctx', p, s')
    \<and> FromContext ctx' = Some p \<and> HubFromContext ctx' = Some h \<and> sdk_spans s' p = Some sp
    \<and> sp_hub sp = Some h \<and> \<not> sp_ended sp \<and> length (sp_spanID sp) = 32
    \<and> (case span_at s (FromContext ctx) of
         Some parent \<Rightarrow> if sp_traceID parent \<noteq> []
           then sp_traceID sp = sp_traceID parent \<and> sp_parentID sp = sp_spanID parent
           else length (sp_traceID sp) = 32 \<and> sp_parentID sp = []
       | None \<Rightarrow> length (sp_traceID sp) = 32 \<and> sp_parentID sp = [])
    \<and> sdk_log ch s' = sdk_log ch s @ [Some r]
    \<and> SpanStarted_GetSpanId (Record_GetSpanStarted (Some r)) = sp_spanID sp
    \<and> SpanStarted_GetTraceId (Record_GetSpanStarted (Some r)) = sp_traceID sp
    \<and> SpanStarted_GetParentSpanId (Record_GetSpanStarted (Some r)) = sp_parentID sp
    \<and> SpanStarted_GetName (Record_GetSpanStarted (Some r)) = name"
proof -
  let ?sp = "new_span env h ctx s"
  obtain s' emitted at ctx' where s': "startWithHub env ctx (Some h) name attrs s = Inr (ctx', sdk_next s, s')"
      "sdk_log ch s' = sdk_log ch s @ [Some (started_record (env_rt env) emitted at ?sp name attrs)]"
      "sdk_spans s' = (sdk_spans s)(sdk_next s \<mapsto> ?sp)" "FromContext ctx' = Some (sdk_next s)" "HubFromContext ctx' = Some h"
    using startWithHub_logs [OF assms, of ctx name attrs] by blast
  have "sp_hub ?sp = Some h \<and> \<not> sp_ended ?sp \<and> length (sp_spanID ?sp) = 32
    \<and> (case span_at s (FromContext ctx) of
         Some parent \<Rightarrow> if sp_traceID parent \<noteq> []
           then sp_traceID ?sp = sp_traceID parent \<and> sp_parentID ?sp = sp_spanID parent
           else length (sp_traceID ?sp) = 32 \<and> sp_parentID ?sp = []
       | None \<Rightarrow> length (sp_traceID ?sp) = 32 \<and> sp_parentID ?sp = [])"
    using random_id_length [OF assms(1)] by (simp add: new_span_def Let_def split: option.split)
  with s' show ?thesis
    by (intro exI [of _ ctx'] exI [of _ "sdk_next s"] exI [of _ s'] exI [of _ ?sp]
        exI [of _ "started_record (env_rt env) emitted at ?sp name attrs"])
      (simp add: Hub_Start_def span_records getter_simps)
qed

lemma sample_listens: "listens 1 1 (Suc 7) sample_sdk"
  using sample_observed listens_less [of 1 1 0 8] by (auto simp: listens_def sample_sdk_def sdk_inv_def hub_inv_def world_inv_def)

theorem Hub_Start_inherits_witness:
  "\<exists>ctx' p s' sp. Hub_Start sample_env (Some 1) [] ''root'' [] sample_sdk = Inr (ctx', p, s')
    \<and> FromContext ctx' = Some p \<and> sdk_spans s' p = Some sp \<and> sp_parentID sp = [] \<and> length (sp_traceID sp) = 32"
  using Hub_Start_inherits [OF sample_env_ok sample_listens, of "[]" "''root''" "[]"]
  by (auto simp: span_at_def FromContext_def)

text \<open>Without a hub a started span is inert: nothing is published and the span never records.
  The package function \<open>Start\<close> prefers the hub of the context's span to the context's hub.\<close>

theorem Start_chooses_hub:
  "Start env ctx name attrs s = Hub_Start env (case span_at s (FromContext ctx) of
       Some parent \<Rightarrow> (case sp_hub parent of Some h \<Rightarrow> Some h | None \<Rightarrow> HubFromContext ctx)
     | None \<Rightarrow> HubFromContext ctx) ctx name attrs s
   \<and> (\<exists>ctx' p s'. Hub_Start env None ctx name attrs s = Inr (ctx', p, s') \<and> FromContext ctx' = Some p
       \<and> sdk_chans s' = sdk_chans s \<and> \<not> Recording s' (Some p) \<and> Span_SpanID s' (Some p) = []
       \<and> HubFromContext ctx' = HubFromContext ctx)"
proof
  show "Start env ctx name attrs s = Hub_Start env (case span_at s (FromContext ctx) of
       Some parent \<Rightarrow> (case sp_hub parent of Some h \<Rightarrow> Some h | None \<Rightarrow> HubFromContext ctx)
     | None \<Rightarrow> HubFromContext ctx) ctx name attrs s"
    by (auto simp: Start_def Hub_Start_def span_at_def Let_def split: option.split)
qed (auto simp: Hub_Start_def span_at_def startWithHub_def alloc_sdk_span_def contextWithSpan_def WithValue_def
      FromContext_def HubFromContext_def Recording_def Span_SpanID_def)

section \<open>Silent spans\<close>

text \<open>A span that does not record (nil, inert or ended) publishes nothing and does not change,
  whatever is called on it.\<close>

theorem not_recording_silent:
  assumes "\<not> Recording s p"
  shows "SetAttributes env p attrs s = Inr s \<and> Complete env p s = Inr s \<and> Error env p err s = Inr s
    \<and> (\<exists>s'. AddEvent env p name opts s = Inr s' \<and> sdk_spans s' = sdk_spans s \<and> sdk_chans s' = sdk_chans s
        \<and> sdk_hubs s' = sdk_hubs s)"
proof -
  have "inactive s p" using assms by (simp add: inactive_Recording)
  with inactive_calls [OF this] show ?thesis
    by (fastforce simp: Complete_def Error_def split: option.split)
qed

theorem not_recording_silent_witness:
  "SetAttributes sample_env (Some 2) [None] sample_end = Inr sample_end \<and> Complete sample_env (Some 2) sample_end = Inr sample_end"
proof -
  have "\<not> Recording sample_end (Some 2)"
    using sample_end_reads(3) by (auto simp: Recording_def span_at_def)
  from not_recording_silent [OF this] show ?thesis by blast
qed

section \<open>Event options\<close>

lemma apply_options_fold: "apply_options opts cfg = fold apply_option (concat (map (\<lambda>o'. case o' of None \<Rightarrow> [] | Some f \<Rightarrow> [f]) opts)) cfg"
  by (induction opts arbitrary: cfg) (auto split: option.split)

text \<open>The record of an event reads back as the options said: the time given last, the attributes
  of all options in order without nil ones, the severity given last, and informational if none
  was given. Nil options are skipped.\<close>

theorem event_record_reads:
  assumes "pb_laws rt"
    and "x = Record_GetSpanEvent (Some (event_record_of rt emitted at sp name cfg))"
  shows "SpanEvent_GetSpanId x = sp_spanID sp \<and> SpanEvent_GetName x = name \<and> AsTime rt (SpanEvent_GetEventAt x) = at
    \<and> SpanEvent_GetAttributes x = filter (\<lambda>a. a \<noteq> None) (cfg_attrs cfg)
    \<and> SpanEvent_GetSeverity rt x = (if cfg_severity cfg = SEVERITY_UNSPECIFIED then SEVERITY_INFO else cfg_severity cfg)
    \<and> apply_options (None # opts) cfg = apply_options opts cfg
    \<and> apply_options (opts @ [Some (WithSeverity v)]) cfg = (apply_options opts cfg)\<lparr>cfg_severity := v\<rparr>
    \<and> apply_options (opts @ [Some (WithTimestamp t)]) cfg = (apply_options opts cfg)\<lparr>cfg_at := t\<rparr>
    \<and> cfg_attrs (apply_options (opts @ [Some (WithAttributes as)]) cfg) = cfg_attrs (apply_options opts cfg) @ as"
  using assms(1)
  by (simp add: assms(2) span_records getter_simps cloneAttributes_laws pb_lawsD(4) apply_options_fold Default_SpanEvent_Severity_def)

theorem event_record_reads_witness:
  "SpanEvent_GetSeverity ref_runtime (Record_GetSpanEvent (Some (event_record_of ref_runtime (TimestampNew ref_runtime 1) 2
     \<lparr>sp_hub = None, sp_traceID = [], sp_spanID = ''s'', sp_parentID = [], sp_ended = False\<rparr> ''n'' empty_config))) = SEVERITY_INFO"
  using event_record_reads [OF pb_laws_ref_runtime refl] by (simp add: empty_config_def)

end
