(* ===== verification/Sse.thy ===== *)
theory Sse
  imports Hub_Props Simulation
begin

text \<open>
  Streaming over server-sent events, \<open>transport/sapsse\<close>: the handler that writes the records
  of a subscription as frames, the scanner and decoding loop of the client, and the client's
  reconnecting loop. What the network, the clock and the context do is an argument; so are
  \<open>protojson\<close>'s functions, which are not part of the sources.
\<close>

section \<open>Lines\<close>

abbreviation newline :: char where
  "newline \<equiv> CHR 0x0A"

abbreviation carriage_return :: char where
  "carriage_return \<equiv> CHR 0x0D"

text \<open>\<open>bufio.ScanLines\<close> drops one trailing carriage return.\<close>

definition dropCR :: "string \<Rightarrow> string" where
  "dropCR line = (if line \<noteq> [] \<and> last line = carriage_return then butlast line else line)"

text \<open>
  A \<open>bufio.Scanner\<close> over the body with a buffer of at most \<open>limit\<close> bytes: the lines it yields, and
  whether it stops with \<open>ErrTooLong\<close> because no newline is among the next \<open>limit\<close> bytes. The
  accumulator is the unfinished line.
\<close>

fun scan_lines :: "nat \<Rightarrow> string \<Rightarrow> string \<Rightarrow> string list \<times> bool" where
  "scan_lines limit cur [] = (if cur = [] then [] else [dropCR cur], False)"
| "scan_lines limit cur (c # cs) =
     (if c = newline then (let (ls, err) = scan_lines limit [] cs in (dropCR cur # ls, err))
      else if limit \<le> Suc (length cur) then ([], True)
      else scan_lines limit (cur @ [c]) cs)"

definition maxFrameBytes :: nat where
  "maxFrameBytes = 10 * 1024 * 1024"

section \<open>The handler\<close>

text \<open>What the handler's select sees: the request's context ends, a record (and whether writing its
  frame succeeds), or the closed subscription.\<close>

datatype handler_event =
    RequestDone
  | GotRecord "sap_record option" bool
  | RecordsClosed

definition connected_frame :: string where
  "connected_frame = '': connected'' @ [newline, newline]"

definition data_frame :: "string \<Rightarrow> string" where
  "data_frame payload = ''data: '' @ payload @ [newline, newline]"

text \<open>The loop: the frames written, and whether the handler has returned.\<close>

fun handler_loop :: "(sap_record option \<Rightarrow> string option) \<Rightarrow> handler_event list \<Rightarrow> string \<times> bool" where
  "handler_loop marshal [] = ([], False)"
| "handler_loop marshal (RequestDone # es) = ([], True)"
| "handler_loop marshal (RecordsClosed # es) = ([], True)"
| "handler_loop marshal (GotRecord r writable # es) =
     (case marshal r of
        None \<Rightarrow> handler_loop marshal es
      | Some payload \<Rightarrow>
          if \<not> writable then ([], True)
          else (let (out, returned) = handler_loop marshal es in (data_frame payload @ out, returned)))"

record response =
  resp_headers :: "(string \<times> string) list"
  resp_status :: int
  resp_body :: string
  resp_returned :: bool

definition sse_headers :: "(string \<times> string) list" where
  "sse_headers = [(''Content-Type'', ''text/event-stream''), (''Cache-Control'', ''no-cache''),
     (''Connection'', ''keep-alive''), (''X-Accel-Buffering'', ''no'')]"

text \<open>
  One request: \<open>flushable\<close> says whether the writer can flush, \<open>greeted\<close> whether the first frame
  could be written. The subscription is made and cancelled on the hub.
\<close>

definition serve :: "(sap_record option \<Rightarrow> string option) \<Rightarrow> bool \<Rightarrow> bool \<Rightarrow> handler_event list
    \<Rightarrow> hub \<times> chan_world \<Rightarrow> (response \<times> hub \<times> chan_world) go_result" where
  "serve marshal flushable greeted es s =
    (if \<not> flushable
     then Inr (\<lparr>resp_headers = [(''Content-Type'', ''text/plain; charset=utf-8''), (''X-Content-Type-Options'', ''nosniff'')],
       resp_status = 500, resp_body = ''streaming unsupported by responseWriter'' @ [newline],
       resp_returned = True\<rparr>, s)
     else case s of (hb, w) \<Rightarrow>
       bind_result (Subscribe (Some hb) 1024 w) (\<lambda>(ch, f, h, w).
         let (body, returned) = (if \<not> greeted then ([], True)
               else let (out, returned) = handler_loop marshal es in (connected_frame @ out, returned))
         in bind_result (if returned then cancel f (the h, w) else Inr (the h, w)) (\<lambda>s.
              Inr (\<lparr>resp_headers = sse_headers, resp_status = 200, resp_body = body, resp_returned = returned\<rparr>, s))))"

text \<open>\<open>NewHandler\<close> panics on a nil hub.\<close>

definition NewHandler :: "addr option \<Rightarrow> addr go_result" where
  "NewHandler hub = (case hub of None \<Rightarrow> Inl NilHub | Some h \<Rightarrow> Inr h)"

section \<open>One connection of the client\<close>

text \<open>A state is a string; the zero value of a \<open>ConnectionState\<close>, which the viewers start from, has none.\<close>

type_synonym client_state = string

definition StateConnecting :: client_state where "StateConnecting = ''connecting''"
definition StateConnected :: client_state where "StateConnected = ''connected''"
definition StateRetrying :: client_state where "StateRetrying = ''retrying''"
definition StateDisconnected :: client_state where "StateDisconnected = ''disconnected''"

lemmas client_state_defs = StateConnecting_def StateConnected_def StateRetrying_def StateDisconnected_def

lemma client_state_distinct [simp]:
  "StateConnecting \<noteq> StateConnected" "StateConnecting \<noteq> StateRetrying" "StateConnecting \<noteq> StateDisconnected"
  "StateConnected \<noteq> StateConnecting" "StateConnected \<noteq> StateRetrying" "StateConnected \<noteq> StateDisconnected"
  "StateRetrying \<noteq> StateConnecting" "StateRetrying \<noteq> StateConnected" "StateRetrying \<noteq> StateDisconnected"
  "StateDisconnected \<noteq> StateConnecting" "StateDisconnected \<noteq> StateConnected" "StateDisconnected \<noteq> StateRetrying"
  by (simp_all add: client_state_defs)

record ConnectionState =
  cs_State :: client_state
  cs_Attempt :: nat
  cs_Err :: string
  cs_RetryAt :: go_time

definition connection :: "client_state \<Rightarrow> nat \<Rightarrow> ConnectionState" where
  "connection st attempt = \<lparr>cs_State = st, cs_Attempt = attempt, cs_Err = [], cs_RetryAt = zero_time\<rparr>"

datatype client_output = OutState ConnectionState | OutRecord sap_record

text \<open>
  What an attempt meets: the context at the top of the loop, the request and the response, the
  context and the clock after an error, and the context during the wait.
\<close>

record http_response =
  http_StatusCode :: int
  http_Status :: string
  http_Body :: string
  http_ReadErr :: "string option"
  http_CloseErr :: "string option"

record attempt_env =
  done_before :: bool
  request_err :: "string option"
  do_result :: "string + http_response"
  done_after :: bool
  now_after :: go_time
  done_waiting :: bool

fun decode_loop :: "(string \<Rightarrow> sap_record option) \<Rightarrow> bool \<Rightarrow> string list \<Rightarrow> sap_record list" where
  "decode_loop unmarshal statesent [] = []"
| "decode_loop unmarshal statesent (line # lines) =
     (if HasPrefix line '':'' \<and> \<not> statesent then decode_loop unmarshal True lines
      else if \<not> HasPrefix line ''data: '' then decode_loop unmarshal statesent lines
      else (case unmarshal (drop (length ''data: '') line) of
              None \<Rightarrow> decode_loop unmarshal statesent lines
            | Some record \<Rightarrow> record # decode_loop unmarshal statesent lines))"

text \<open>The deferred close overwrites a nil error only.\<close>

definition deferred_close :: "http_response \<Rightarrow> string option \<Rightarrow> string option" where
  "deferred_close resp err = (case http_CloseErr resp of
     None \<Rightarrow> err
   | Some closeErr \<Rightarrow> if err = None then Some (''close response body: '' @ closeErr) else err)"

definition streamOnce :: "(string \<Rightarrow> sap_record option) \<Rightarrow> attempt_env \<Rightarrow> nat \<Rightarrow> client_output list \<times> string option" where
  "streamOnce unmarshal e attempt = (case request_err e of
     Some err \<Rightarrow> ([], Some err)
   | None \<Rightarrow> (case do_result e of
       Inl err \<Rightarrow> ([], Some err)
     | Inr resp \<Rightarrow>
         if http_StatusCode resp \<noteq> 200
         then ([], deferred_close resp (Some (''unexpected status: '' @ http_Status resp)))
         else let (lines, too_long) = scan_lines maxFrameBytes [] (http_Body resp);
              outs = OutState (connection StateConnected attempt) # map OutRecord (decode_loop unmarshal False lines)
           in if too_long then (outs, deferred_close resp (Some ''bufio.Scanner: token too long''))
           else (case http_ReadErr resp of
               Some err \<Rightarrow> (outs, deferred_close resp (Some err))
             | None \<Rightarrow> (outs, deferred_close resp (Some ''stream closed'')))))"

section \<open>Reconnecting\<close>

text \<open>The outputs of the loop over the attempts given, and whether it has returned.\<close>

fun Stream_loop :: "(string \<Rightarrow> sap_record option) \<Rightarrow> attempt_env list \<Rightarrow> nat \<Rightarrow> client_output list \<times> bool" where
  "Stream_loop unmarshal [] attempt = ([], False)"
| "Stream_loop unmarshal (e # es) attempt =
     (if done_before e then ([OutState (connection StateDisconnected 0)], True)
      else let attempt = Suc attempt;
               (outs, err) = streamOnce unmarshal e attempt;
               outs = OutState (connection StateConnecting attempt) # outs
           in case err of
                Some msg \<Rightarrow>
                  if done_after e then (outs @ [OutState (connection StateDisconnected 0)], True)
                  else let retryAt = now_after e + 2 * Second;
                           outs = outs @ [OutState \<lparr>cs_State = StateRetrying, cs_Attempt = attempt, cs_Err = msg, cs_RetryAt = retryAt\<rparr>]
                       in if done_waiting e then (outs @ [OutState (connection StateDisconnected 0)], True)
                          else (let (rest, returned) = Stream_loop unmarshal es attempt in (outs @ rest, returned))
              | None \<Rightarrow> (outs @ [OutState (connection StateDisconnected 0)], True))"

definition Stream :: "(string \<Rightarrow> sap_record option) \<Rightarrow> attempt_env list \<Rightarrow> client_output list \<times> bool" where
  "Stream unmarshal es = Stream_loop unmarshal es 0"

section \<open>Frames\<close>

lemma scan_line:
  assumes "newline \<notin> set line" and "length cur + length line < limit"
  shows "scan_lines limit cur (line @ newline # rest)
    = (dropCR (cur @ line) # fst (scan_lines limit [] rest), snd (scan_lines limit [] rest))"
  using assms
proof (induction line arbitrary: cur)
  case Nil
  then show ?case by (simp add: case_prod_unfold Let_def)
next
  case (Cons c line)
  have "scan_lines limit cur ((c # line) @ newline # rest) = scan_lines limit (cur @ [c]) (line @ newline # rest)"
    using Cons.prems by auto
  also have "\<dots> = (dropCR ((cur @ [c]) @ line) # fst (scan_lines limit [] rest), snd (scan_lines limit [] rest))"
    using Cons.prems by (intro Cons.IH) auto
  finally show ?case by simp
qed

text \<open>A payload that survives framing: one line, not ending in a carriage return, within the limit.\<close>

definition line_safe :: "string \<Rightarrow> bool" where
  "line_safe p \<longleftrightarrow> newline \<notin> set p \<and> (p = [] \<or> last p \<noteq> carriage_return) \<and> length p + 6 < maxFrameBytes"

lemma scan_empty_line: "scan_lines maxFrameBytes [] (newline # rest)
    = ([] # fst (scan_lines maxFrameBytes [] rest), snd (scan_lines maxFrameBytes [] rest))"
  by (simp add: case_prod_unfold dropCR_def Let_def)

lemma scan_data_frame:
  assumes "line_safe p"
  shows "scan_lines maxFrameBytes [] (data_frame p @ rest)
    = ((''data: '' @ p) # [] # fst (scan_lines maxFrameBytes [] rest), snd (scan_lines maxFrameBytes [] rest))"
proof -
  have p: "newline \<notin> set (''data: '' @ p)" "length ([] :: string) + length (''data: '' @ p) < maxFrameBytes"
    "dropCR (''data: '' @ p) = ''data: '' @ p"
    using assms by (auto simp: line_safe_def dropCR_def)
  have frame: "data_frame p @ rest = (''data: '' @ p) @ newline # newline # rest"
    by (simp add: data_frame_def)
  show ?thesis
    unfolding frame scan_line [OF p(1,2)] by (simp only: append_Nil p(3) scan_empty_line fst_conv snd_conv)
qed

lemma scan_connected_frame:
  "scan_lines maxFrameBytes [] (connected_frame @ rest)
    = ('': connected'' # [] # fst (scan_lines maxFrameBytes [] rest), snd (scan_lines maxFrameBytes [] rest))"
proof -
  have frame: "connected_frame @ rest = '': connected'' @ newline # newline # rest"
    by (simp add: connected_frame_def)
  have p: "newline \<notin> set '': connected''" "length ([] :: string) + length '': connected'' < maxFrameBytes"
    "dropCR '': connected'' = '': connected''"
    by (simp_all add: maxFrameBytes_def dropCR_def)
  show ?thesis
    unfolding frame scan_line [OF p(1,2)] by (simp only: append_Nil p(3) scan_empty_line fst_conv snd_conv)
qed

lemma decode_empty_line: "decode_loop unmarshal b ([] # lines) = decode_loop unmarshal b lines"
  by (simp add: HasPrefix_def)

lemma decode_data_line:
  "decode_loop unmarshal b ((''data: '' @ p) # lines)
    = (case unmarshal p of None \<Rightarrow> decode_loop unmarshal b lines | Some r \<Rightarrow> r # decode_loop unmarshal b lines)"
  by (simp add: HasPrefix_def)

lemma frames_decode:
  assumes "\<And>r. r \<in> set rs \<Longrightarrow> \<exists>p. marshal (Some r) = Some p \<and> line_safe p \<and> unmarshal p = Some r"
  defines "out \<equiv> fst (handler_loop marshal (map (\<lambda>r. GotRecord (Some r) True) rs))"
  shows "decode_loop unmarshal b (fst (scan_lines maxFrameBytes [] out)) = rs \<and> \<not> snd (scan_lines maxFrameBytes [] out)"
  using assms(1) unfolding out_def
proof (induction rs)
  case (Cons r rs)
  obtain p where p: "marshal (Some r) = Some p" "line_safe p" "unmarshal p = Some r"
    using Cons.prems [of r] by auto
  let ?out = "fst (handler_loop marshal (map (\<lambda>r. GotRecord (Some r) True) rs))"
  have out: "fst (handler_loop marshal (map (\<lambda>r. GotRecord (Some r) True) (r # rs))) = data_frame p @ ?out"
    using p(1) by (simp add: case_prod_unfold Let_def)
  have "decode_loop unmarshal b (fst (scan_lines maxFrameBytes [] ?out)) = rs \<and> \<not> snd (scan_lines maxFrameBytes [] ?out)"
    using Cons by simp
  then show ?case
    unfolding out scan_data_frame [OF p(2)] fst_conv snd_conv decode_data_line decode_empty_line p(3) by simp
qed simp

text \<open>C22: What the handler writes for a sequence of records is what the client decodes, in order and
  completely, provided the JSON codec is a round trip on them and writes each on one line that does
  not end in a carriage return and, with its prefix, stays below the client's limit of 10 MiB.\<close>

theorem sse_roundtrip:
  assumes "\<And>r. r \<in> set rs \<Longrightarrow> \<exists>p. marshal (Some r) = Some p \<and> line_safe p \<and> unmarshal p = Some r"
  shows "let (out, _) = handler_loop marshal (map (\<lambda>r. GotRecord (Some r) True) rs);
      (lines, too_long) = scan_lines maxFrameBytes [] (connected_frame @ out)
    in \<not> too_long \<and> decode_loop unmarshal False lines = rs"
proof -
  have "decode_loop unmarshal False ('': connected'' # [] # lines) = decode_loop unmarshal True lines" for lines
    by (simp add: HasPrefix_def)
  with frames_decode [OF assms, where b = True] show ?thesis
    by (simp add: case_prod_unfold scan_connected_frame Let_def)
qed

text \<open>A codec for two records, enough to instantiate the round trip.\<close>

theorem sse_roundtrip_witness:
  "let r = \<lparr>rec_EmittedAt = None, rec_Kind = None\<rparr>; marshal = (\<lambda>x. Some ''{}''); unmarshal = (\<lambda>p. Some r);
      (out, _) = handler_loop marshal [GotRecord (Some r) True, GotRecord (Some r) True];
      (lines, too_long) = scan_lines maxFrameBytes [] (connected_frame @ out)
    in \<not> too_long \<and> decode_loop unmarshal False lines = [r, r]"
proof -
  let ?r = "\<lparr>rec_EmittedAt = None, rec_Kind = None\<rparr>"
  have "line_safe ''{}''" by (simp add: line_safe_def maxFrameBytes_def)
  with sse_roundtrip [of "[?r, ?r]" "\<lambda>x. Some ''{}''" "\<lambda>p. Some ?r"] show ?thesis by (simp add: Let_def)
qed

section \<open>Connections\<close>

datatype client_phase = Resting nat | Trying nat | Streaming nat | Stopped

definition client_step :: "client_phase \<Rightarrow> client_output \<Rightarrow> client_phase option" where
  "client_step ph out = (case (ph, out) of
     (Resting k, OutState st) \<Rightarrow>
       if cs_State st = StateConnecting \<and> cs_Attempt st = Suc k then Some (Trying (Suc k))
       else if cs_State st = StateDisconnected then Some Stopped else None
   | (Trying k, OutState st) \<Rightarrow>
       if cs_State st = StateConnected \<and> cs_Attempt st = k then Some (Streaming k)
       else if cs_State st = StateRetrying \<and> cs_Attempt st = k then Some (Resting k)
       else if cs_State st = StateDisconnected then Some Stopped else None
   | (Streaming k, OutRecord _) \<Rightarrow> Some (Streaming k)
   | (Streaming k, OutState st) \<Rightarrow>
       if cs_State st = StateRetrying \<and> cs_Attempt st = k then Some (Resting k)
       else if cs_State st = StateDisconnected then Some Stopped else None
   | _ \<Rightarrow> None)"

lemma deferred_close_error [simp]: "deferred_close resp (Some err) = Some err"
  by (simp add: deferred_close_def split: option.split)

lemma streamOnce_error: "\<exists>err. snd (streamOnce unmarshal e attempt) = Some err"
  by (auto simp: streamOnce_def case_prod_unfold Let_def split: option.split sum.split)

lemma streaming_records: "run_steps client_step (Streaming k) (map OutRecord rs) = Some (Streaming k)"
  by (induction rs) (simp_all add: client_step_def)

lemma streamOnce_phase:
  "run_steps client_step (Trying k) (fst (streamOnce unmarshal e k)) \<in> {Some (Trying k), Some (Streaming k)}"
  using streaming_records
  by (auto simp: streamOnce_def case_prod_unfold Let_def client_step_def connection_def split: option.split sum.split)

lemma Stream_loop_phase:
  "(case Stream_loop unmarshal es k of (outs, returned) \<Rightarrow>
     run_steps client_step (Resting k) outs = Some (if returned then Stopped else Resting (k + length es)))"
proof (induction es arbitrary: k)
  case (Cons e es)
  show ?case
  proof (cases "done_before e")
    case True
    then show ?thesis by (simp add: client_step_def connection_def)
  next
    case False
    obtain outs err where once: "streamOnce unmarshal e (Suc k) = (outs, Some err)"
      using streamOnce_error [of unmarshal e "Suc k"] by (metis prod.collapse)
    let ?pre = "OutState (connection StateConnecting (Suc k)) # outs"
    obtain ph where ph: "run_steps client_step (Resting k) ?pre = Some ph" "ph \<in> {Trying (Suc k), Streaming (Suc k)}"
      using streamOnce_phase [of "Suc k" unmarshal e] once by (auto simp: client_step_def connection_def)
    let ?retry = "OutState \<lparr>cs_State = StateRetrying, cs_Attempt = Suc k, cs_Err = err, cs_RetryAt = now_after e + 2 * Second\<rparr>"
    have pre: "run_steps client_step (Resting k) (?pre @ xs) = run_steps client_step ph xs" for xs
      by (simp only: run_steps_append ph(1) option.case)
    have stop: "run_steps client_step ph [OutState (connection StateDisconnected 0)] = Some Stopped"
      and retry: "run_steps client_step ph (?retry # xs) = run_steps client_step (Resting (Suc k)) xs" for xs
      using ph(2) by (auto simp: client_step_def connection_def)
    have idle: "run_steps client_step (Resting (Suc k)) [OutState (connection StateDisconnected 0)] = Some Stopped"
      by (simp add: client_step_def connection_def)
    have "Stream_loop unmarshal (e # es) k =
      (if done_after e then (?pre @ [OutState (connection StateDisconnected 0)], True)
       else if done_waiting e then (?pre @ [?retry, OutState (connection StateDisconnected 0)], True)
       else (?pre @ ?retry # fst (Stream_loop unmarshal es (Suc k)), snd (Stream_loop unmarshal es (Suc k))))"
      using False once by (simp add: case_prod_unfold Let_def)
    moreover have "run_steps client_step (Resting (Suc k)) (fst (Stream_loop unmarshal es (Suc k)))
        = Some (if snd (Stream_loop unmarshal es (Suc k)) then Stopped else Resting (Suc k + length es))"
      using Cons.IH [of "Suc k"] by (simp add: case_prod_unfold)
    ultimately show ?thesis
      by (simp only: pre stop retry idle case_prod_unfold fst_conv snd_conv split: if_split) auto
  qed
qed simp

text \<open>C23: The client's outputs follow the connection protocol: attempts are numbered from 1 without
  gaps, each is announced as connecting, records come only while it is connected, and it ends
  with a retry of the same number or with \<open>disconnected\<close>. The stream returns exactly when it
  has said \<open>disconnected\<close>, which nothing follows.\<close>

theorem Stream_protocol:
  "case Stream unmarshal es of (outs, returned) \<Rightarrow>
     run_steps client_step (Resting 0) outs = Some (if returned then Stopped else Resting (length es))"
  using Stream_loop_phase [where unmarshal = unmarshal and es = es and k = 0] by (simp only: Stream_def add_0)

text \<open>C24: A connection always ends with an error (\<open>stream closed\<close> at best), also when closing the
  body fails. The client therefore retries until its context ends; the end of \<open>Stream\<close> for a
  nil error is never reached, and as long as the context is alive the loop never returns.\<close>

theorem Stream_retries:
  "(\<exists>err. snd (streamOnce unmarshal e attempt) = Some err)
   \<and> (list_all (\<lambda>e. \<not> done_before e \<and> \<not> done_after e \<and> \<not> done_waiting e) es \<longrightarrow> \<not> snd (Stream unmarshal es))"
proof -
  have "list_all (\<lambda>e. \<not> done_before e \<and> \<not> done_after e \<and> \<not> done_waiting e) es \<Longrightarrow> \<not> snd (Stream_loop unmarshal es k)" for k
  proof (induction es arbitrary: k)
    case (Cons e es)
    obtain outs err where "streamOnce unmarshal e (Suc k) = (outs, Some err)"
      using streamOnce_error [of unmarshal e "Suc k"] by (metis prod.collapse)
    with Cons show ?case by (simp add: case_prod_unfold Let_def)
  qed simp
  then show ?thesis using streamOnce_error by (simp add: Stream_def)
qed

theorem Stream_retries_witness:
  "\<not> snd (Stream (\<lambda>_. None) [\<lparr>done_before = False, request_err = None, do_result = Inl ''refused'', done_after = False,
     now_after = 0, done_waiting = False\<rparr>])"
  using Stream_retries [where es = "[\<lparr>done_before = False, request_err = None, do_result = Inl ''refused'', done_after = False,
     now_after = 0, done_waiting = False\<rparr>]" and unmarshal = "\<lambda>_. None"] by simp

text \<open>C25: One request, whatever happens during it, leaves the hub as well-formed as it was: the
  handler never panics, and once it has returned its subscription is gone again.\<close>

theorem serve_unsubscribes:
  assumes "hub_inv (hb, w)"
  shows "\<exists>resp hb' w'. serve marshal flushable greeted es (hb, w) = Inr (resp, hb', w') \<and> hub_inv (hb', w')
    \<and> (resp_returned resp \<longrightarrow> subs hb' = subs hb) \<and> (\<not> flushable \<longrightarrow> resp_status resp = 500)"
proof (cases flushable)
  case True
  note sub = Subscribe_cases [OF assms, of 1024]
  define body where "body = (if \<not> greeted then ([], True)
      else let (out, returned) = handler_loop marshal es in (connected_frame @ out, returned))"
  let ?ch = "next_chan w"
  let ?c = "\<lparr>buffered = [], capacity = 1024, is_closed = closed hb\<rparr>"
  let ?w = "w\<lparr>channels := (channels w)(?ch \<mapsto> ?c), next_chan := Suc ?ch\<rparr>"
  let ?hb = "if closed hb then hb else hb\<lparr>subs := insert ?ch (subs hb)\<rparr>"
  let ?f = "if closed hb then CancelNothing else CancelSub ?ch"
  have run: "serve marshal flushable greeted es (hb, w) =
      bind_result (if snd body then cancel ?f (?hb, ?w) else Inr (?hb, ?w))
        (\<lambda>s. Inr (\<lparr>resp_headers = sse_headers, resp_status = 200, resp_body = fst body, resp_returned = snd body\<rparr>, s))"
    using True sub(1) by (simp add: serve_def body_def case_prod_unfold Let_def)
  have inv: "hub_inv (?hb, ?w)" using sub(2) by simp
  have "?ch \<notin> subs hb"
    using world_inv_fresh [OF hub_invD(1) [OF assms]] hub_invD(4) [OF assms, of ?ch] by auto
  then have subs: "subs hb' = subs hb" if "cancel ?f (?hb, ?w) = Inr (hb', w')" for hb' w'
    using that by (auto simp: cancel_def close_chan_def split: if_splits)
  obtain hb' w' where "cancel ?f (?hb, ?w) = Inr (hb', w')" "hub_inv (hb', w')"
    using cancel_inv [OF inv, of ?f] by auto
  with run inv subs True show ?thesis
    by (cases "snd body") auto
next
  case False
  with assms show ?thesis by (simp add: serve_def)
qed

theorem serve_unsubscribes_witness:
  "\<exists>resp hb' w'. serve (\<lambda>_. Some ''{}'') True True [GotRecord None True, RequestDone] (NewHub, empty_world) = Inr (resp, hb', w')
    \<and> hub_inv (hb', w') \<and> resp_returned resp \<and> subs hb' = {}"
proof -
  let ?run = "serve (\<lambda>_. Some ''{}'') True True [GotRecord None True, RequestDone] (NewHub, empty_world)"
  have "\<forall>resp s. ?run = Inr (resp, s) \<longrightarrow> resp_returned resp"
    by (auto simp: serve_def Let_def bind_result_Inr_iff)
  then show ?thesis
    using serve_unsubscribes [OF hub_inv_new, of "\<lambda>_. Some ''{}''" True True "[GotRecord None True, RequestDone]"]
    by (fastforce simp: NewHub_def)
qed

end
