(* ===== verification/Gostd_Time.thy ===== *)
theory Gostd_Time
  imports Gostd
begin

text \<open>
  What the viewers use of the standard library beyond \<open>Gostd\<close>: arithmetic on times and
  durations at their 64-bit width, rounding, the width of UTF-8 encoded runes, joining and
  splitting strings, and HTML escaping.
\<close>

section \<open>Times and durations\<close>

text \<open>A result of 64-bit signed arithmetic.\<close>

definition wrap64 :: "int \<Rightarrow> int" where
  "wrap64 n = (n + 2 ^ 63) mod 2 ^ 64 - 2 ^ 63"

definition maxDuration :: go_duration where "maxDuration = 2 ^ 63 - 1"
definition minDuration :: go_duration where "minDuration = - (2 ^ 63)"

text \<open>\<open>t.Sub(u)\<close> saturates.\<close>

definition time_Sub :: "go_time \<Rightarrow> go_time \<Rightarrow> go_duration" where
  "time_Sub t u = max minDuration (min maxDuration (t - u))"

definition UnixMilli :: "go_time \<Rightarrow> int" where
  "UnixMilli t = wrap64 (t div 1000000)"

definition UnixNano :: "go_time \<Rightarrow> int" where
  "UnixNano t = wrap64 t"

text \<open>Go's remainder has the sign of the dividend.\<close>

definition go_rem :: "int \<Rightarrow> int \<Rightarrow> int" where
  "go_rem a b = (if 0 \<le> a then a mod b else - ((- a) mod b))"

definition Truncate :: "go_duration \<Rightarrow> go_duration \<Rightarrow> go_duration" where
  "Truncate d m = (if m \<le> 0 then d else d - go_rem d m)"

definition Round :: "go_duration \<Rightarrow> go_duration \<Rightarrow> go_duration" where
  "Round d m =
    (if m \<le> 0 then d
     else let r = go_rem d m
     in if d < 0 then
          (let r = - r in if r + r < m then d + r
             else let d1 = wrap64 (d - m + r) in if d1 < d then d1 else minDuration)
        else if r + r < m then d - r
        else let d1 = wrap64 (d + m - r) in if d1 > d then d1 else maxDuration)"

lemma wrap64_id: "- (2 ^ 63) \<le> n \<Longrightarrow> n < 2 ^ 63 \<Longrightarrow> wrap64 n = n"
  by (simp add: wrap64_def)

lemma wrap64_range: "- (2 ^ 63) \<le> wrap64 n" "wrap64 n < 2 ^ 63"
  using pos_mod_bound [of "2 ^ 64 :: int" "n + 2 ^ 63"] pos_mod_sign [of "2 ^ 64 :: int" "n + 2 ^ 63"]
  by (simp_all add: wrap64_def)

lemma time_Sub_range: "minDuration \<le> time_Sub t u" "time_Sub t u \<le> maxDuration"
  by (simp_all add: time_Sub_def minDuration_def maxDuration_def)

lemma Round_nonneg: "0 \<le> d \<Longrightarrow> 0 \<le> Round d m"
  by (auto simp: Round_def Let_def go_rem_def maxDuration_def)
    (smt (verit) mult_nonneg_nonneg pos_mod_sign zmod_le_nonneg_dividend)

section \<open>Strings\<close>

definition join :: "string \<Rightarrow> string list \<Rightarrow> string" where
  "join sep xs = (case xs of [] \<Rightarrow> [] | y # ys \<Rightarrow> y @ concat (map (\<lambda>x. sep @ x) ys))"

text \<open>\<open>strings.Split\<close> at a single byte.\<close>

fun split_at :: "char \<Rightarrow> string \<Rightarrow> string list" where
  "split_at sep [] = [[]]"
| "split_at sep (c # cs) =
     (if c = sep then [] # split_at sep cs
      else case split_at sep cs of [] \<Rightarrow> [[c]] | l # ls \<Rightarrow> (c # l) # ls)"

text \<open>\<open>strings.TrimRight\<close> with a cutset of one byte.\<close>

definition TrimRight :: "string \<Rightarrow> char \<Rightarrow> string" where
  "TrimRight s c = rev (dropWhile (\<lambda>x. x = c) (rev s))"

definition Repeat :: "string \<Rightarrow> int \<Rightarrow> string" where
  "Repeat s n = concat (replicate (nat n) s)"

section \<open>Runes\<close>

definition byte_in :: "nat \<Rightarrow> nat \<Rightarrow> char \<Rightarrow> bool" where
  "byte_in lo hi c \<longleftrightarrow> lo \<le> of_char c \<and> (of_char c :: nat) \<le> hi"

abbreviation continuation :: "char \<Rightarrow> bool" where
  "continuation \<equiv> byte_in 0x80 0xBF"

text \<open>
  The number of bytes a \<open>range\<close> loop over a string consumes at once: a valid UTF-8 encoding,
  or one byte.
\<close>

definition rune_width :: "string \<Rightarrow> nat" where
  "rune_width s = (case s of
     b0 # b1 # b2 # b3 # _ \<Rightarrow>
       (if byte_in 0xC2 0xDF b0 \<and> continuation b1 then 2
        else if (byte_in 0xE0 0xE0 b0 \<and> byte_in 0xA0 0xBF b1 \<or> byte_in 0xED 0xED b0 \<and> byte_in 0x80 0x9F b1
            \<or> (byte_in 0xE1 0xEC b0 \<or> byte_in 0xEE 0xEF b0) \<and> continuation b1) \<and> continuation b2 then 3
        else if (byte_in 0xF0 0xF0 b0 \<and> byte_in 0x90 0xBF b1 \<or> byte_in 0xF4 0xF4 b0 \<and> byte_in 0x80 0x8F b1
            \<or> byte_in 0xF1 0xF3 b0 \<and> continuation b1) \<and> continuation b2 \<and> continuation b3 then 4
        else 1)
   | [b0, b1, b2] \<Rightarrow>
       (if byte_in 0xC2 0xDF b0 \<and> continuation b1 then 2
        else if (byte_in 0xE0 0xE0 b0 \<and> byte_in 0xA0 0xBF b1 \<or> byte_in 0xED 0xED b0 \<and> byte_in 0x80 0x9F b1
            \<or> (byte_in 0xE1 0xEC b0 \<or> byte_in 0xEE 0xEF b0) \<and> continuation b1) \<and> continuation b2 then 3
        else 1)
   | [b0, b1] \<Rightarrow> (if byte_in 0xC2 0xDF b0 \<and> continuation b1 then 2 else 1)
   | _ \<Rightarrow> 1)"

section \<open>html.EscapeString\<close>

fun html_EscapeString :: "string \<Rightarrow> string" where
  "html_EscapeString [] = []"
| "html_EscapeString (c # cs) =
     (if c = CHR ''&'' then ''&amp;''
      else if c = CHR 0x27 then ''&#39;''
      else if c = CHR ''<'' then ''&lt;''
      else if c = CHR ''>'' then ''&gt;''
      else if c = CHR 0x22 then ''&#34;''
      else [c]) @ html_EscapeString cs"

text \<open>Text that cannot open or close a tag or end a quoted attribute value.\<close>

definition html_safe :: "string \<Rightarrow> bool" where
  "html_safe s \<longleftrightarrow> CHR ''<'' \<notin> set s \<and> CHR ''>'' \<notin> set s \<and> CHR 0x22 \<notin> set s"

lemma html_safe_simps [simp]:
  "html_safe []"
  "html_safe (c # cs) \<longleftrightarrow> c \<noteq> CHR ''<'' \<and> c \<noteq> CHR ''>'' \<and> c \<noteq> CHR 0x22 \<and> html_safe cs"
  "html_safe (xs @ ys) \<longleftrightarrow> html_safe xs \<and> html_safe ys"
  by (auto simp: html_safe_def)

lemma html_safe_EscapeString [simp]: "html_safe (html_EscapeString s)"
  by (induction s) simp_all

end
