(* ===== verification/Templ.thy ===== *)
theory Templ
  imports Gostd_Time
begin

text \<open>
  What the generated code of \<open>components_templ.go\<close> is made of: the functions of the templ
  runtime, which are not part of the sources and so are fields of \<open>templ\<close>, and the sequence of
  writes to a buffer in which the first error wins. \<open>templ_laws\<close> says what the runtime documents.
  The section on nesting reads the output as a browser's tokenizer would, far enough to say
  which elements are open and whether a quoted attribute value is.
\<close>

section \<open>Literals\<close>

abbreviation quot :: string where
  "quot \<equiv> [CHR 0x22]"

text \<open>A line break and the tabs that indent the next line.\<close>

definition nl :: "nat \<Rightarrow> string" where
  "nl tabs = CHR 0x0A # replicate tabs (CHR 0x09)"

section \<open>The runtime\<close>

record css_class =
  css_ID :: string
  css_Class :: string

text \<open>The values of a \<open>class\<close> attribute.\<close>

datatype css_item = Class css_class | ConstantClass string | ClassKV css_class bool

record templ =
  EscapeString :: "string \<Rightarrow> string"
  ResolveAttributeValue :: "string \<Rightarrow> string + string"
  JoinStringErrs :: "string \<Rightarrow> string + string"
  SanitizeStyleAttributeValues :: "string \<Rightarrow> string + string"
  CSSClasses_String :: "css_item list \<Rightarrow> string"
  RenderCSSItems :: "css_item list \<Rightarrow> string set \<Rightarrow> (string + string) \<times> string set"
  Raw_Render :: "string \<Rightarrow> string + string"
  CSSID :: "string \<Rightarrow> string \<Rightarrow> string"
  SanitizeCSS :: "string \<Rightarrow> string \<Rightarrow> string"
  templ_Error :: "string \<Rightarrow> nat \<Rightarrow> nat \<Rightarrow> string"

definition css_component :: "templ \<Rightarrow> string \<Rightarrow> string list \<Rightarrow> css_class" where
  "css_component T name parts =
    (let css = concat parts; i = CSSID T name css
     in \<lparr>css_ID = i, css_Class = ''.'' @ i @ ''{'' @ css @ ''}''\<rparr>)"

text \<open>The classes that a list of values names, whether they are switched on or not.\<close>

fun item_classes :: "css_item \<Rightarrow> css_class list" where
  "item_classes (Class c) = [c]"
| "item_classes (ConstantClass s) = []"
| "item_classes (ClassKV c b) = [c]"

text \<open>
  What templ documents: escaped text and resolved attribute values hold no character that ends
  the text or the quoted value they are put in, joining no errors is no error, raw text is
  written as it is, and the style of a class is written once for a context.
\<close>

definition templ_laws :: "templ \<Rightarrow> bool" where
  "templ_laws T \<longleftrightarrow>
     (\<forall>s. html_safe (EscapeString T s))
   \<and> (\<forall>s. \<exists>v. ResolveAttributeValue T s = Inr v \<and> html_safe v)
   \<and> (\<forall>s. JoinStringErrs T s = Inr s)
   \<and> (\<forall>s. \<exists>v. SanitizeStyleAttributeValues T s = Inr v)
   \<and> (\<forall>s. Raw_Render T s = Inr s)
   \<and> (\<forall>items seen. \<exists>out seen'. RenderCSSItems T items seen = (Inr out, seen') \<and> seen \<subseteq> seen'
        \<and> (\<forall>c. Class c \<in> set items \<longrightarrow> css_ID c \<in> seen')
        \<and> ((\<forall>item \<in> set items. \<forall>c \<in> set (item_classes item). css_Class c = [] \<or> css_ID c \<in> seen) \<longrightarrow> out = []))"

section \<open>Rendering\<close>

text \<open>
  Rendering changes which styles the context has seen and the cache of highlighted code. It
  ends with the text written or with an error; it is \<open>None\<close> where the code would dereference
  nil or not return.
\<close>

record render_state =
  rs_seen :: "string set"
  rs_cache :: "string \<rightharpoonup> string"

type_synonym render = "render_state \<Rightarrow> ((string + string) \<times> render_state) option"

definition emit :: "string \<Rightarrow> render" where
  "emit s st = Some (Inr s, st)"

definition write_result :: "(string \<Rightarrow> string) \<Rightarrow> string + string \<Rightarrow> render" where
  "write_result wrap r st = Some (case r of Inl e \<Rightarrow> Inl (wrap e) | Inr s \<Rightarrow> Inr s, st)"

definition panic :: render where
  "panic st = None"

definition followed_by :: "render \<Rightarrow> render \<Rightarrow> render" where
  "followed_by f g st = (case f st of
     None \<Rightarrow> None
   | Some (Inl e, st) \<Rightarrow> Some (Inl e, st)
   | Some (Inr s, st) \<Rightarrow> (case g st of
       None \<Rightarrow> None
     | Some (Inl e, st) \<Rightarrow> Some (Inl e, st)
     | Some (Inr t, st) \<Rightarrow> Some (Inr (s @ t), st)))"

definition seq :: "render list \<Rightarrow> render" where
  "seq fs = foldr followed_by fs (emit [])"

text \<open>The forms of writes in the generated code.\<close>

definition write_css :: "templ \<Rightarrow> css_item list \<Rightarrow> render" where
  "write_css T items st = (case RenderCSSItems T items (rs_seen st) of (r, seen) \<Rightarrow> Some (r, st\<lparr>rs_seen := seen\<rparr>))"

definition write_classes :: "templ \<Rightarrow> css_item list \<Rightarrow> render" where
  "write_classes T items = write_result (\<lambda>e. templ_Error T e 1 0) (ResolveAttributeValue T (CSSClasses_String T items))"

definition write_attribute :: "templ \<Rightarrow> nat \<Rightarrow> nat \<Rightarrow> string \<Rightarrow> render" where
  "write_attribute T line col s = write_result (\<lambda>e. templ_Error T e line col) (ResolveAttributeValue T s)"

definition write_style :: "templ \<Rightarrow> nat \<Rightarrow> nat \<Rightarrow> string \<Rightarrow> render" where
  "write_style T line col s = write_result (\<lambda>e. templ_Error T e line col)
     (map_sum id (EscapeString T) (SanitizeStyleAttributeValues T s))"

definition write_text :: "templ \<Rightarrow> nat \<Rightarrow> nat \<Rightarrow> string \<Rightarrow> render" where
  "write_text T line col s = write_result (\<lambda>e. templ_Error T e line col)
     (map_sum id (EscapeString T) (JoinStringErrs T s))"

definition write_raw :: "templ \<Rightarrow> string \<Rightarrow> render" where
  "write_raw T s = write_result id (Raw_Render T s)"

lemma seq_simps [simp]: "seq [] = emit []" "seq (f # fs) = followed_by f (seq fs)"
  by (simp_all add: seq_def)

section \<open>Nesting\<close>

datatype html_mode =
    InText
  | TagStart
  | TagName string
  | InTag string
  | InValue string
  | EndTag string

type_synonym html_state = "html_mode \<times> string list"

text \<open>
  The elements a fragment may contain. The others, above all \<open>script\<close> and \<open>style\<close>, whose
  contents a browser does not read as text, have no place in one.
\<close>

definition void_elements :: "string list" where
  "void_elements = [''br'']"

definition plain_elements :: "string list" where
  "plain_elements = [''article'', ''button'', ''code'', ''div'', ''pre'', ''section'', ''span'', ''strong'']"

definition opened :: "string \<Rightarrow> string list \<Rightarrow> html_state option" where
  "opened n open =
    (if n \<in> set void_elements then Some (InText, open)
     else if n \<in> set plain_elements then Some (InText, n # open)
     else None)"

text \<open>One character: \<open>None\<close> where the text is not well nested.\<close>

fun html_step :: "html_state \<Rightarrow> char \<Rightarrow> html_state option" where
  "html_step (InText, open) c = Some (if c = CHR ''<'' then TagStart else InText, open)"
| "html_step (TagStart, open) c =
     (if c = CHR ''/'' then Some (EndTag [], open)
      else if c = CHR ''<'' \<or> c = CHR ''>'' \<or> c = CHR '' '' \<or> c = CHR 0x22 then None
      else Some (TagName [c], open))"
| "html_step (TagName n, open) c =
     (if c = CHR ''>'' then opened n open
      else if c = CHR '' '' then Some (InTag n, open)
      else if c = CHR ''<'' \<or> c = CHR 0x22 then None
      else Some (TagName (n @ [c]), open))"
| "html_step (InTag n, open) c =
     (if c = CHR ''>'' then opened n open
      else if c = CHR 0x22 then Some (InValue n, open)
      else if c = CHR ''<'' then None
      else Some (InTag n, open))"
| "html_step (InValue n, open) c = Some (if c = CHR 0x22 then InTag n else InValue n, open)"
| "html_step (EndTag n, open) c =
     (if c = CHR ''>'' then (case open of [] \<Rightarrow> None | m # ms \<Rightarrow> if m = n then Some (InText, ms) else None)
      else if c = CHR ''<'' \<or> c = CHR 0x22 then None
      else Some (EndTag (n @ [c]), open))"

fun html_run :: "html_state \<Rightarrow> string \<Rightarrow> html_state option" where
  "html_run st [] = Some st"
| "html_run st (c # cs) = (case html_step st c of None \<Rightarrow> None | Some st' \<Rightarrow> html_run st' cs)"

lemma html_run_append: "html_run st (xs @ ys) = (case html_run st xs of None \<Rightarrow> None | Some st' \<Rightarrow> html_run st' ys)"
  by (induction xs arbitrary: st) (simp_all split: option.split)

lemma html_run_safe:
  assumes "html_safe s"
  shows "html_run (InText, open) s = Some (InText, open)" and "html_run (InValue n, open) s = Some (InValue n, open)"
  using assms by (induction s) simp_all

text \<open>A complete fragment: well nested on its own, whatever is open around it.\<close>

definition fragment :: "string \<Rightarrow> bool" where
  "fragment s \<longleftrightarrow> (\<forall>open. html_run (InText, open) s = Some (InText, open))"

lemma fragmentD: "fragment s \<Longrightarrow> html_run (InText, open) s = Some (InText, open)"
  by (simp add: fragment_def)

lemma fragment_safe: "html_safe s \<Longrightarrow> fragment s"
  by (simp add: fragment_def html_run_safe)

lemma fragment_append: "fragment s \<Longrightarrow> fragment t \<Longrightarrow> fragment (s @ t)"
  by (simp add: fragment_def html_run_append)

end
