(* ===== verification/Web_Styles.thy ===== *)
theory Web_Styles
  imports Templ
begin

text \<open>
  The style classes of \<open>components_templ.go\<close>: each builds its declarations, derives an ID from
  its name and them, and returns both, the styles as a rule for that ID.
\<close>

definition appRoot :: "templ \<Rightarrow> css_class" where
  "appRoot T = css_component T ''appRoot'' [
     ''color-scheme:dark;'', ''--bg:#09090b;'', ''--panel:#0f0f10;'', ''--panel-subtle:#18181b;'',
     ''--text:#fafafa;'', ''--muted:#a1a1aa;'', ''--line:#27272a;'', ''--accent:#fafafa;'',
     ''--accent-subtle:#18181b;'', ''--ok:#22c55e;'', ''--warn:#eab308;'', ''--err:#ef4444;'',
     ''--code:#030303;'', ''box-sizing:border-box;'', ''margin:0;'',
     SanitizeCSS T ''background'' ''linear-gradient(to right, rgb(39 39 42 / 45%) 1px, transparent 1px), linear-gradient(to bottom, rgb(39 39 42 / 45%) 1px, transparent 1px), var(--bg)'',
     ''background-size:48px 48px;'', ''color:var(--text);'',
     SanitizeCSS T ''font'' (''14px/1.45 Inter, ui-sans-serif, system-ui, -apple-system, BlinkMacSystemFont, '' @ [CHR 0x27] @ ''Segoe UI'' @ [CHR 0x27] @ '', sans-serif''),
     (''font-feature-settings:'' @ quot @ ''cv02'' @ quot @ '', '' @ quot @ ''cv03'' @ quot @ '', '' @ quot @ ''cv04'' @ quot @ '', '' @ quot @ ''cv11'' @ quot @ '';'')]"

definition topBar :: "templ \<Rightarrow> css_class" where
  "topBar T = css_component T ''topBar'' [
     ''box-sizing:border-box;'', ''position:sticky;'', ''top:0;'', ''z-index:10;'', ''display:flex;'',
     ''justify-content:space-between;'', ''gap:1rem;'', ''align-items:center;'', ''padding:.75rem 1rem;'',
     ''border-bottom:1px solid var(--line);'', ''background:rgb(9 9 11 / 88%);'',
     ''backdrop-filter:blur(12px);'']"

definition brandTitle :: "templ \<Rightarrow> css_class" where
  "brandTitle T = css_component T ''brandTitle'' [
     ''margin:0;'', ''font-size:.875rem;'', ''font-weight:600;'', ''letter-spacing:-.01em;'']"

definition toolbarLabel :: "templ \<Rightarrow> css_class" where
  "toolbarLabel T = css_component T ''toolbarLabel'' [
     ''display:inline-flex;'', ''align-items:center;'', ''gap:.45rem;'', ''color:var(--muted);'',
     ''font-size:.8125rem;'']"

definition pageMain :: "templ \<Rightarrow> css_class" where
  "pageMain T = css_component T ''pageMain'' [
     ''box-sizing:border-box;'', ''padding:1rem;'', ''padding-bottom:5.5rem;'', ''max-width:1180px;'',
     ''margin:0 auto;'']"

definition footerDock :: "templ \<Rightarrow> css_class" where
  "footerDock T = css_component T ''footerDock'' [
     ''box-sizing:border-box;'', ''position:fixed;'', ''z-index:20;'', ''left:0;'', ''right:0;'',
     ''bottom:0;'', ''border-top:1px solid var(--line);'', ''background:rgb(9 9 11 / 92%);'',
     ''backdrop-filter:blur(12px);'']"

definition statusBar :: "templ \<Rightarrow> css_class" where
  "statusBar T = css_component T ''statusBar'' [
     ''box-sizing:border-box;'', ''max-width:1180px;'', ''margin:0 auto;'', ''padding:.625rem 1rem;'',
     ''display:flex;'', ''align-items:center;'', ''justify-content:space-between;'', ''gap:.75rem;'',
     ''flex-wrap:wrap;'']"

definition statusGroup :: "templ \<Rightarrow> css_class" where
  "statusGroup T = css_component T ''statusGroup'' [
     ''display:flex;'', ''align-items:center;'', ''gap:.5rem;'', ''flex-wrap:wrap;'']"

definition pill :: "templ \<Rightarrow> css_class" where
  "pill T = css_component T ''pill'' [
     ''box-sizing:border-box;'', ''display:inline-flex;'', ''align-items:center;'', ''gap:.35rem;'',
     ''border:1px solid var(--line);'', ''padding:.25rem .5rem;'', ''background:var(--panel);'',
     ''color:var(--muted);'', ''font-size:.8125rem;'', ''white-space:nowrap;'']"

definition dot :: "templ \<Rightarrow> css_class" where
  "dot T = css_component T ''dot'' [
     ''width:.5rem;'', ''height:.5rem;'', ''border-radius:999px;'', ''background:var(--muted);'',
     ''display:inline-block;'']"

definition dotConnected :: "templ \<Rightarrow> css_class" where
  "dotConnected T = css_component T ''dotConnected'' [
     ''background:var(--ok);'']"

definition dotConnecting :: "templ \<Rightarrow> css_class" where
  "dotConnecting T = css_component T ''dotConnecting'' [
     ''background:var(--warn);'', ''animation:pulse 900ms infinite alternate;'']"

definition dotRetrying :: "templ \<Rightarrow> css_class" where
  "dotRetrying T = css_component T ''dotRetrying'' [
     ''background:var(--warn);'', ''animation:pulse 900ms infinite alternate;'']"

definition dotDisconnected :: "templ \<Rightarrow> css_class" where
  "dotDisconnected T = css_component T ''dotDisconnected'' [
     ''background:var(--muted);'']"

definition buttonBase :: "templ \<Rightarrow> css_class" where
  "buttonBase T = css_component T ''buttonBase'' [
     ''box-sizing:border-box;'', ''color:var(--text);'', ''background:var(--panel);'',
     ''border:1px solid var(--line);'', ''padding:.375rem .625rem;'', ''font:inherit;'',
     ''font-size:.8125rem;'', ''font-weight:500;'', ''cursor:pointer;'']"

definition dangerButton :: "templ \<Rightarrow> css_class" where
  "dangerButton T = css_component T ''dangerButton'' [
     ''color:#fca5a5;'', ''border-color:rgb(239 68 68 / 38%);'', ''background:rgb(127 29 29 / 18%);'']"

definition emptyState :: "templ \<Rightarrow> css_class" where
  "emptyState T = css_component T ''emptyState'' [
     ''box-sizing:border-box;'', ''display:grid;'', ''place-items:center;'', ''min-height:55vh;'',
     ''color:var(--muted);'', ''border:1px dashed #3f3f46;'', ''background:rgb(15 15 16 / 72%);'',
     ''text-align:center;'', ''padding:2rem;'']"

definition emptyTitle :: "templ \<Rightarrow> css_class" where
  "emptyTitle T = css_component T ''emptyTitle'' [
     ''color:var(--text);'', ''font-weight:600;'']"

definition traceList :: "templ \<Rightarrow> css_class" where
  "traceList T = css_component T ''traceList'' [
     ''display:flex;'', ''flex-direction:column;'', ''gap:.75rem;'']"

definition spanCard :: "templ \<Rightarrow> css_class" where
  "spanCard T = css_component T ''spanCard'' [
     ''box-sizing:border-box;'', ''--span-hue:260;'', ''border:1px solid var(--line);'',
     ''border-left:3px solid hsl(var(--span-hue) 56% 62% / 78%);'', ''background:rgb(15 15 16 / 88%);'',
     ''overflow:hidden;'', ''box-shadow:0 1px 2px rgb(0 0 0 / 32%);'']"

definition spanChildren :: "templ \<Rightarrow> css_class" where
  "spanChildren T = css_component T ''spanChildren'' [
     ''box-sizing:border-box;'', ''padding:0 .75rem .75rem 1rem;'']"

definition spanHeader :: "templ \<Rightarrow> css_class" where
  "spanHeader T = css_component T ''spanHeader'' [
     ''box-sizing:border-box;'', ''display:flex;'', ''justify-content:space-between;'',
     ''align-items:start;'', ''gap:.75rem;'', ''padding:.75rem .875rem;'']"

definition spanTitle :: "templ \<Rightarrow> css_class" where
  "spanTitle T = css_component T ''spanTitle'' [
     ''min-width:0;'']"

definition spanName :: "templ \<Rightarrow> css_class" where
  "spanName T = css_component T ''spanName'' [
     ''font-weight:600;'', ''letter-spacing:-.01em;'', ''color:var(--text);'', ''word-break:break-word;'']"

definition spanMeta :: "templ \<Rightarrow> css_class" where
  "spanMeta T = css_component T ''spanMeta'' [
     ''display:flex;'', ''gap:.45rem;'', ''flex-wrap:wrap;'', ''margin-top:.2rem;'', ''color:var(--muted);'',
     ''font-size:.75rem;'']"

definition spanState :: "templ \<Rightarrow> css_class" where
  "spanState T = css_component T ''spanState'' [
     ''display:inline-flex;'', ''align-items:center;'', ''gap:.4rem;'', ''color:var(--muted);'',
     ''white-space:nowrap;'', ''font-size:.8125rem;'']"

definition statusOK :: "templ \<Rightarrow> css_class" where
  "statusOK T = css_component T ''statusOK'' [
     ''color:var(--ok);'']"

definition statusError :: "templ \<Rightarrow> css_class" where
  "statusError T = css_component T ''statusError'' [
     ''color:var(--err);'']"

definition spinner :: "templ \<Rightarrow> css_class" where
  "spinner T = css_component T ''spinner'' [
     ''width:.625rem;'', ''height:.625rem;'', ''border:1.5px solid var(--warn);'',
     ''border-right-color:transparent;'', ''border-radius:999px;'', ''animation:spin 700ms linear infinite;'']"

definition sectionBlock :: "templ \<Rightarrow> css_class" where
  "sectionBlock T = css_component T ''sectionBlock'' [
     ''box-sizing:border-box;'', ''border-top:1px solid var(--line);'', ''padding:.75rem .875rem;'']"

definition sectionTitle :: "templ \<Rightarrow> css_class" where
  "sectionTitle T = css_component T ''sectionTitle'' [
     ''color:var(--muted);'', ''font-size:.6875rem;'', ''font-weight:600;'', ''letter-spacing:.08em;'',
     ''text-transform:uppercase;'', ''margin-bottom:.5rem;'']"

definition attrsGrid :: "templ \<Rightarrow> css_class" where
  "attrsGrid T = css_component T ''attrsGrid'' [
     ''display:grid;'', ''gap:.5rem;'']"

definition attrRow :: "templ \<Rightarrow> css_class" where
  "attrRow T = css_component T ''attrRow'' [
     ''display:grid;'', ''grid-template-columns:minmax(8rem, 12rem) minmax(0, 1fr);'', ''gap:.75rem;'',
     ''align-items:start;'']"

definition attrLabelClass :: "templ \<Rightarrow> css_class" where
  "attrLabelClass T = css_component T ''attrLabelClass'' [
     ''color:var(--muted);'', ''font-weight:500;'', ''font-size:.8125rem;'']"

definition attrValueClass :: "templ \<Rightarrow> css_class" where
  "attrValueClass T = css_component T ''attrValueClass'' [
     ''color:var(--text);'', ''min-width:0;'', ''overflow-wrap:anywhere;'']"

definition badge :: "templ \<Rightarrow> css_class" where
  "badge T = css_component T ''badge'' [
     ''display:inline-flex;'', ''width:fit-content;'', ''border:1px solid var(--line);'',
     ''padding:.125rem .375rem;'', ''background:var(--accent-subtle);'', ''color:var(--text);'',
     ''font-size:.75rem;'', ''font-weight:500;'']"

definition codeBlock :: "templ \<Rightarrow> css_class" where
  "codeBlock T = css_component T ''codeBlock'' [
     ''box-sizing:border-box;'', ''margin:.15rem 0 0;'', ''overflow:auto;'',
     ''border:1px solid var(--line);'', ''background:var(--code);'', ''padding:.75rem;'']"

definition codeText :: "templ \<Rightarrow> css_class" where
  "codeText T = css_component T ''codeText'' [
     SanitizeCSS T ''font'' (''12px/1.5 ui-monospace, SFMono-Regular, Menlo, Monaco, Consolas, '' @ [CHR 0x27] @ ''Liberation Mono'' @ [CHR 0x27] @ '', monospace''),
     ''color:#fafafa;'']"

definition timelineList :: "templ \<Rightarrow> css_class" where
  "timelineList T = css_component T ''timelineList'' [
     ''display:grid;'', ''gap:.75rem;'']"

definition timelineItemClass :: "templ \<Rightarrow> css_class" where
  "timelineItemClass T = css_component T ''timelineItemClass'' [
     ''min-width:0;'']"

definition eventCardClass :: "templ \<Rightarrow> css_class" where
  "eventCardClass T = css_component T ''eventCardClass'' [
     ''box-sizing:border-box;'', ''border:1px solid var(--line);'', ''border-left:3px solid var(--muted);'',
     ''background:rgb(24 24 27 / 52%);'', ''padding:.625rem .75rem;'']"

definition eventWarnCard :: "templ \<Rightarrow> css_class" where
  "eventWarnCard T = css_component T ''eventWarnCard'' [
     ''border-left-color:var(--warn);'']"

definition eventErrorCard :: "templ \<Rightarrow> css_class" where
  "eventErrorCard T = css_component T ''eventErrorCard'' [
     ''border-left-color:var(--err);'']"

definition eventHeaderClass :: "templ \<Rightarrow> css_class" where
  "eventHeaderClass T = css_component T ''eventHeaderClass'' [
     ''display:flex;'', ''justify-content:space-between;'', ''gap:.7rem;'', ''color:var(--text);'',
     ''font-weight:500;'']"

definition eventOffsetClass :: "templ \<Rightarrow> css_class" where
  "eventOffsetClass T = css_component T ''eventOffsetClass'' [
     ''color:var(--muted);'', ''white-space:nowrap;'', ''font-size:.75rem;'', ''font-weight:400;'']"

definition errorMessage :: "templ \<Rightarrow> css_class" where
  "errorMessage T = css_component T ''errorMessage'' [
     ''color:#fca5a5;'', ''background:rgb(127 29 29 / 18%);'', ''border:1px solid rgb(239 68 68 / 28%);'',
     ''padding:.5rem .625rem;'']"

section \<open>The stylesheet\<close>

text \<open>The classes whose styles the page's stylesheet serves, \<open>render.go\<close>.\<close>

definition stylesheetClasses :: "templ \<Rightarrow> css_class list" where
  "stylesheetClasses T = [
     appRoot T, topBar T, brandTitle T, toolbarLabel T, pageMain T, footerDock T, statusBar T, statusGroup T,
     pill T, dot T, dotConnected T, dotConnecting T, dotRetrying T, dotDisconnected T, buttonBase T,
     dangerButton T, emptyState T, emptyTitle T, traceList T, spanCard T, spanChildren T, spanHeader T,
     spanTitle T, spanName T, spanMeta T, spanState T, statusOK T, statusError T, spinner T, sectionBlock T,
     sectionTitle T, attrsGrid T, attrRow T, attrLabelClass T, attrValueClass T, badge T, codeBlock T,
     codeText T, timelineList T, timelineItemClass T, eventCardClass T, eventWarnCard T, eventErrorCard T,
     eventHeaderClass T, eventOffsetClass T, errorMessage T]"

end
