(* ===== verification/Store_Attrs.thy ===== *)
theory Store_Attrs
  imports Store_Life
begin

text \<open>
  What an update does to a span's attributes, what the store copies, and the times it reads
  from records.
\<close>

section \<open>Copies\<close>

lemma state_clone_loop_eq:
  "state_clone_loop rt attrs cloned = cloned @ map (map_option (CloneOf rt)) (filter (\<lambda>a. a \<noteq> None) attrs)"
  by (induction attrs arbitrary: cloned) (auto split: option.splits)

lemma state_cloneAttributes_eq: "state_cloneAttributes rt attrs = cloneAttributes rt attrs"
  by (auto simp: state_cloneAttributes_def cloneAttributes_eq state_clone_loop_eq)

lemma state_clone_one:
  assumes "pb_laws rt" and "incoming \<noteq> None"
  shows "state_cloneAttributes rt [incoming] ! 0 = incoming"
  using assms by (simp add: state_cloneAttributes_eq cloneAttributes_laws)

section \<open>Updating attributes\<close>

text \<open>The attribute a reader finds under a key: the first one.\<close>

definition attr_find :: "string \<Rightarrow> attribute option list \<Rightarrow> attribute option option" where
  "attr_find k attrs = find (\<lambda>a. a \<noteq> None \<and> Attribute_GetKey a = k) attrs"

lemma attr_find_simps [simp]:
  "attr_find k [] = None"
  "attr_find k (a # attrs) = (if a \<noteq> None \<and> Attribute_GetKey a = k then Some a else attr_find k attrs)"
  by (simp_all add: attr_find_def)

lemma attr_find_append:
  "attr_find k (xs @ ys) = (case attr_find k xs of Some a \<Rightarrow> Some a | None \<Rightarrow> attr_find k ys)"
  by (induction xs) auto

lemma attr_find_None: "None \<notin> set attrs \<Longrightarrow> attr_find k attrs = None \<longleftrightarrow> k \<notin> set (map Attribute_GetKey attrs)"
  by (induction attrs) (auto split: if_splits)

text \<open>The incoming attributes an update takes into account.\<close>

definition effective :: "attribute option list \<Rightarrow> attribute option list" where
  "effective attrs = filter (\<lambda>a. a \<noteq> None \<and> Attribute_GetKey a \<noteq> []) attrs"

lemma replace_attr_spec:
  assumes "pb_laws rt" and "incoming \<noteq> None" and "None \<notin> set attrs"
  shows "case replace_attr rt incoming attrs of
      None \<Rightarrow> Attribute_GetKey incoming \<notin> set (map Attribute_GetKey attrs)
    | Some attrs' \<Rightarrow> Attribute_GetKey incoming \<in> set (map Attribute_GetKey attrs)
        \<and> map Attribute_GetKey attrs' = map Attribute_GetKey attrs \<and> None \<notin> set attrs'
        \<and> (\<forall>k. attr_find k attrs' = (if k = Attribute_GetKey incoming then Some incoming else attr_find k attrs))"
  using assms(3)
proof (induction attrs)
  case (Cons a attrs)
  then show ?case
    using assms(2) state_clone_one [OF assms(1,2)] by (cases a) (auto split: option.splits)
qed simp

definition upsert :: "pb_runtime \<Rightarrow> attribute option \<Rightarrow> attribute option list \<Rightarrow> attribute option list" where
  "upsert rt incoming attrs = (case replace_attr rt incoming attrs of
     Some attrs' \<Rightarrow> attrs' | None \<Rightarrow> attrs @ [state_cloneAttributes rt [incoming] ! 0])"

lemma update_attrs_upsert:
  "update_attrs rt ins attrs = fold (upsert rt) (effective ins) attrs"
  by (induction ins arbitrary: attrs) (auto simp: effective_def upsert_def)

lemma upsert_spec:
  assumes "pb_laws rt" and "incoming \<noteq> None" and "None \<notin> set attrs"
  shows "map Attribute_GetKey (upsert rt incoming attrs) = (let k = Attribute_GetKey incoming; ks = map Attribute_GetKey attrs
           in if k \<in> set ks then ks else ks @ [k])"
    and "attr_find k (upsert rt incoming attrs) = (if k = Attribute_GetKey incoming then Some incoming else attr_find k attrs)"
    and "None \<notin> set (upsert rt incoming attrs)"
  using replace_attr_spec [OF assms] state_clone_one [OF assms(1,2)] assms(2,3)
    attr_find_None [OF assms(3), of "Attribute_GetKey incoming"]
  by (auto simp: upsert_def attr_find_append Let_def split: option.splits)

lemma fold_upsert_find:
  assumes "pb_laws rt" and "None \<notin> set ins" and "None \<notin> set attrs"
  shows "attr_find k (fold (upsert rt) ins attrs)
    = (case attr_find k (rev ins) of Some a \<Rightarrow> Some a | None \<Rightarrow> attr_find k attrs)"
  using assms(2,3)
proof (induction ins arbitrary: attrs)
  case (Cons a ins)
  then have a: "a \<noteq> None" by (cases a) auto
  from Cons.IH [of "upsert rt a attrs"] Cons.prems upsert_spec [OF assms(1) a Cons.prems(2)] show ?case
    using a by (simp add: attr_find_append del: not_None_eq split: option.split)
qed simp

lemma keep_first_Cons: "keep_first (x # xs) = x # filter (\<lambda>y. y \<noteq> x) (keep_first xs)"
proof (induction xs rule: rev_induct)
  case (snoc y ys)
  have "keep_first (x # ys @ [y]) = keep_first ((x # ys) @ [y])" by simp
  also have "\<dots> = x # filter (\<lambda>z. z \<noteq> x) (keep_first (ys @ [y]))"
    using snoc by (auto simp only: keep_first_snoc) auto
  finally show ?case .
qed (simp add: keep_first_def)

lemma fold_upsert_keys:
  assumes "pb_laws rt" and "None \<notin> set ins" and "None \<notin> set attrs"
  shows "map Attribute_GetKey (fold (upsert rt) ins attrs) = map Attribute_GetKey attrs
    @ filter (\<lambda>k. k \<notin> set (map Attribute_GetKey attrs)) (keep_first (map Attribute_GetKey ins))"
  using assms(2,3)
proof (induction ins arbitrary: attrs)
  case (Cons a ins)
  then have a: "a \<noteq> None" by (cases a) auto
  from Cons.IH [of "upsert rt a attrs"] Cons.prems upsert_spec [OF assms(1) a Cons.prems(2)] show ?case
    using a by (cases "Attribute_GetKey a \<in> set (map Attribute_GetKey attrs)")
      (auto simp: keep_first_Cons Let_def intro!: filter_cong)
qed (simp add: keep_first_def)

text \<open>C9: Updating attributes is an upsert by key. A key reads as its last occurrence among the
  incoming attributes, and as before if there is none; the existing keys keep their places and
  new ones follow in the order they first arrived, each once; nil and key-less incoming
  attributes are skipped.\<close>

theorem update_attrs_upserts:
  assumes "pb_laws rt" and "None \<notin> set attrs"
  shows "attr_find k (update_attrs rt ins attrs)
      = (case attr_find k (rev (effective ins)) of Some a \<Rightarrow> Some a | None \<Rightarrow> attr_find k attrs)
    \<and> map Attribute_GetKey (update_attrs rt ins attrs) = map Attribute_GetKey attrs
        @ filter (\<lambda>i. i \<notin> set (map Attribute_GetKey attrs)) (keep_first (map Attribute_GetKey (effective ins)))"
proof -
  have "None \<notin> set (effective ins)" by (simp add: effective_def)
  then show ?thesis
    by (simp only: update_attrs_upsert fold_upsert_find [OF assms(1) _ assms(2)]
        fold_upsert_keys [OF assms(1) _ assms(2)] simp_thms)
qed

theorem update_attrs_upserts_witness:
  "let at = (\<lambda>k v. Some (String_attr ref_runtime k v []));
       out = update_attrs ref_runtime [at ''b'' ''2'', None, at ''c'' ''3'', at ''b'' ''4''] [at ''a'' ''0'', at ''b'' ''1'']
   in attr_find ''b'' out = Some (at ''b'' ''4'') \<and> map Attribute_GetKey out = [''a'', ''b'', ''c'']"
proof -
  let ?at = "\<lambda>k v. Some (String_attr ref_runtime k v [])"
  let ?ins = "[?at ''b'' ''2'', None, ?at ''c'' ''3'', ?at ''b'' ''4'']"
  have "effective ?ins = [?at ''b'' ''2'', ?at ''c'' ''3'', ?at ''b'' ''4'']"
    by (simp add: effective_def getter_simps)
  with update_attrs_upserts [OF pb_laws_ref_runtime, of "[?at ''a'' ''0'', ?at ''b'' ''1'']" "''b''" ?ins]
  show ?thesis
    by (simp add: Let_def getter_simps keep_first_def)
qed

section \<open>Times\<close>

text \<open>C10: A record without a timestamp is read as the Unix epoch, never as the zero time:
  \<open>timeValue\<close>'s test for nil looks at the interface, which holds a typed nil pointer. A span
  that is started, given an event and ended by records without \<open>started_at\<close>, \<open>event_at\<close> and
  \<open>ended_at\<close> therefore looks timed in the store: all three of its times are the epoch.\<close>

theorem missing_time_is_epoch:
  assumes "pb_laws rt" and "store_wf s"
    and start: "Record_GetSpanStarted r1 = Some x" "SpanStarted_GetSpanId (Some x) = i" "SpanStarted_GetParentSpanId (Some x) = q"
      "SpanStarted_GetStartedAt (Some x) = None"
    and taken: "i \<noteq> []" "byID s i = None" "q = [] \<or> allowUnknownParents s \<or> byID s q \<noteq> None"
    and event: "Record_GetSpanEvent r2 = Some e" "SpanEvent_GetSpanId (Some e) = i" "SpanEvent_GetEventAt (Some e) = None"
    and "end": "Record_GetSpanEnded r3 = Some d" "SpanEnded_GetSpanId (Some d) = i" "SpanEnded_GetEndedAt (Some d) = None"
  shows "\<exists>s' p sp en. run_steps (Apply rt) s [r1, r2, r3] = Some s' \<and> byID s' i = Some p \<and> heap s' p = Some sp
    \<and> StartedAt sp = unix_epoch \<and> Events sp = [Some en] \<and> ev_At en = unix_epoch
    \<and> Ended sp \<and> EndedAt sp = unix_epoch \<and> \<not> IsZero unix_epoch"
proof -
  let ?p = "next_addr s" and ?sp = "started_span rt (Some x)"
  obtain s1 where s1: "Apply rt s r1 = Some s1" "byID s1 = (byID s)(i \<mapsto> ?p)" "heap s1 ?p = Some ?sp"
    using Apply_start_new [OF assms(2) start(1), of rt] start(2,3) taken by metis
  let ?s2 = "s1\<lparr>heap := (heap s1)(?p \<mapsto> event_span rt (Some e) ?sp)\<rparr>"
  have s2: "Apply rt s1 r2 = Some ?s2"
    using Apply_event_open [OF event(1)] event(2) s1(2,3) by simp
  let ?s3 = "?s2\<lparr>heap := (heap ?s2)(?p \<mapsto> ended_span rt (Some d) (event_span rt (Some e) ?sp))\<rparr>"
  have s3: "Apply rt ?s2 r3 = Some ?s3"
    by (rule Apply_end_open [OF "end"(1)]) (use "end"(2) s1(2) in \<open>simp_all add: event_span_def\<close>)
  have "run_steps (Apply rt) s [r1, r2, r3] = Some ?s3" using s1(1) s2 s3 by simp
  then show ?thesis
    using s1(2) start(4) event(3) "end"(3) pb_lawsD(5) [OF assms(1)]
    by (auto simp: ended_span_def event_span_def event_entry_def started_span_def)
qed

text \<open>Records that name the root span \<open>i\<close> and carry no time.\<close>

definition timeless_start :: "string \<Rightarrow> span_started" where
  "timeless_start i = SpanStarted_Build ref_runtime
     \<lparr>stb_TraceId = Some ''t'', stb_SpanId = Some i, stb_ParentSpanId = None, stb_Name = Some i,
      stb_StartedAt = None, stb_Attributes = []\<rparr>"

definition timeless_event :: "string \<Rightarrow> span_event" where
  "timeless_event i = SpanEvent_Build ref_runtime
     \<lparr>evb_TraceId = Some ''t'', evb_SpanId = Some i, evb_Name = Some ''e'', evb_EventAt = None,
      evb_Attributes = [], evb_Severity = None\<rparr>"

definition timeless_end :: "string \<Rightarrow> span_ended" where
  "timeless_end i = SpanEnded_Build ref_runtime
     \<lparr>enb_TraceId = Some ''t'', enb_SpanId = Some i, enb_EndedAt = None, enb_TerminalType = None, enb_ErrorMessage = None\<rparr>"

theorem missing_time_is_epoch_witness:
  "\<exists>s' p sp en. run_steps (Apply ref_runtime) sample_store
      [Some (Record_Build (empty_Record_builder\<lparr>rb_SpanStarted := Some (timeless_start ''d'')\<rparr>)),
       Some (Record_Build (empty_Record_builder\<lparr>rb_SpanEvent := Some (timeless_event ''d'')\<rparr>)),
       Some (Record_Build (empty_Record_builder\<lparr>rb_SpanEnded := Some (timeless_end ''d'')\<rparr>))] = Some s'
    \<and> byID s' ''d'' = Some p \<and> heap s' p = Some sp
    \<and> StartedAt sp = unix_epoch \<and> Events sp = [Some en] \<and> ev_At en = unix_epoch
    \<and> Ended sp \<and> EndedAt sp = unix_epoch \<and> \<not> IsZero unix_epoch"
proof (rule missing_time_is_epoch [where q = "[]"])
  show "pb_laws ref_runtime" and "store_wf sample_store" by simp_all
qed (code_simp | simp add: Record_getter_defs Record_Build_Kind empty_Record_builder_def)+

end
