(* ===== verification/Timeline.thy ===== *)
theory Timeline
  imports Store_Attrs
begin

text \<open>
  The chronological view of a span, \<open>state/timeline.go\<close>: its events and children merged and
  sorted with \<open>slices.SortStableFunc\<close>. The comparator's contract is a locale; the sort is
  proved stable for every comparator that keeps it, and the only such function.
\<close>

section \<open>Stable sorting\<close>

text \<open>\<open>slices.SortStableFunc\<close>: each element is moved left past those it is smaller than.\<close>

fun insert_stable :: "('a \<Rightarrow> 'a \<Rightarrow> int) \<Rightarrow> 'a \<Rightarrow> 'a list \<Rightarrow> 'a list" where
  "insert_stable cmp x [] = [x]"
| "insert_stable cmp x (y # ys) = (if cmp x y < 0 then x # y # ys else y # insert_stable cmp x ys)"

definition SortStableFunc :: "('a \<Rightarrow> 'a \<Rightarrow> int) \<Rightarrow> 'a list \<Rightarrow> 'a list" where
  "SortStableFunc cmp xs = foldl (\<lambda>sorted x. insert_stable cmp x sorted) [] xs"

lemma mset_insert_stable [simp]: "mset (insert_stable cmp x ys) = add_mset x (mset ys)"
  by (induction ys) auto

lemma set_insert_stable [simp]: "set (insert_stable cmp x ys) = insert x (set ys)"
  by (induction ys) auto

lemma SortStableFunc_snoc: "SortStableFunc cmp (xs @ [x]) = insert_stable cmp x (SortStableFunc cmp xs)"
  by (simp add: SortStableFunc_def)

lemma mset_SortStableFunc [simp]: "mset (SortStableFunc cmp xs) = mset xs"
  by (induction xs rule: rev_induct) (simp_all add: SortStableFunc_snoc, simp add: SortStableFunc_def)

text \<open>What the Go documentation asks of a comparison function: a strict weak ordering.\<close>

locale comparator =
  fixes cmp :: "'a \<Rightarrow> 'a \<Rightarrow> int"
  assumes cmp_flip: "cmp x y < 0 \<longleftrightarrow> 0 < cmp y x"
    and cmp_trans: "cmp x y \<le> 0 \<Longrightarrow> cmp y z \<le> 0 \<Longrightarrow> cmp x z \<le> 0"
begin

lemma cmp_refl: "cmp x x = 0"
  using cmp_flip [of x x] by linarith

lemma cmp_le_flip: "\<not> cmp x y < 0 \<longleftrightarrow> cmp y x \<le> 0"
  using cmp_flip [of x y] by linarith

lemma insert_sorted:
  "sorted_wrt (\<lambda>x y. cmp x y \<le> 0) ys \<Longrightarrow> sorted_wrt (\<lambda>x y. cmp x y \<le> 0) (insert_stable cmp x ys)"
proof (induction ys)
  case (Cons y ys)
  show ?case
  proof (cases "cmp x y < 0")
    case True
    then have le: "cmp x z \<le> 0" if "cmp y z \<le> 0" for z
      using that cmp_trans [of x y z] by linarith
    have "\<forall>z \<in> set ys. cmp x z \<le> 0"
      using Cons.prems le by simp
    with True Cons.prems show ?thesis by simp
  next
    case False
    then have "cmp y x \<le> 0" by (simp add: cmp_le_flip)
    with False Cons show ?thesis by auto
  qed
qed simp

lemma SortStableFunc_sorted: "sorted_wrt (\<lambda>x y. cmp x y \<le> 0) (SortStableFunc cmp xs)"
  by (induction xs rule: rev_induct) (simp_all add: SortStableFunc_snoc insert_sorted, simp add: SortStableFunc_def)

lemma insert_filter:
  assumes "sorted_wrt (\<lambda>x y. cmp x y \<le> 0) ys"
  shows "filter (\<lambda>y. cmp k y = 0) (insert_stable cmp x ys) = filter (\<lambda>y. cmp k y = 0) (ys @ [x])"
  using assms
proof (induction ys)
  case (Cons y ys)
  show ?case
  proof (cases "cmp x y < 0")
    case True
    have "cmp k z \<noteq> 0" if "cmp k x = 0" and "z \<in> set (y # ys)" for z
    proof
      assume "cmp k z = 0"
      then have "cmp z k \<le> 0" using cmp_flip [of k z] by linarith
      then have "cmp z x \<le> 0" using that(1) cmp_trans [of z k x] by simp
      moreover have "cmp y z \<le> 0" using that(2) Cons.prems cmp_refl by auto
      ultimately have "cmp y x \<le> 0" using cmp_trans by blast
      with True show False using cmp_flip [of x y] by linarith
    qed
    then have "cmp k x = 0 \<Longrightarrow> filter (\<lambda>z. cmp k z = 0) (y # ys) = []"
      by (simp add: filter_empty_conv)
    with True show ?thesis by auto
  qed (use Cons in auto)
qed simp

lemma SortStableFunc_stable: "filter (\<lambda>y. cmp k y = 0) (SortStableFunc cmp xs) = filter (\<lambda>y. cmp k y = 0) xs"
proof (induction xs rule: rev_induct)
  case (snoc x xs)
  then show ?case
    by (simp add: SortStableFunc_snoc insert_filter [OF SortStableFunc_sorted])
qed (simp add: SortStableFunc_def)

lemma classes_set:
  assumes "\<And>k. filter (\<lambda>y. cmp k y = 0) xs = filter (\<lambda>y. cmp k y = 0) ys"
  shows "set xs = set ys"
proof (rule set_eqI)
  fix z
  have "z \<in> set xs \<longleftrightarrow> z \<in> set (filter (\<lambda>y. cmp z y = 0) xs)"
    by (simp add: cmp_refl)
  also have "\<dots> \<longleftrightarrow> z \<in> set ys"
    by (simp add: assms cmp_refl)
  finally show "z \<in> set xs \<longleftrightarrow> z \<in> set ys" .
qed

text \<open>Order, contents and stability determine the result.\<close>

lemma stable_unique:
  assumes "sorted_wrt (\<lambda>x y. cmp x y \<le> 0) xs" and "sorted_wrt (\<lambda>x y. cmp x y \<le> 0) ys"
    and "\<And>k. filter (\<lambda>y. cmp k y = 0) xs = filter (\<lambda>y. cmp k y = 0) ys"
  shows "xs = ys"
  using assms
proof (induction xs arbitrary: ys)
  case Nil
  then show ?case using classes_set [of "[]" ys] by simp
next
  case (Cons x xs)
  have mem: "z \<in> set (x # xs) \<longleftrightarrow> z \<in> set ys" for z
    using classes_set [OF Cons.prems(3)] by simp
  from mem [of x] obtain y us where ys: "ys = y # us" by (cases ys) auto
  have "cmp x y \<le> 0" using mem [of y] ys Cons.prems(1) cmp_refl by auto
  moreover have "cmp y x \<le> 0" using mem [of x] ys Cons.prems(2) cmp_refl by auto
  ultimately have "cmp x y = 0" using cmp_le_flip [of x y] by linarith
  then have "x = y" using Cons.prems(3) [of x] ys cmp_refl [of x] by simp
  have "filter (\<lambda>z. cmp k z = 0) xs = filter (\<lambda>z. cmp k z = 0) us" for k
    using Cons.prems(3) [of k] ys \<open>x = y\<close> by (simp split: if_splits)
  with Cons.IH [of us] Cons.prems(1,2) ys \<open>x = y\<close> show ?case by simp
qed

lemma SortStableFunc_unique:
  assumes "sorted_wrt (\<lambda>x y. cmp x y \<le> 0) ys" and "\<And>k. filter (\<lambda>y. cmp k y = 0) ys = filter (\<lambda>y. cmp k y = 0) xs"
  shows "ys = SortStableFunc cmp xs"
  by (rule stable_unique [OF assms(1) SortStableFunc_sorted]) (simp add: assms(2) SortStableFunc_stable)

end

section \<open>The timeline\<close>

record timeline_item =
  item_At :: go_time
  item_Index :: nat
  item_Event :: "event_state option"
  item_Span :: "addr option"

fun timeline_events :: "event_state option list \<Rightarrow> timeline_item list \<Rightarrow> timeline_item list" where
  "timeline_events [] items = items"
| "timeline_events (None # events) items = timeline_events events items"
| "timeline_events (Some event # events) items = timeline_events events
     (items @ [\<lparr>item_At = ev_At event, item_Index = length items, item_Event = Some event, item_Span = None\<rparr>])"

fun timeline_children :: "span_heap \<Rightarrow> addr list \<Rightarrow> timeline_item list \<Rightarrow> timeline_item list" where
  "timeline_children h [] items = items"
| "timeline_children h (child # children) items =
     (case h child of
        None \<Rightarrow> timeline_children h children items
      | Some c \<Rightarrow> timeline_children h children
          (items @ [\<lparr>item_At = StartedAt c, item_Index = length items, item_Event = None, item_Span = Some child\<rparr>]))"

definition cmp_Compare :: "'a :: linorder \<Rightarrow> 'a \<Rightarrow> int" where
  "cmp_Compare x y = (if x < y then -1 else if x > y then 1 else 0)"

definition timeline_cmp :: "timeline_item \<Rightarrow> timeline_item \<Rightarrow> int" where
  "timeline_cmp left right =
    (if IsZero (item_At left) \<and> IsZero (item_At right) then cmp_Compare (item_Index left) (item_Index right)
     else if IsZero (item_At left) then 1
     else if IsZero (item_At right) then -1
     else cmp_Compare (item_At left) (item_At right))"

definition TimelineItems :: "span_heap \<Rightarrow> addr \<Rightarrow> timeline_item list" where
  "TimelineItems h p = (case h p of
     None \<Rightarrow> []
   | Some span \<Rightarrow> SortStableFunc timeline_cmp
       (timeline_children h (Children span) (timeline_events (Events span) [])))"

interpretation timeline: comparator timeline_cmp
  by unfold_locales (auto simp: timeline_cmp_def cmp_Compare_def split: if_splits)

section \<open>Chronological order\<close>

text \<open>The entries of a span: its events, then its children, numbered in that order.\<close>

definition event_items :: "event_state option list \<Rightarrow> timeline_item list" where
  "event_items events = concat (map (\<lambda>e. case e of None \<Rightarrow> []
     | Some e \<Rightarrow> [\<lparr>item_At = ev_At e, item_Index = 0, item_Event = Some e, item_Span = None\<rparr>]) events)"

definition child_items :: "span_heap \<Rightarrow> addr list \<Rightarrow> timeline_item list" where
  "child_items h children = concat (map (\<lambda>p. case h p of None \<Rightarrow> []
     | Some c \<Rightarrow> [\<lparr>item_At = StartedAt c, item_Index = 0, item_Event = None, item_Span = Some p\<rparr>]) children)"

definition number_from :: "nat \<Rightarrow> timeline_item list \<Rightarrow> timeline_item list" where
  "number_from n items = map (\<lambda>(i, item). item\<lparr>item_Index := i\<rparr>) (enumerate n items)"

lemma number_from_simps [simp]:
  "number_from n [] = []"
  "number_from n (x # xs) = x\<lparr>item_Index := n\<rparr> # number_from (Suc n) xs"
  by (simp_all add: number_from_def)

lemma number_from_append: "number_from n (xs @ ys) = number_from n xs @ number_from (n + length xs) ys"
  by (induction xs arbitrary: n) simp_all

lemma length_number_from [simp]: "length (number_from n xs) = length xs"
  by (simp add: number_from_def)

lemma number_from_ge: "x \<in> set (number_from n xs) \<Longrightarrow> n \<le> item_Index x"
proof (induction xs arbitrary: n)
  case (Cons y ys)
  then show ?case by (auto dest: Suc_leD)
qed simp

lemma number_from_sorted: "sorted_wrt (\<lambda>x y. item_Index x < item_Index y) (number_from n xs)"
  by (induction xs arbitrary: n) (auto dest: number_from_ge)

lemma timeline_events_eq:
  "timeline_events events items = items @ number_from (length items) (event_items events)"
proof (induction events arbitrary: items)
  case (Cons e events)
  then show ?case by (cases e) (simp_all add: event_items_def)
qed (simp add: event_items_def)

lemma timeline_children_eq:
  "timeline_children h children items = items @ number_from (length items) (child_items h children)"
proof (induction children arbitrary: items)
  case (Cons c children)
  then show ?case by (cases "h c") (simp_all add: child_items_def)
qed (simp add: child_items_def)

lemma timeline_base:
  "timeline_children h children (timeline_events events []) = number_from 0 (event_items events @ child_items h children)"
  by (simp add: timeline_events_eq timeline_children_eq number_from_append)

definition chronological :: "timeline_item list \<Rightarrow> timeline_item list" where
  "chronological items = sort_key item_At (filter (\<lambda>x. \<not> IsZero (item_At x)) items)
     @ filter (\<lambda>x. IsZero (item_At x)) items"

lemma timeline_cmp_simps [simp]:
  "timeline_cmp x y = 0 \<longleftrightarrow> item_At x = item_At y \<and> (IsZero (item_At x) \<longrightarrow> item_Index x = item_Index y)"
  "timeline_cmp x y \<le> 0 \<longleftrightarrow> (if IsZero (item_At x) then IsZero (item_At y) \<and> item_Index x \<le> item_Index y
     else IsZero (item_At y) \<or> item_At x \<le> item_At y)"
  by (auto simp: timeline_cmp_def cmp_Compare_def IsZero_def)

lemma chronological_sorted:
  assumes "sorted_wrt (\<lambda>x y. item_Index x < item_Index y) items"
  shows "sorted_wrt (\<lambda>x y. timeline_cmp x y \<le> 0) (chronological items)"
proof -
  have "sorted_wrt (\<lambda>x y. item_At x \<le> item_At y) (sort_key item_At xs)" for xs
    using sorted_sort_key [of item_At xs] by (simp add: sorted_map)
  then have "sorted_wrt (\<lambda>x y. timeline_cmp x y \<le> 0) (sort_key item_At (filter (\<lambda>x. \<not> IsZero (item_At x)) items))"
    by (rule sorted_wrt_mono_rel [rotated]) auto
  moreover have "sorted_wrt (\<lambda>x y. timeline_cmp x y \<le> 0) (filter (\<lambda>x. IsZero (item_At x)) items)"
    by (rule sorted_wrt_mono_rel [OF _ sorted_wrt_filter [OF assms]]) auto
  ultimately show ?thesis
    by (auto simp: chronological_def sorted_wrt_append)
qed

lemma chronological_stable:
  "filter (\<lambda>y. timeline_cmp k y = 0) (chronological items) = filter (\<lambda>y. timeline_cmp k y = 0) items"
proof (cases "IsZero (item_At k)")
  case True
  then have "(timeline_cmp k y = 0) = (IsZero (item_At y) \<and> item_Index y = item_Index k)" for y
    by (auto simp: IsZero_def)
  then show ?thesis
    by (auto simp: chronological_def filter_empty_conv intro: filter_cong)
next
  case False
  then have "(timeline_cmp k y = 0) = (item_At y = item_At k)" for y by auto
  moreover have "filter (\<lambda>y. item_At y = item_At k) (filter (\<lambda>x. \<not> IsZero (item_At x)) items)
      = filter (\<lambda>y. item_At y = item_At k) items"
    using False by (auto intro: filter_cong)
  ultimately show ?thesis
    using False by (auto simp: chronological_def sort_key_stable filter_empty_conv)
qed

text \<open>C11: The timeline of a span holds exactly its non-nil events and children: first those with
  a timestamp in chronological order, ties in the order of the slices with events before
  children, then those without one in that order.\<close>

theorem TimelineItems_chronological:
  "TimelineItems h p = (case h p of None \<Rightarrow> []
     | Some span \<Rightarrow> chronological (number_from 0 (event_items (Events span) @ child_items h (Children span))))"
proof (cases "h p")
  case (Some span)
  have "chronological (number_from 0 xs) = SortStableFunc timeline_cmp (number_from 0 xs)" for xs
    by (rule timeline.SortStableFunc_unique [OF chronological_sorted [OF number_from_sorted] chronological_stable])
  with Some show ?thesis by (simp add: TimelineItems_def timeline_base)
qed (simp add: TimelineItems_def)

section \<open>Untimed records in the timeline\<close>

definition event_record :: "string \<Rightarrow> string \<Rightarrow> go_time option \<Rightarrow> sap_record option" where
  "event_record i name at = Some (Record_Build
     (empty_Record_builder\<lparr>rb_SpanEvent := Some (SpanEvent_Build ref_runtime
        \<lparr>evb_TraceId = Some ''t'', evb_SpanId = Some i, evb_Name = Some name,
         evb_EventAt = map_option (TimestampNew ref_runtime) at, evb_Attributes = [], evb_Severity = None\<rparr>)\<rparr>))"

text \<open>An event that reaches the store without a timestamp sorts first, not last: on a store
  that saw an event at time 5 and then one without a time, the timeline begins with the latter.\<close>

theorem untimed_record_sorts_first:
  "map (\<lambda>item. map_option ev_Name (item_Event item)) (TimelineItems (heap (the (run_steps (Apply ref_runtime) NewStore
     [start_record ''a'' [] 1, event_record ''a'' ''timed'' (Some 5), event_record ''a'' ''untimed'' None]))) 1)
   = [Some ''untimed'', Some ''timed'']"
  by code_simp

end
