(* ===== verification/Web_Render.thy ===== *)
theory Web_Render
  imports Web_Styles Timeline Sse
begin

text \<open>
  The functions of \<open>viewer/sap-web/render.go\<close> that the templates call: texts, classes and DOM
  identifiers derived from a span, an event or the connection, and highlighted code with its
  cache. A pointer to a span is the object it refers to, \<open>None\<close> for nil; the map of stale open
  spans is the store's. What chroma does is a parameter.
\<close>

section \<open>Status\<close>

definition spanHue :: "nat \<Rightarrow> int" where
  "spanHue depth = [310, 265, 25, 48, 136, 195] ! (depth mod 6)"

definition no_class :: css_class where
  "no_class = \<lparr>css_ID = [], css_Class = []\<rparr>"

definition statusToneClass :: "templ \<Rightarrow> span_state option \<Rightarrow> (string \<rightharpoonup> go_time) \<Rightarrow> css_class" where
  "statusToneClass T span marks = (case span of
     None \<Rightarrow> no_class
   | Some sp \<Rightarrow>
       if \<not> Ended sp then (if marks (SpanID sp) \<noteq> None then statusError T else no_class)
       else if ErrorMessage sp \<noteq> [] then statusError T
       else statusOK T)"

text \<open>The cross and the check mark are UTF-8 encoded.\<close>

definition cross_mark :: string where "cross_mark = [CHR 0xE2, CHR 0x9C, CHR 0x95]"
definition check_mark :: string where "check_mark = [CHR 0xE2, CHR 0x9C, CHR 0x93]"

definition statusIcon :: "span_state option \<Rightarrow> (string \<rightharpoonup> go_time) \<Rightarrow> string" where
  "statusIcon span marks = (case span of
     None \<Rightarrow> []
   | Some sp \<Rightarrow>
       if \<not> Ended sp then (if marks (SpanID sp) \<noteq> None then cross_mark else [])
       else if ErrorMessage sp \<noteq> [] then cross_mark
       else check_mark)"

definition statusText :: "span_state option \<Rightarrow> (string \<rightharpoonup> go_time) \<Rightarrow> string" where
  "statusText span marks = (case span of
     None \<Rightarrow> ''unknown''
   | Some sp \<Rightarrow>
       if \<not> Ended sp then (if marks (SpanID sp) \<noteq> None then ''stale'' else ''running'')
       else if ErrorMessage sp \<noteq> [] then ''error''
       else ''complete'')"

section \<open>Times\<close>

definition formatDuration :: "go_duration \<Rightarrow> string" where
  "formatDuration d =
    (let d = (if d < 0 then 0 else d)
     in if d < Second then Duration_String (Round d (10 * Millisecond))
        else if d < Minute then Duration_String (Round d (100 * Millisecond))
        else Duration_String (Round d Second))"

definition hasTimer :: "span_state option \<Rightarrow> bool" where
  "hasTimer span = (case span of None \<Rightarrow> False | Some sp \<Rightarrow> \<not> IsZero (StartedAt sp))"

definition timerStartMS :: "span_state option \<Rightarrow> int" where
  "timerStartMS span = (case span of None \<Rightarrow> 0 | Some sp \<Rightarrow> if IsZero (StartedAt sp) then 0 else UnixMilli (StartedAt sp))"

definition timerEndMS :: "span_state option \<Rightarrow> (string \<rightharpoonup> go_time) \<Rightarrow> int" where
  "timerEndMS span marks = (case span of
     None \<Rightarrow> 0
   | Some sp \<Rightarrow>
       if Ended sp \<and> \<not> IsZero (EndedAt sp) then UnixMilli (EndedAt sp)
       else (case marks (SpanID sp) of Some staleAt \<Rightarrow> UnixMilli staleAt | None \<Rightarrow> 0))"

definition timerXData :: "span_state option \<Rightarrow> (string \<rightharpoonup> go_time) \<Rightarrow> string" where
  "timerXData span marks = ''sapTimer('' @ Itoa (timerStartMS span) @ '','' @ Itoa (timerEndMS span marks) @ '')''"

definition timingView :: "span_state option \<Rightarrow> go_time \<Rightarrow> (string \<rightharpoonup> go_time) \<Rightarrow> string" where
  "timingView span now marks =
    (if \<not> hasTimer span then []
     else let endMS = timerEndMS span marks
     in if endMS > 0 then formatDuration (wrap64 (wrap64 (endMS - timerStartMS span) * Millisecond))
        else formatDuration (time_Sub now (StartedAt (the span))))"

definition timelineOffset :: "span_state option \<Rightarrow> timeline_item \<Rightarrow> string" where
  "timelineOffset parent item = (case parent of
     None \<Rightarrow> []
   | Some sp \<Rightarrow>
       if IsZero (StartedAt sp) \<or> IsZero (item_At item) then []
       else ''+'' @ formatDuration (time_Sub (item_At item) (StartedAt sp)))"

section \<open>Identifiers\<close>

definition spanCardKey :: "span_state option \<Rightarrow> string" where
  "spanCardKey span = (case span of
     None \<Rightarrow> []
   | Some sp \<Rightarrow>
       if SpanID sp \<noteq> [] then ''span:'' @ SpanID sp
       else ''span:'' @ TraceID sp @ '':'' @ Name sp @ '':'' @ Itoa (UnixNano (StartedAt sp)))"

definition ident_char :: "char \<Rightarrow> bool" where
  "ident_char c \<longleftrightarrow> byte_in 97 122 c \<or> byte_in 65 90 c \<or> byte_in 48 57 c \<or> c = CHR ''-'' \<or> c = CHR ''_''"

text \<open>The loop over the runes; all that are kept are one byte wide.\<close>

function ident_loop :: "string \<Rightarrow> string" where
  "ident_loop [] = []"
| "ident_loop (c # cs) = (if ident_char c then c # ident_loop cs
     else CHR ''-'' # ident_loop (drop (rune_width (c # cs) - 1) cs))"
  by pat_completeness auto
termination
  by (relation "measure length") auto

definition safeCSSIdent :: "string \<Rightarrow> string \<Rightarrow> string" where
  "safeCSSIdent val fallback = (if val = [] then fallback else ''sap-'' @ ident_loop val)"

definition spanDOMID :: "span_state option \<Rightarrow> string" where
  "spanDOMID span = safeCSSIdent (spanCardKey span) ''sap-span-unknown''"

definition spanSummaryDOMID :: "span_state option \<Rightarrow> string" where
  "spanSummaryDOMID span = safeCSSIdent (''summary:'' @ spanCardKey span) ''sap-span-summary-unknown''"

definition spanAttributesDOMID :: "span_state option \<Rightarrow> string" where
  "spanAttributesDOMID span = safeCSSIdent (''attrs:'' @ spanCardKey span) ''sap-span-attrs-unknown''"

definition spanTimelineDOMID :: "span_state option \<Rightarrow> string" where
  "spanTimelineDOMID span = safeCSSIdent (''timeline:'' @ spanCardKey span) ''sap-span-timeline-unknown''"

definition timelineListDOMID :: "span_state option \<Rightarrow> string" where
  "timelineListDOMID span = safeCSSIdent (''timeline-list:'' @ spanCardKey span) ''sap-span-timeline-list-unknown''"

definition attrDOMID :: "string \<Rightarrow> attribute option \<Rightarrow> nat \<Rightarrow> string" where
  "attrDOMID ownerKey attr index =
    (let key = (if attr \<noteq> None then Attribute_GetKey attr else [])
     in safeCSSIdent (''attr:'' @ ownerKey @ '':'' @ key @ '':'' @ Itoa (int index)) ''sap-attr-unknown'')"

definition eventDOMID :: "string \<Rightarrow> string" where
  "eventDOMID key = safeCSSIdent key ''sap-event-unknown''"

definition spanStyle :: "nat \<Rightarrow> string" where
  "spanStyle depth = ''--span-hue:'' @ Itoa (spanHue depth)"

definition eventCardKey :: "span_state option \<Rightarrow> timeline_item \<Rightarrow> string" where
  "eventCardKey parent item =
    (let parentID = (case parent of None \<Rightarrow> [] | Some sp \<Rightarrow> SpanID sp);
         name = (case item_Event item of None \<Rightarrow> [] | Some e \<Rightarrow> ev_Name e)
     in ''event:'' @ parentID @ '':'' @ Itoa (UnixNano (item_At item)) @ '':'' @ Itoa (int (item_Index item)) @ '':'' @ name)"

definition shortID :: "string \<Rightarrow> string" where
  "shortID i = (if length i \<le> 8 then i else take 8 i)"

section \<open>Attributes and code\<close>

fun hasHint :: "string list \<Rightarrow> string \<Rightarrow> bool" where
  "hasHint [] want = False"
| "hasHint (hint # hints) want = (if hint = want then True else hasHint hints want)"

fun code_prefix_loop :: "string list \<Rightarrow> string option" where
  "code_prefix_loop [] = None"
| "code_prefix_loop (hint # hints) =
     (if HasPrefix hint ''code:'' then Some (TrimPrefix hint ''code:'') else code_prefix_loop hints)"

definition codeLanguage :: "string list \<Rightarrow> string" where
  "codeLanguage hints = (case code_prefix_loop hints of
     Some lang \<Rightarrow> lang
   | None \<Rightarrow> if hasHint hints ''code'' then ''text'' else [])"

definition attrIsBadge :: "attribute option \<Rightarrow> bool" where
  "attrIsBadge attr \<longleftrightarrow> attr \<noteq> None \<and> hasHint (Attribute_GetDisplayHints attr) ''badge''"

definition attrIsCode :: "attribute option \<Rightarrow> bool" where
  "attrIsCode attr = (if attr = None then False
     else codeLanguage (Attribute_GetDisplayHints attr) \<noteq> [] \<or> hasHint (Attribute_GetDisplayHints attr) ''code'')"

text \<open>Chroma's lexers, styles and formatter; lexers, styles and token streams are handles.\<close>

record chroma =
  lexers_Get :: "string \<Rightarrow> nat option"
  lexers_Analyse :: "string \<Rightarrow> nat option"
  lexers_Fallback :: nat
  Coalesce :: "nat \<Rightarrow> nat"
  styles_Get :: "string \<Rightarrow> nat option"
  styles_Fallback :: nat
  Tokenise :: "nat \<Rightarrow> string \<Rightarrow> string + nat"
  html_Format :: "nat \<Rightarrow> nat \<Rightarrow> string + string"

definition highlight_key :: "string \<Rightarrow> string \<Rightarrow> string" where
  "highlight_key lang src = lang @ CHR 0x00 # src"

text \<open>The text, and whether it is stored in the cache.\<close>

definition highlight_uncached :: "chroma \<Rightarrow> string \<Rightarrow> string \<Rightarrow> string \<times> bool" where
  "highlight_uncached C lang src =
    (let lexer = lexers_Get C lang;
         lexer = (if lexer = None then lexers_Analyse C src else lexer);
         lexer = (case lexer of None \<Rightarrow> lexers_Fallback C | Some l \<Rightarrow> l);
         lexer = Coalesce C lexer;
         style = styles_Get C ''github-dark'';
         style = (if style = None then styles_Get C ''monokai'' else style);
         style = (case style of None \<Rightarrow> styles_Fallback C | Some st \<Rightarrow> st)
     in case Tokenise C lexer src of
          Inl err \<Rightarrow> (html_EscapeString src, False)
        | Inr tokens \<Rightarrow> (case html_Format C style tokens of
            Inl err \<Rightarrow> (html_EscapeString src, False)
          | Inr out \<Rightarrow> (TrimRight out (CHR 0x0A), True)))"

definition highlightCodeHTML :: "chroma \<Rightarrow> string \<Rightarrow> string \<Rightarrow> (string \<rightharpoonup> string) \<Rightarrow> string \<times> (string \<rightharpoonup> string)" where
  "highlightCodeHTML C lang src cache =
    (let cacheKey = highlight_key lang src
     in case cache cacheKey of
          Some highlighted \<Rightarrow> (highlighted, cache)
        | None \<Rightarrow> (case highlight_uncached C lang src of
            (highlighted, store) \<Rightarrow> (highlighted, if store then cache(cacheKey \<mapsto> highlighted) else cache)))"

section \<open>Connection\<close>

definition connectionDotClass :: "templ \<Rightarrow> ConnectionState \<Rightarrow> css_class" where
  "connectionDotClass T conn =
    (if cs_State conn = StateConnected then dotConnected T
     else if cs_State conn = StateConnecting then dotConnecting T
     else if cs_State conn = StateRetrying then dotRetrying T
     else dotDisconnected T)"

definition connectionLabel :: "ConnectionState \<Rightarrow> string" where
  "connectionLabel conn = (if cs_State conn = [] then StateDisconnected else cs_State conn)"

text \<open>\<open>now\<close> is what \<open>time.Until\<close> reads from the clock.\<close>

definition connectionDetail :: "go_time \<Rightarrow> ConnectionState \<Rightarrow> string" where
  "connectionDetail now conn =
    (if cs_State conn = StateConnecting
     then (if cs_Attempt conn > 0 then ''attempt '' @ Itoa (int (cs_Attempt conn)) else [])
     else if cs_State conn = StateRetrying
     then (if cs_Err conn \<noteq> [] then cs_Err conn
           else if \<not> IsZero (cs_RetryAt conn)
           then let remaining = Round (time_Sub (cs_RetryAt conn) now) Second;
                    remaining = (if remaining < 0 then 0 else remaining)
                in ''retry in '' @ Duration_String remaining
           else [])
     else [])"

definition pauseButtonLabel :: "bool \<Rightarrow> string" where
  "pauseButtonLabel paused = (if paused then ''Resume'' else ''Pause'')"

end
