(* ===== verification/Web_Templates.thy ===== *)
theory Web_Templates
  imports Web_Render
begin

text \<open>
  The templates of \<open>components_templ.go\<close>, write by write. The templates of a span nest: a card
  holds a timeline, which holds the cards of the children. The templates between two cards take
  the renderer of the inner ones, as an argument; \<open>SpanCard\<close> ties the knot, with fuel
  that \<open>Web_Safety\<close> shows to be enough on every store. Reading a field through a nil pointer
  panics.
\<close>

section \<open>Arguments\<close>

record web_env =
  web_templ :: templ
  web_chroma :: chroma

record snapshot =
  RootsHTML :: string
  PatchHTML :: string
  StatusHTML :: string

type_synonym stale_marks = "string \<rightharpoonup> go_time"

text \<open>The renderer of a span's card: its address, its depth, and whether it is swapped out of band.\<close>

type_synonym card = "addr \<Rightarrow> nat \<Rightarrow> bool \<Rightarrow> render"

definition deref :: "span_state option \<Rightarrow> (span_state \<Rightarrow> render) \<Rightarrow> render" where
  "deref span f = (case span of None \<Rightarrow> panic | Some sp \<Rightarrow> f sp)"

text \<open>\<open>templ.Raw\<close> of highlighted code, which reads and fills the cache.\<close>

definition highlighted :: "web_env \<Rightarrow> string \<Rightarrow> string \<Rightarrow> render" where
  "highlighted E lang src st =
    (case highlightCodeHTML (web_chroma E) lang src (rs_cache st) of
       (out, cache) \<Rightarrow> write_raw (web_templ E) out (st\<lparr>rs_cache := cache\<rparr>))"

section \<open>Templates\<close>

definition Attributes_templ :: "web_env \<Rightarrow> string \<Rightarrow> attribute option list \<Rightarrow> render" where
  "Attributes_templ E ownerKey attrs =
    (let T = web_templ E in
      seq [
        write_css T [Class (attrsGrid T)],
        emit (''<div class='' @ quot),
        write_classes T [Class (attrsGrid T)],
        emit (quot @ ''>''),
        seq (map (\<lambda>(i, attr). seq [
          (if attr \<noteq> None then seq [
            write_css T [Class (attrRow T), ConstantClass ''anim-enter''],
            emit (''<div id='' @ quot),
            write_attribute T 631 42 (attrDOMID ownerKey attr i),
            emit (quot @ '' class='' @ quot),
            write_classes T [Class (attrRow T), ConstantClass ''anim-enter''],
            emit (quot @ ''>''),
            write_css T [Class (attrLabelClass T)],
            emit (''<div class='' @ quot),
            write_classes T [Class (attrLabelClass T)],
            emit (quot @ ''>''),
            write_text T 632 52 (Attribute_GetKey attr),
            emit ''</div>'',
            write_css T [Class (attrValueClass T)],
            emit (''<div class='' @ quot),
            write_classes T [Class (attrValueClass T)],
            emit (quot @ ''>''),
            (if attrIsCode attr then seq [
              write_css T [Class (codeBlock T)],
              emit (''<pre class='' @ quot),
              write_classes T [Class (codeBlock T)],
              emit (quot @ ''>''),
              write_css T [Class (codeText T)],
              emit (''<code class='' @ quot),
              write_classes T [Class (codeText T)],
              emit (quot @ ''>''),
              highlighted E (codeLanguage (Attribute_GetDisplayHints attr)) (Attribute_GetValue attr),
              emit ''</code></pre>'']
            else if attrIsBadge attr then seq [
              write_css T [Class (badge T)],
              emit (''<span class='' @ quot),
              write_classes T [Class (badge T)],
              emit (quot @ ''>''),
              write_text T 637 48 (Attribute_GetValue attr),
              emit ''</span>'']
            else seq [
              emit ''<span>'',
              write_text T 639 30 (Attribute_GetValue attr),
              emit ''</span>'']),
            emit ''</div></div>'']
          else emit [])]) (enumerate 0 attrs)),
        emit ''</div>''])"

definition EventCard :: "web_env \<Rightarrow> event_state option \<Rightarrow> string \<Rightarrow> string \<Rightarrow> render" where
  "EventCard E event offset key =
    (let T = web_templ E in
      (case event of
        None \<Rightarrow> emit []
      | Some ev \<Rightarrow> seq [
          write_css T [Class (eventCardClass T), ClassKV (eventWarnCard T) (ev_Severity ev = SEVERITY_WARN), ClassKV (eventErrorCard T) (ev_Severity ev = SEVERITY_ERROR)],
          emit (''<div id='' @ quot),
          write_attribute T 650 27 (eventDOMID key),
          emit (quot @ '' class='' @ quot),
          write_classes T [Class (eventCardClass T), ClassKV (eventWarnCard T) (ev_Severity ev = SEVERITY_WARN), ClassKV (eventErrorCard T) (ev_Severity ev = SEVERITY_ERROR)],
          emit (quot @ '' data-card-key='' @ quot),
          write_attribute T 650 230 key,
          emit (quot @ ''>''),
          write_css T [Class (eventHeaderClass T)],
          emit (''<div class='' @ quot),
          write_classes T [Class (eventHeaderClass T)],
          emit (quot @ ''><span>''),
          write_text T 652 22 (ev_Name ev),
          emit ''</span> '',
          (if offset \<noteq> [] then seq [
            write_css T [Class (eventOffsetClass T)],
            emit (''<span class='' @ quot),
            write_classes T [Class (eventOffsetClass T)],
            emit (quot @ ''>''),
            write_text T 654 48 offset,
            emit ''</span>'']
          else emit []),
          emit ''</div>'',
          (if length (ev_Attributes ev) > 0 then seq [
            Attributes_templ E key (ev_Attributes ev)]
          else emit []),
          emit ''</div>'']))"

definition TimelineItem_templ :: "web_env \<Rightarrow> card \<Rightarrow> timeline_item \<Rightarrow> span_state option \<Rightarrow> nat \<Rightarrow> render" where
  "TimelineItem_templ E inner item parent depth =
    (let T = web_templ E in
      seq [
        write_css T [Class (timelineItemClass T), ConstantClass ''anim-enter''],
        emit (''<div class='' @ quot),
        write_classes T [Class (timelineItemClass T), ConstantClass ''anim-enter''],
        emit (quot @ ''>''),
        (case item_Span item of
          Some q \<Rightarrow> seq [
            inner q (depth + 1) False]
        | None \<Rightarrow> seq [
            EventCard E (item_Event item) (timelineOffset parent item) (eventCardKey parent item)]),
        emit ''</div>''])"

definition SpanTimelineContents :: "web_env \<Rightarrow> card \<Rightarrow> span_heap \<Rightarrow> addr \<Rightarrow> nat \<Rightarrow> go_time \<Rightarrow> stale_marks \<Rightarrow> render" where
  "SpanTimelineContents E inner h p depth now marks =
    (let T = web_templ E; span = h p in
      (if length (TimelineItems h p) > 0 then seq [
        write_css T [Class (sectionBlock T)],
        emit (''<section class='' @ quot),
        write_classes T [Class (sectionBlock T)],
        emit (quot @ ''>''),
        write_css T [Class (timelineList T)],
        emit (''<div id='' @ quot),
        write_attribute T 608 36 (timelineListDOMID span),
        emit (quot @ '' class='' @ quot),
        write_classes T [Class (timelineList T)],
        emit (quot @ ''>''),
        seq (map (\<lambda>item. seq [
          TimelineItem_templ E inner item span depth]) (TimelineItems h p)),
        emit ''</div></section>'']
      else emit []))"

definition SpanTimeline :: "web_env \<Rightarrow> card \<Rightarrow> span_heap \<Rightarrow> addr \<Rightarrow> nat \<Rightarrow> go_time \<Rightarrow> stale_marks \<Rightarrow> bool \<Rightarrow> render" where
  "SpanTimeline E inner h p depth now marks oob =
    (let T = web_templ E; span = h p in
      (if oob then seq [
        emit (''<div id='' @ quot),
        write_attribute T 595 35 (spanTimelineDOMID span),
        emit (quot @ '' hx-swap-oob='' @ quot @ ''outerHTML'' @ quot @ ''>''),
        SpanTimelineContents E inner h p depth now marks,
        emit ''</div>'']
      else seq [
        emit (''<div id='' @ quot),
        write_attribute T 599 35 (spanTimelineDOMID span),
        emit (quot @ ''>''),
        SpanTimelineContents E inner h p depth now marks,
        emit ''</div>'']))"

definition SpanAttributesContents :: "web_env \<Rightarrow> span_state option \<Rightarrow> render" where
  "SpanAttributesContents E span =
    (let T = web_templ E in
      (deref span (\<lambda>sp. if length (Attributes sp) > 0 then seq [
        write_css T [Class (sectionBlock T)],
        emit (''<section class='' @ quot),
        write_classes T [Class (sectionBlock T)],
        emit (quot @ ''>''),
        write_css T [Class (sectionTitle T)],
        emit (''<div class='' @ quot),
        write_classes T [Class (sectionTitle T)],
        emit (quot @ ''>attributes</div>''),
        Attributes_templ E (spanCardKey span) (Attributes sp),
        emit ''</section>'']
      else emit [])))"

definition SpanAttributes :: "web_env \<Rightarrow> span_state option \<Rightarrow> bool \<Rightarrow> render" where
  "SpanAttributes E span oob =
    (let T = web_templ E in
      (if oob then seq [
        emit (''<div id='' @ quot),
        write_attribute T 574 37 (spanAttributesDOMID span),
        emit (quot @ '' hx-swap-oob='' @ quot @ ''outerHTML'' @ quot @ ''>''),
        SpanAttributesContents E span,
        emit ''</div>'']
      else seq [
        emit (''<div id='' @ quot),
        write_attribute T 578 37 (spanAttributesDOMID span),
        emit (quot @ ''>''),
        SpanAttributesContents E span,
        emit ''</div>'']))"

definition SpanSummaryContents :: "web_env \<Rightarrow> span_state option \<Rightarrow> go_time \<Rightarrow> stale_marks \<Rightarrow> render" where
  "SpanSummaryContents E span now marks =
    (let T = web_templ E in
      seq [
        write_css T [Class (spanHeader T)],
        emit (''<div class='' @ quot),
        write_classes T [Class (spanHeader T)],
        emit (quot @ ''>''),
        write_css T [Class (spanTitle T)],
        emit (''<div class='' @ quot),
        write_classes T [Class (spanTitle T)],
        emit (quot @ ''>''),
        write_css T [Class (spanName T)],
        emit (''<div class='' @ quot),
        write_classes T [Class (spanName T)],
        emit (quot @ ''>''),
        deref span (\<lambda>sp. write_text T 541 40 (Name sp)),
        emit ''</div>'',
        write_css T [Class (spanMeta T)],
        emit (''<div class='' @ quot),
        write_classes T [Class (spanMeta T)],
        emit (quot @ ''>''),
        (if hasTimer span then seq [
          emit (''<span data-timer x-data='' @ quot),
          write_attribute T 544 65 (timerXData span marks),
          emit (quot @ '' x-text='' @ quot @ ''label'' @ quot @ ''>''),
          write_text T 544 124 (timingView span now marks),
          emit ''</span> '']
        else emit []),
        (deref span (\<lambda>sp. if TraceID sp \<noteq> [] then seq [
          emit (''<span title='' @ quot @ ''trace id'' @ quot @ ''>trace ''),
          write_text T 547 57 (shortID (TraceID sp)),
          emit ''</span> '']
        else emit [])),
        (deref span (\<lambda>sp. if SpanID sp \<noteq> [] then seq [
          emit (''<span title='' @ quot @ ''span id'' @ quot @ ''>span ''),
          write_text T 550 54 (shortID (SpanID sp)),
          emit ''</span>'']
        else emit [])),
        emit ''</div></div>'',
        write_css T [Class (spanState T), Class (statusToneClass T span marks)],
        emit (''<span class='' @ quot),
        write_classes T [Class (spanState T), Class (statusToneClass T span marks)],
        emit (quot @ ''>''),
        (deref span (\<lambda>sp. if \<not> Ended sp then seq [
          (if statusText span marks = ''running'' then seq [
            write_css T [Class (spinner T)],
            emit (''<span class='' @ quot),
            write_classes T [Class (spinner T)],
            emit (quot @ '' aria-hidden='' @ quot @ ''true'' @ quot @ ''></span> '')]
          else seq [
            emit ''<span>'',
            write_text T 559 47 (statusIcon span marks),
            emit ''</span> ''])]
        else seq [
          emit ''<span>'',
          write_text T 562 46 (statusIcon span marks),
          emit ''</span> ''])),
        write_text T 564 39 (statusText span marks),
        emit ''</span></div>'',
        (deref span (\<lambda>sp. if ErrorMessage sp \<noteq> [] then seq [
          write_css T [Class (sectionBlock T)],
          emit (''<div class='' @ quot),
          write_classes T [Class (sectionBlock T)],
          emit (quot @ ''>''),
          write_css T [Class (errorMessage T)],
          emit (''<div class='' @ quot),
          write_classes T [Class (errorMessage T)],
          emit (quot @ ''>''),
          write_text T 568 81 (ErrorMessage sp),
          emit ''</div></div>'']
        else emit []))])"

definition SpanSummary :: "web_env \<Rightarrow> span_state option \<Rightarrow> go_time \<Rightarrow> stale_marks \<Rightarrow> bool \<Rightarrow> render" where
  "SpanSummary E span now marks oob =
    (let T = web_templ E in
      (if oob then seq [
        emit (''<div id='' @ quot),
        write_attribute T 528 34 (spanSummaryDOMID span),
        emit (quot @ '' hx-swap-oob='' @ quot @ ''outerHTML'' @ quot @ ''>''),
        SpanSummaryContents E span now marks,
        emit ''</div>'']
      else seq [
        emit (''<div id='' @ quot),
        write_attribute T 532 34 (spanSummaryDOMID span),
        emit (quot @ ''>''),
        SpanSummaryContents E span now marks,
        emit ''</div>'']))"

definition SpanCardContents :: "web_env \<Rightarrow> card \<Rightarrow> span_heap \<Rightarrow> addr \<Rightarrow> nat \<Rightarrow> go_time \<Rightarrow> stale_marks \<Rightarrow> render" where
  "SpanCardContents E inner h p depth now marks =
    (let span = h p in
      seq [
        SpanSummary E span now marks False,
        SpanAttributes E span False,
        SpanTimeline E inner h p depth now marks False])"

primrec SpanCard :: "web_env \<Rightarrow> nat \<Rightarrow> span_heap \<Rightarrow> go_time \<Rightarrow> stale_marks \<Rightarrow> card" where
  "SpanCard E 0 h now marks p depth oob = panic"
| "SpanCard E (Suc fuel) h now marks p depth oob =
    (let inner = SpanCard E fuel h now marks; T = web_templ E; span = h p in
      (if span \<noteq> None then seq [
        (if oob then seq [
          write_css T [Class (spanCard T)],
          emit (''<article id='' @ quot),
          write_attribute T 509 32 (spanDOMID span),
          emit (quot @ '' hx-swap-oob='' @ quot @ ''true'' @ quot @ '' class='' @ quot),
          write_classes T [Class (spanCard T)],
          emit (quot @ '' data-card-key='' @ quot),
          write_attribute T 509 108 (spanCardKey span),
          emit (quot @ '' style='' @ quot),
          write_style T 509 135 (spanStyle depth),
          emit (quot @ ''>''),
          SpanCardContents E inner h p depth now marks,
          emit ''</article>'']
        else seq [
          write_css T [Class (spanCard T)],
          emit (''<article id='' @ quot),
          write_attribute T 513 32 (spanDOMID span),
          emit (quot @ '' class='' @ quot),
          write_classes T [Class (spanCard T)],
          emit (quot @ '' data-card-key='' @ quot),
          write_attribute T 513 89 (spanCardKey span),
          emit (quot @ '' style='' @ quot),
          write_style T 513 116 (spanStyle depth),
          emit (quot @ ''>''),
          SpanCardContents E inner h p depth now marks,
          emit ''</article>''])]
      else emit []))"

definition SpanPatch :: "web_env \<Rightarrow> nat \<Rightarrow> span_heap \<Rightarrow> addr \<Rightarrow> nat \<Rightarrow> go_time \<Rightarrow> stale_marks \<Rightarrow> render" where
  "SpanPatch E fuel h p depth now marks =
    SpanCard E fuel h now marks p depth True"

definition SpanSummaryPatch :: "web_env \<Rightarrow> span_heap \<Rightarrow> addr \<Rightarrow> go_time \<Rightarrow> stale_marks \<Rightarrow> render" where
  "SpanSummaryPatch E h p now marks =
    SpanSummary E (h p) now marks True"

definition SpanAttributesPatch :: "web_env \<Rightarrow> span_heap \<Rightarrow> addr \<Rightarrow> render" where
  "SpanAttributesPatch E h p =
    SpanAttributes E (h p) True"

definition SpanTimelinePatch :: "web_env \<Rightarrow> nat \<Rightarrow> span_heap \<Rightarrow> addr \<Rightarrow> nat \<Rightarrow> go_time \<Rightarrow> stale_marks \<Rightarrow> render" where
  "SpanTimelinePatch E fuel h p depth now marks =
    SpanTimeline E (SpanCard E fuel h now marks) h p depth now marks True"

definition TimelineAppendPatch :: "web_env \<Rightarrow> nat \<Rightarrow> span_heap \<Rightarrow> addr \<Rightarrow> timeline_item \<Rightarrow> nat \<Rightarrow> go_time \<Rightarrow> stale_marks \<Rightarrow> render" where
  "TimelineAppendPatch E fuel h p item depth now marks =
    (let T = web_templ E; parent = h p in
      seq [
        emit (''<div hx-swap-oob='' @ quot),
        write_attribute T 501 61 (''beforeend:#'' @ timelineListDOMID parent),
        emit (quot @ ''>''),
        TimelineItem_templ E (SpanCard E fuel h now marks) item (h p) depth,
        emit ''</div>''])"

definition Roots_templ :: "web_env \<Rightarrow> nat \<Rightarrow> span_heap \<Rightarrow> addr list \<Rightarrow> go_time \<Rightarrow> stale_marks \<Rightarrow> render" where
  "Roots_templ E fuel h tops now marks =
    (let T = web_templ E in
      (if length tops = 0 then seq [
        write_css T [Class (emptyState T)],
        emit (''<section class='' @ quot),
        write_classes T [Class (emptyState T)],
        emit (quot @ ''><div>''),
        write_css T [Class (emptyTitle T)],
        emit (''<strong class='' @ quot),
        write_classes T [Class (emptyTitle T)],
        emit (quot @ ''>Waiting for live records'' @ [CHR 0xE2, CHR 0x80, CHR 0xA6] @ ''</strong><br><span>Connect an instrumented app to the configured SSE endpoint.</span></div></section>'')]
      else seq [
        write_css T [Class (traceList T)],
        emit (''<div class='' @ quot),
        write_classes T [Class (traceList T)],
        emit (quot @ ''>''),
        seq (map (\<lambda>root. seq [
          SpanCard E fuel h now marks root 0 False]) tops),
        emit ''</div>'']))"

definition Status_templ :: "web_env \<Rightarrow> (nat \<Rightarrow> go_time) \<Rightarrow> nat \<Rightarrow> ConnectionState \<Rightarrow> bool \<Rightarrow> render" where
  "Status_templ E clock root_count conn paused =
    (let T = web_templ E in
      seq [
        write_css T [Class (statusBar T)],
        emit (''<div class='' @ quot),
        write_classes T [Class (statusBar T)],
        emit (quot @ ''>''),
        write_css T [Class (statusGroup T)],
        emit (''<div class='' @ quot),
        write_classes T [Class (statusGroup T)],
        emit (quot @ ''>''),
        write_css T [Class (pill T)],
        emit (''<span class='' @ quot),
        write_classes T [Class (pill T)],
        emit (quot @ ''>''),
        write_css T [Class (dot T), Class (connectionDotClass T conn)],
        emit (''<span class='' @ quot),
        write_classes T [Class (dot T), Class (connectionDotClass T conn)],
        emit (quot @ ''></span>''),
        write_text T 667 104 (connectionLabel conn),
        emit ''</span> '',
        (if connectionDetail (clock 0) conn \<noteq> [] then seq [
          write_css T [Class (pill T)],
          emit (''<span class='' @ quot),
          write_classes T [Class (pill T)],
          emit (quot @ ''>''),
          write_text T 669 51 (connectionDetail (clock 1) conn),
          emit ''</span> '']
        else emit []),
        write_css T [Class (pill T)],
        emit (''<span class='' @ quot),
        write_classes T [Class (pill T)],
        emit (quot @ ''>roots ''),
        write_text T 671 58 (Itoa (int root_count)),
        emit ''</span> '',
        (if paused then seq [
          write_css T [Class (pill T)],
          emit (''<span class='' @ quot),
          write_classes T [Class (pill T)],
          emit (quot @ ''>paused</span>'')]
        else emit []),
        emit ''</div>'',
        write_css T [Class (statusGroup T)],
        emit (''<div class='' @ quot),
        write_classes T [Class (statusGroup T)],
        emit (quot @ ''>''),
        write_css T [Class (buttonBase T)],
        emit (''<button class='' @ quot),
        write_classes T [Class (buttonBase T)],
        emit (quot @ '' type='' @ quot @ ''button'' @ quot @ '' hx-post='' @ quot @ ''/pause'' @ quot @ '' hx-target='' @ quot @ ''#status'' @ quot @ '' hx-swap='' @ quot @ ''innerHTML'' @ quot @ ''>''),
        write_text T 677 131 (pauseButtonLabel paused),
        emit ''</button> '',
        write_css T [Class (buttonBase T), Class (dangerButton T)],
        emit (''<button class='' @ quot),
        write_classes T [Class (buttonBase T), Class (dangerButton T)],
        emit (quot @ '' type='' @ quot @ ''button'' @ quot @ '' hx-post='' @ quot @ ''/clear'' @ quot @ '' hx-target='' @ quot @ ''#status'' @ quot @ '' hx-swap='' @ quot @ ''innerHTML'' @ quot @ '' hx-confirm='' @ quot @ ''Clear all spans from the viewer?'' @ quot @ ''>Clear</button></div></div>'')])"

text \<open>The head of the page, one literal in the code.\<close>

definition page_head :: string where
  "page_head = concat [
     ''<!doctype html>'',
     ''<html lang='' @ quot @ ''en'' @ quot @ ''>'',
     ''<head>'',
     ''<meta charset='' @ quot @ ''utf-8'' @ quot @ ''>'',
     ''<meta name='' @ quot @ ''viewport'' @ quot @ '' content='' @ quot @ ''width=device-width, initial-scale=1'' @ quot @ ''>'',
     ''<title>sap '' @ [CHR 0xC2, CHR 0xB7] @ '' web viewer</title>'',
     ''<link rel='' @ quot @ ''stylesheet'' @ quot @ '' href='' @ quot @ ''https://rsms.me/inter/inter.css'' @ quot @ ''>'',
     ''<link rel='' @ quot @ ''stylesheet'' @ quot @ '' href='' @ quot @ ''/styles/templ.css'' @ quot @ ''>'',
     ''<script src='' @ quot @ ''https://unpkg.com/htmx.org@2.0.10/dist/htmx.min.js'' @ quot @ ''>'',
     ''</script>'',
     ''<script src='' @ quot @ ''https://unpkg.com/idiomorph@0.7.4/dist/idiomorph-ext.min.js'' @ quot @ ''>'',
     ''</script>'',
     ''<script src='' @ quot @ ''https://unpkg.com/htmx-ext-sse@2.2.4/sse.js'' @ quot @ ''>'',
     ''</script>'',
     ''<script>'',
     nl 4 @ ''document.addEventListener('' @ quot @ ''alpine:init'' @ quot @ '', () => {'',
     nl 5 @ ''Alpine.data('' @ quot @ ''sapViewer'' @ quot @ '', () => ({'',
     nl 6 @ ''autoscroll: true,'',
     nl 6 @ ''init() {'',
     nl 7 @ ''this.syncAutoscroll();'',
     nl 7 @ ''window.addEventListener('' @ quot @ ''scroll'' @ quot @ '', () => this.syncAutoscroll(), { passive: true });'',
     nl 6 @ ''},'',
     nl 6 @ ''isAtBottom() {'',
     nl 7 @ ''const doc = document.documentElement;'',
     nl 7 @ ''return window.innerHeight + window.scrollY >= doc.scrollHeight - 24;'',
     nl 6 @ ''},'',
     nl 6 @ ''syncAutoscroll() {'',
     nl 7 @ ''this.autoscroll = this.isAtBottom();'',
     nl 6 @ ''},'',
     nl 6 @ ''rootsSwap() {'',
     nl 7 @ ''return '' @ [CHR 0x60] @ ''morph:innerHTML${this.autoscroll ? '' @ quot @ '' show:window:bottom'' @ quot @ '' : '' @ quot @ quot @ ''}'' @ [CHR 0x60] @ '';'',
     nl 6 @ ''},'',
     nl 6 @ ''patchSwap() {'',
     nl 7 @ ''return '' @ [CHR 0x60] @ ''innerHTML${this.autoscroll ? '' @ quot @ '' show:window:bottom'' @ quot @ '' : '' @ quot @ quot @ ''}'' @ [CHR 0x60] @ '';'',
     nl 6 @ ''},'',
     nl 5 @ ''}));'',
     nl 5 @ ''Alpine.data('' @ quot @ ''sapTimer'' @ quot @ '', (start, end) => ({'',
     nl 6 @ ''label: '' @ quot @ quot @ '','',
     nl 6 @ ''interval: null,'',
     nl 6 @ ''init() {'',
     nl 7 @ ''this.render();'',
     nl 7 @ ''if (!end) {'',
     nl 8 @ ''this.interval = setInterval(() => this.render(), 100);'',
     nl 7 @ ''}'',
     nl 6 @ ''},'',
     nl 6 @ ''destroy() {'',
     nl 7 @ ''if (this.interval) clearInterval(this.interval);'',
     nl 6 @ ''},'',
     nl 6 @ ''render() {'',
     nl 7 @ ''this.label = this.format(Math.max(0, (end || Date.now()) - start));'',
     nl 6 @ ''},'',
     nl 6 @ ''format(ms) {'',
     nl 7 @ ''if (ms < 1000) return '' @ [CHR 0x60] @ ''${Math.round(ms / 10) * 10}ms'' @ [CHR 0x60] @ '';'',
     nl 7 @ ''if (ms < 60000) {'',
     nl 8 @ ''const value = Math.round(ms / 100) / 10;'',
     nl 8 @ ''return '' @ [CHR 0x60] @ ''${Number.isInteger(value) ? value.toFixed(0) : value.toFixed(1)}s'' @ [CHR 0x60] @ '';'',
     nl 7 @ ''}'',
     nl 7 @ ''const totalSeconds = Math.round(ms / 1000);'',
     nl 7 @ ''const minutes = Math.floor(totalSeconds / 60);'',
     nl 7 @ ''const seconds = totalSeconds % 60;'',
     nl 7 @ ''return seconds ? '' @ [CHR 0x60] @ ''${minutes}m${seconds}s'' @ [CHR 0x60] @ '' : '' @ [CHR 0x60] @ ''${minutes}m'' @ [CHR 0x60] @ '';'',
     nl 6 @ ''},'',
     nl 5 @ ''}));'',
     nl 4 @ ''});'',
     nl 3 @ ''</script>'',
     ''<script defer src='' @ quot @ ''https://unpkg.com/alpinejs@3.14.8/dist/cdn.min.js'' @ quot @ ''>'',
     ''</script>'',
     ''<style>'',
     nl 4 @ ''@keyframes pulse { from { opacity: .45; } to { opacity: 1; } }'',
     nl 4 @ ''@keyframes spin { to { transform: rotate(360deg); } }'',
     nl 4 @ ''@keyframes item-in {'',
     nl 5 @ ''from { opacity: 0; transform: translateY(.25rem); }'',
     nl 5 @ ''to { opacity: 1; transform: translateY(0); }'',
     nl 4 @ ''}'',
     nl 4 @ ''.anim-enter { animation: item-in 180ms ease-out both; }'',
     nl 4 @ ''input[type='' @ quot @ ''checkbox'' @ quot @ ''] { accent-color: var(--accent); }'',
     nl 4 @ ''* { box-sizing: border-box; }'',
     nl 4 @ ''@media (prefers-reduced-motion: reduce) {'',
     nl 5 @ ''* { animation-duration: 1ms !important; animation-iteration-count: 1 !important; scroll-behavior: auto !important; }'',
     nl 4 @ ''}'',
     nl 4 @ ''@media (max-width: 720px) {'',
     nl 5 @ ''main { padding-inline: .5rem; }'',
     nl 4 @ ''}'',
     nl 3 @ ''</style>'',
     ''</head>'']"

definition Page :: "web_env \<Rightarrow> snapshot \<Rightarrow> render" where
  "Page E snap =
    (let T = web_templ E in
      seq [
        emit page_head,
        write_css T [Class (appRoot T)],
        emit (''<body class='' @ quot),
        write_classes T [Class (appRoot T)],
        emit (quot @ '' x-data='' @ quot @ ''sapViewer'' @ quot @ '' hx-ext='' @ quot @ ''sse,morph'' @ quot @ '' sse-connect='' @ quot @ ''/stream'' @ quot @ ''>''),
        write_css T [Class (topBar T)],
        emit (''<header class='' @ quot),
        write_classes T [Class (topBar T)],
        emit (quot @ ''>''),
        write_css T [Class (brandTitle T)],
        emit (''<h1 class='' @ quot),
        write_classes T [Class (brandTitle T)],
        emit (quot @ ''>sap '' @ [CHR 0xC2, CHR 0xB7] @ '' live web viewer</h1>''),
        write_css T [Class (toolbarLabel T)],
        emit (''<label class='' @ quot),
        write_classes T [Class (toolbarLabel T)],
        emit (quot @ '' title='' @ quot @ ''Autoscroll turns off when you scroll up and turns back on at the bottom'' @ quot @ ''><input type='' @ quot @ ''checkbox'' @ quot @ '' x-model='' @ quot @ ''autoscroll'' @ quot @ ''> autoscroll</label></header>''),
        write_css T [Class (pageMain T)],
        emit (''<main id='' @ quot @ ''roots'' @ quot @ '' class='' @ quot),
        write_classes T [Class (pageMain T)],
        emit (quot @ '' sse-swap='' @ quot @ ''roots'' @ quot @ '' hx-swap='' @ quot @ ''morph:innerHTML show:window:bottom'' @ quot @ '' x-bind:hx-swap='' @ quot @ ''rootsSwap()'' @ quot @ ''>''),
        write_raw T (RootsHTML snap),
        emit (''</main><div id='' @ quot @ ''patches'' @ quot @ '' style='' @ quot @ ''display:none'' @ quot @ '' sse-swap='' @ quot @ ''patch'' @ quot @ '' hx-swap='' @ quot @ ''innerHTML show:window:bottom'' @ quot @ '' x-bind:hx-swap='' @ quot @ ''patchSwap()'' @ quot @ ''></div>''),
        write_css T [Class (footerDock T)],
        emit (''<footer id='' @ quot @ ''status'' @ quot @ '' class='' @ quot),
        write_classes T [Class (footerDock T)],
        emit (quot @ '' sse-swap='' @ quot @ ''status'' @ quot @ '' hx-swap='' @ quot @ ''morph:innerHTML'' @ quot @ ''>''),
        write_raw T (StatusHTML snap),
        emit ''</footer></body></html>''])"

section \<open>Rendering to strings\<close>

text \<open>
  \<open>render.go\<close>: a fresh context has seen every style of the stylesheet; an error becomes a
  notice in place of the fragment. The writers behind it do not fail.
\<close>

definition renderContext :: "templ \<Rightarrow> string set" where
  "renderContext T = snd (RenderCSSItems T (map Class (stylesheetClasses T)) {})"

definition renderToString :: "web_env \<Rightarrow> render \<Rightarrow> (string \<rightharpoonup> string) \<Rightarrow> (string \<times> (string \<rightharpoonup> string)) option" where
  "renderToString E component cache =
    (case component \<lparr>rs_seen = renderContext (web_templ E), rs_cache = cache\<rparr> of
       None \<Rightarrow> None
     | Some (Inl err, st) \<Rightarrow> Some (''<section class='' @ quot @ ''empty'' @ quot @ ''><div><strong>render error</strong><br><span>''
         @ html_EscapeString err @ ''</span></div></section>'', rs_cache st)
     | Some (Inr s, st) \<Rightarrow> Some (s, rs_cache st))"

text \<open>The page goes to the response; the result is what was written or the error.\<close>

definition renderPage :: "web_env \<Rightarrow> snapshot \<Rightarrow> (string + string) option" where
  "renderPage E snap = map_option fst (Page E snap \<lparr>rs_seen = renderContext (web_templ E), rs_cache = Map.empty\<rparr>)"

type_synonym rendering = "(string \<rightharpoonup> string) \<Rightarrow> (string \<times> (string \<rightharpoonup> string)) option"

definition renderRoots :: "web_env \<Rightarrow> nat \<Rightarrow> span_heap \<Rightarrow> addr list \<Rightarrow> go_time \<Rightarrow> stale_marks \<Rightarrow> rendering" where
  "renderRoots E fuel h tops now marks = renderToString E (Roots_templ E fuel h tops now marks)"

definition renderSpanPatch :: "web_env \<Rightarrow> nat \<Rightarrow> span_heap \<Rightarrow> addr \<Rightarrow> nat \<Rightarrow> go_time \<Rightarrow> stale_marks \<Rightarrow> rendering" where
  "renderSpanPatch E fuel h p depth now marks = renderToString E (SpanPatch E fuel h p depth now marks)"

definition renderSpanSummaryPatch :: "web_env \<Rightarrow> span_heap \<Rightarrow> addr \<Rightarrow> go_time \<Rightarrow> stale_marks \<Rightarrow> rendering" where
  "renderSpanSummaryPatch E h p now marks = renderToString E (SpanSummaryPatch E h p now marks)"

definition renderSpanAttributesPatch :: "web_env \<Rightarrow> span_heap \<Rightarrow> addr \<Rightarrow> rendering" where
  "renderSpanAttributesPatch E h p = renderToString E (SpanAttributesPatch E h p)"

definition renderSpanTimelinePatch :: "web_env \<Rightarrow> nat \<Rightarrow> span_heap \<Rightarrow> addr \<Rightarrow> nat \<Rightarrow> go_time \<Rightarrow> stale_marks \<Rightarrow> rendering" where
  "renderSpanTimelinePatch E fuel h p depth now marks = renderToString E (SpanTimelinePatch E fuel h p depth now marks)"

definition renderTimelineAppendPatch :: "web_env \<Rightarrow> nat \<Rightarrow> span_heap \<Rightarrow> addr \<Rightarrow> timeline_item \<Rightarrow> nat \<Rightarrow> go_time \<Rightarrow> stale_marks \<Rightarrow> rendering" where
  "renderTimelineAppendPatch E fuel h parent item depth now marks =
     renderToString E (TimelineAppendPatch E fuel h parent item depth now marks)"

definition renderStatus :: "web_env \<Rightarrow> (nat \<Rightarrow> go_time) \<Rightarrow> nat \<Rightarrow> ConnectionState \<Rightarrow> bool \<Rightarrow> rendering" where
  "renderStatus E clock root_count conn paused = renderToString E (Status_templ E clock root_count conn paused)"

end
