(* ===== verification/Web_Server.thy ===== *)
theory Web_Server
  imports Web_Templates Hub_Props
begin

text \<open>
  The server of the web viewer, \<open>viewer/sap-web/server.go\<close>: the store, the connection's state
  and the pause, the subscribers of the stream with their buffers, and the snapshots broadcast
  to them. Its methods hold the mutex throughout, so each is one step. An operation is \<open>None\<close>
  where the code would panic or not return. The clock and the iteration order over the
  subscribers are read through the environment.
\<close>

section \<open>State\<close>

record snap_chan =
  sc_buffered :: "snapshot list"
  sc_closed :: bool

record web_server =
  ws_store :: store
  ws_conn :: ConnectionState
  ws_paused :: bool
  ws_maxRoots :: int
  ws_subscribers :: "addr set"
  ws_chans :: "addr \<rightharpoonup> snap_chan"
  ws_next :: addr
  ws_cache :: "string \<rightharpoonup> string"
  ws_ticks :: nat

record server_env =
  se_web :: web_env
  se_rt :: pb_runtime
  se_now :: "nat \<Rightarrow> go_time"
  se_range :: "nat \<Rightarrow> addr set \<Rightarrow> addr list"

definition snapshot_buffer :: nat where
  "snapshot_buffer = 8"

definition newServer :: "int \<Rightarrow> StoreOptions \<Rightarrow> web_server" where
  "newServer maxRoots storeOptions =
    (let maxRoots = (if maxRoots \<le> 0 then 50 else maxRoots)
     in \<lparr>ws_store = NewStoreWithOptions storeOptions, ws_conn = connection [] 0, ws_paused = False,
         ws_maxRoots = maxRoots, ws_subscribers = {}, ws_chans = Map.empty, ws_next = 1,
         ws_cache = Map.empty, ws_ticks = 0\<rparr>)"

text \<open>A reading of the clock.\<close>

definition server_now :: "server_env \<Rightarrow> web_server \<Rightarrow> go_time \<times> web_server" where
  "server_now env s = (se_now env (ws_ticks s), s\<lparr>ws_ticks := Suc (ws_ticks s)\<rparr>)"

section \<open>Snapshots\<close>

text \<open>Rendering goes through the cache of highlighted code.\<close>

definition render_with :: "rendering \<Rightarrow> web_server \<Rightarrow> (string \<times> web_server) option" where
  "render_with r s = (case r (ws_cache s) of None \<Rightarrow> None | Some (out, cache) \<Rightarrow> Some (out, s\<lparr>ws_cache := cache\<rparr>))"

text \<open>\<open>renderStatus\<close> reads the clock up to twice.\<close>

definition status_html :: "server_env \<Rightarrow> web_server \<Rightarrow> (string \<times> web_server) option" where
  "status_html env s = map_option (\<lambda>(out, s). (out, s\<lparr>ws_ticks := ws_ticks s + 2\<rparr>))
     (render_with (renderStatus (se_web env) (\<lambda>k. se_now env (ws_ticks s + k)) (length (Roots (ws_store s)))
       (ws_conn s) (ws_paused s)) s)"

definition snapshotLocked :: "server_env \<Rightarrow> go_time \<Rightarrow> web_server \<Rightarrow> (snapshot \<times> web_server) option" where
  "snapshotLocked env now s =
    (case render_with (renderRoots (se_web env) (walk_fuel (ws_store s)) (heap (ws_store s)) (Roots (ws_store s)) now
         (StaleOpenSpanIDs (ws_store s))) s of
       None \<Rightarrow> None
     | Some (rootsHTML, s) \<Rightarrow> (case status_html env s of
         None \<Rightarrow> None
       | Some (statusHTML, s) \<Rightarrow> Some (\<lparr>RootsHTML = rootsHTML, PatchHTML = [], StatusHTML = statusHTML\<rparr>, s)))"

definition patchSnapshotLocked :: "server_env \<Rightarrow> string \<Rightarrow> web_server \<Rightarrow> (snapshot \<times> web_server) option" where
  "patchSnapshotLocked env html s = map_option
     (\<lambda>(statusHTML, s). (\<lparr>RootsHTML = [], PatchHTML = html, StatusHTML = statusHTML\<rparr>, s)) (status_html env s)"

definition statusSnapshotLocked :: "server_env \<Rightarrow> web_server \<Rightarrow> (snapshot \<times> web_server) option" where
  "statusSnapshotLocked env s = map_option
     (\<lambda>(statusHTML, s). (\<lparr>RootsHTML = [], PatchHTML = [], StatusHTML = statusHTML\<rparr>, s)) (status_html env s)"

section \<open>Broadcasting\<close>

text \<open>
  For each subscriber: send, or drop the oldest snapshot it has not read and send again. A send
  on a closed channel panics.
\<close>

definition offer_snapshot :: "addr \<Rightarrow> snapshot \<Rightarrow> web_server \<Rightarrow> web_server option" where
  "offer_snapshot ch snap s = (case ws_chans s ch of
     None \<Rightarrow> Some s
   | Some c \<Rightarrow>
       if sc_closed c then None
       else if length (sc_buffered c) < snapshot_buffer
       then Some (s\<lparr>ws_chans := (ws_chans s)(ch \<mapsto> c\<lparr>sc_buffered := sc_buffered c @ [snap]\<rparr>)\<rparr>)
       else let c = c\<lparr>sc_buffered := tl (sc_buffered c)\<rparr>;
                c = (if length (sc_buffered c) < snapshot_buffer then c\<lparr>sc_buffered := sc_buffered c @ [snap]\<rparr> else c)
            in Some (s\<lparr>ws_chans := (ws_chans s)(ch \<mapsto> c)\<rparr>))"

fun broadcast_loop :: "addr list \<Rightarrow> snapshot \<Rightarrow> web_server \<Rightarrow> web_server option" where
  "broadcast_loop [] snap s = Some s"
| "broadcast_loop (ch # chs) snap s = (case offer_snapshot ch snap s of None \<Rightarrow> None | Some s \<Rightarrow> broadcast_loop chs snap s)"

definition broadcastLocked :: "server_env \<Rightarrow> snapshot \<Rightarrow> web_server \<Rightarrow> (snapshot \<times> web_server) option" where
  "broadcastLocked env snap s = map_option (\<lambda>s. (snap, s\<lparr>ws_ticks := Suc (ws_ticks s)\<rparr>))
     (broadcast_loop (se_range env (ws_ticks s) (ws_subscribers s)) snap s)"

section \<open>Records\<close>

definition recordSpanID :: "sap_record option \<Rightarrow> string" where
  "recordSpanID record =
    (if record = None then []
     else case Record_WhichKind record of
       Record_SpanStarted_case \<Rightarrow> SpanStarted_GetSpanId (Record_GetSpanStarted record)
     | Record_SpanUpdated_case \<Rightarrow> SpanUpdated_GetSpanId (Record_GetSpanUpdated record)
     | Record_SpanEnded_case \<Rightarrow> SpanEnded_GetSpanId (Record_GetSpanEnded record)
     | Record_SpanEvent_case \<Rightarrow> SpanEvent_GetSpanId (Record_GetSpanEvent record)
     | Record_Kind_not_set_case \<Rightarrow> [])"

definition rootIDsLocked :: "web_server \<Rightarrow> string list" where
  "rootIDsLocked s = map (\<lambda>root. case heap (ws_store s) root of None \<Rightarrow> [] | Some sp \<Rightarrow> SpanID sp) (Roots (ws_store s))"

fun same_strings_loop :: "string list \<Rightarrow> string list \<Rightarrow> bool" where
  "same_strings_loop (l # ls) (r # rs) = (if l \<noteq> r then False else same_strings_loop ls rs)"
| "same_strings_loop ls rs = True"

definition sameStrings :: "string list \<Rightarrow> string list \<Rightarrow> bool" where
  "sameStrings left right = (if length left \<noteq> length right then False else same_strings_loop left right)"

fun child_loop :: "span_heap \<Rightarrow> addr list \<Rightarrow> string \<Rightarrow> nat \<Rightarrow> (addr \<times> nat) option" where
  "child_loop h [] spanID i = None"
| "child_loop h (child # children) spanID i = (case h child of
     None \<Rightarrow> child_loop h children spanID (Suc i)
   | Some c \<Rightarrow> if SpanID c = spanID then Some (child, i) else child_loop h children spanID (Suc i))"

definition childSpanByID :: "span_heap \<Rightarrow> addr \<Rightarrow> string \<Rightarrow> (addr \<times> nat) option" where
  "childSpanByID h parent spanID = (case h parent of None \<Rightarrow> None | Some sp \<Rightarrow> child_loop h (Children sp) spanID 0)"

text \<open>Render a patch and put it in a snapshot.\<close>

definition patch_with :: "server_env \<Rightarrow> rendering \<Rightarrow> web_server \<Rightarrow> (snapshot option \<times> web_server) option" where
  "patch_with env r s = (case render_with r s of
     None \<Rightarrow> None
   | Some (html, s) \<Rightarrow> map_option (\<lambda>(snap, s). (Some snap, s)) (patchSnapshotLocked env html s))"

text \<open>The snapshot is \<open>None\<close> where the code returns \<open>false\<close>.\<close>

definition recordPatchSnapshotLocked :: "server_env \<Rightarrow> sap_record option \<Rightarrow> string \<Rightarrow> go_time \<Rightarrow> web_server
    \<Rightarrow> (snapshot option \<times> web_server) option" where
  "recordPatchSnapshotLocked env record spanID now s =
    (let st = ws_store s; h = heap st; fuel = walk_fuel st; E = se_web env
     in if record = None then Some (None, s)
     else case Record_WhichKind record of
       Record_SpanStarted_case \<Rightarrow>
         (let started = Record_GetSpanStarted record
          in if SpanStarted_GetParentSpanId started = [] then Some (None, s)
          else (case FindSpan st (SpanStarted_GetParentSpanId started) of
              None \<Rightarrow> None
            | Some None \<Rightarrow> Some (None, s)
            | Some (Some (parent, depth)) \<Rightarrow>
                (let marks = StaleOpenSpanIDs st
                 in if length (TimelineItems h parent) \<le> 1
                 then patch_with env (renderSpanTimelinePatch E fuel h parent depth now marks) s
                 else (case childSpanByID h parent spanID of
                     None \<Rightarrow> patch_with env (renderSpanTimelinePatch E fuel h parent depth now marks) s
                   | Some (child, childIndex) \<Rightarrow> (case (h child, h parent) of
                       (Some c, Some p) \<Rightarrow>
                         (let item = \<lparr>item_At = StartedAt c, item_Index = length (Events p) + childIndex,
                                item_Event = None, item_Span = Some child\<rparr>
                          in patch_with env (renderTimelineAppendPatch E fuel h parent item depth now marks) s)
                     | _ \<Rightarrow> None)))))
     | Record_SpanUpdated_case \<Rightarrow> (case FindSpan st spanID of
           None \<Rightarrow> None
         | Some None \<Rightarrow> Some (None, s)
         | Some (Some (span, depth)) \<Rightarrow> patch_with env (renderSpanAttributesPatch E h span) s)
     | Record_SpanEvent_case \<Rightarrow> (case FindSpan st spanID of
           None \<Rightarrow> None
         | Some None \<Rightarrow> Some (None, s)
         | Some (Some (span, depth)) \<Rightarrow> (case h span of
             None \<Rightarrow> None
           | Some sp \<Rightarrow>
               (let marks = StaleOpenSpanIDs st
                in if length (TimelineItems h span) \<le> 1 \<or> length (Events sp) = 0
                then patch_with env (renderSpanTimelinePatch E fuel h span depth now marks) s
                else (let eventIndex = length (Events sp) - 1
                  in case Events sp ! eventIndex of
                       None \<Rightarrow> None
                     | Some event \<Rightarrow>
                         (let item = \<lparr>item_At = ev_At event, item_Index = eventIndex,
                                item_Event = Some event, item_Span = None\<rparr>
                          in patch_with env (renderTimelineAppendPatch E fuel h span item depth now marks) s)))))
     | Record_SpanEnded_case \<Rightarrow> (case FindSpan st spanID of
           None \<Rightarrow> None
         | Some None \<Rightarrow> Some (None, s)
         | Some (Some (span, depth)) \<Rightarrow> patch_with env (renderSpanSummaryPatch E h span now (StaleOpenSpanIDs st)) s)
     | Record_Kind_not_set_case \<Rightarrow> (case FindSpan st spanID of
           None \<Rightarrow> None
         | Some None \<Rightarrow> Some (None, s)
         | Some (Some (span, depth)) \<Rightarrow>
             patch_with env (renderSpanPatch E fuel h span depth now (StaleOpenSpanIDs st)) s))"

text \<open>Broadcast a full snapshot.\<close>

definition broadcast_full :: "server_env \<Rightarrow> go_time \<Rightarrow> web_server \<Rightarrow> (snapshot \<times> web_server) option" where
  "broadcast_full env now s = (case snapshotLocked env now s of
     None \<Rightarrow> None | Some (snap, s) \<Rightarrow> broadcastLocked env snap s)"

definition applyRecord :: "server_env \<Rightarrow> sap_record option \<Rightarrow> web_server \<Rightarrow> web_server option" where
  "applyRecord env record s =
    (if record = None then Some s
     else if ws_paused s then Some s
     else let beforeRootIDs = rootIDsLocked s; spanID = recordSpanID record
     in case Apply (se_rt env) (ws_store s) record of
          None \<Rightarrow> None
        | Some st \<Rightarrow> (case LimitRoots st (ws_maxRoots s) of
            None \<Rightarrow> None
          | Some st \<Rightarrow>
              (let (now, s) = server_now env (s\<lparr>ws_store := st\<rparr>)
               in if \<not> sameStrings beforeRootIDs (rootIDsLocked s) then map_option snd (broadcast_full env now s)
                  else (case recordPatchSnapshotLocked env record spanID now s of
                      None \<Rightarrow> None
                    | Some (None, s) \<Rightarrow> map_option snd (broadcast_full env now s)
                    | Some (Some snap, s) \<Rightarrow> map_option snd (broadcastLocked env snap s)))))"

section \<open>The other operations\<close>

definition broadcast_status :: "server_env \<Rightarrow> web_server \<Rightarrow> web_server option" where
  "broadcast_status env s = (case statusSnapshotLocked env s of
     None \<Rightarrow> None | Some (snap, s) \<Rightarrow> map_option snd (broadcastLocked env snap s))"

definition setConnectionState :: "server_env \<Rightarrow> ConnectionState \<Rightarrow> web_server \<Rightarrow> web_server option" where
  "setConnectionState env conn s =
    (let s = s\<lparr>ws_conn := conn\<rparr>; (now, s) = server_now env s
     in if cs_State conn = StateConnected then broadcast_status env (s\<lparr>ws_conn := conn\<lparr>cs_Err := []\<rparr>\<rparr>)
        else if cs_State conn = StateRetrying \<or> cs_State conn = StateDisconnected
        then (case MarkOpenSpansStale (ws_store s) now of
            None \<Rightarrow> None
          | Some st \<Rightarrow> map_option snd (broadcast_full env now (s\<lparr>ws_store := st\<rparr>)))
        else broadcast_status env s)"

definition togglePaused :: "server_env \<Rightarrow> web_server \<Rightarrow> (snapshot \<times> web_server) option" where
  "togglePaused env s =
    (case (if \<not> ws_paused s
           then map_option (\<lambda>st. s\<lparr>ws_paused := True, ws_store := st\<rparr>) (ClearOpenSpans (ws_store s))
           else Some (s\<lparr>ws_paused := False\<rparr>)) of
       None \<Rightarrow> None
     | Some s \<Rightarrow> (let (now, s) = server_now env s in broadcast_full env now s))"

definition clear :: "server_env \<Rightarrow> web_server \<Rightarrow> (snapshot \<times> web_server) option" where
  "clear env s = (let (now, s) = server_now env (s\<lparr>ws_store := Clear (ws_store s)\<rparr>) in broadcast_full env now s)"

definition snapshot_now :: "server_env \<Rightarrow> web_server \<Rightarrow> (snapshot \<times> web_server) option" where
  "snapshot_now env s = (let (now, s) = server_now env s in snapshotLocked env now s)"

text \<open>\<open>subscribe\<close>: the first snapshot goes into the empty buffer of the new channel.\<close>

definition subscribe :: "server_env \<Rightarrow> web_server \<Rightarrow> (addr \<times> web_server) option" where
  "subscribe env s =
    (let ch = ws_next s;
         s = s\<lparr>ws_next := Suc ch, ws_chans := (ws_chans s)(ch \<mapsto> \<lparr>sc_buffered = [], sc_closed = False\<rparr>),
               ws_subscribers := insert ch (ws_subscribers s)\<rparr>;
         (now, s) = server_now env s
     in case snapshotLocked env now s of
          None \<Rightarrow> None
        | Some (snap, s) \<Rightarrow> map_option (\<lambda>s. (ch, s)) (offer_snapshot ch snap s))"

definition unsubscribe :: "addr \<Rightarrow> web_server \<Rightarrow> web_server option" where
  "unsubscribe ch s =
    (if ch \<in> ws_subscribers s
     then (let s = s\<lparr>ws_subscribers := ws_subscribers s - {ch}\<rparr>
           in case ws_chans s ch of
                None \<Rightarrow> None
              | Some c \<Rightarrow> if sc_closed c then None
                  else Some (s\<lparr>ws_chans := (ws_chans s)(ch \<mapsto> c\<lparr>sc_closed := True\<rparr>)\<rparr>))
     else Some s)"

end
