(* ===== verification/Web_Http.thy ===== *)
theory Web_Http
  imports Web_Server
begin

text \<open>
  The HTTP handlers of \<open>viewer/sap-web/server.go\<close> and the frames of its event stream. A request
  is its method and path; a handler returns the response and the server. What net/http makes of
  an error after a partly written page is a parameter of \<open>handleHome\<close>.
\<close>

section \<open>Frames\<close>

definition event_line :: "string \<Rightarrow> string" where
  "event_line event = ''event: '' @ event @ [newline]"

definition data_line :: "string \<Rightarrow> string" where
  "data_line line = ''data: '' @ line @ [newline]"

definition maxLineBytes :: nat where
  "maxLineBytes = 4 * 1024 * 1024"

text \<open>What is written, and whether the scanner's error is returned.\<close>

definition writeSSE :: "string \<Rightarrow> string \<Rightarrow> string \<times> bool" where
  "writeSSE event data =
    (if data = [] then (event_line event @ ''data:'' @ [newline, newline], False)
     else case scan_lines maxLineBytes [] data of
       (lines, too_long) \<Rightarrow>
         (event_line event @ concat (map data_line lines) @ (if too_long then [] else [newline]), too_long))"

section \<open>The stream\<close>

datatype stream_event = StreamDone | GotSnapshot snapshot bool | SnapshotsClosed

text \<open>The frames of one snapshot, up to the first error; the flag says that the handler returns.\<close>

definition write_snapshot :: "snapshot \<Rightarrow> string \<times> bool" where
  "write_snapshot snap =
    (let part = (\<lambda>event html k. if html = [] then k else
           (case writeSSE event html of (out, err) \<Rightarrow> if err then (out, True)
              else (case k of (rest, returned) \<Rightarrow> (out @ rest, returned))))
     in part ''roots'' (RootsHTML snap) (part ''patch'' (PatchHTML snap) (part ''status'' (StatusHTML snap) ([], False))))"

fun stream_loop :: "stream_event list \<Rightarrow> string \<times> bool" where
  "stream_loop [] = ([], False)"
| "stream_loop (StreamDone # es) = ([], True)"
| "stream_loop (SnapshotsClosed # es) = ([], True)"
| "stream_loop (GotSnapshot snap writable # es) =
     (if \<not> writable then ([], True)
      else case write_snapshot snap of (out, returned) \<Rightarrow>
        if returned then (out, True)
        else (case stream_loop es of (rest, returned) \<Rightarrow> (out @ rest, returned)))"

section \<open>Handlers\<close>

definition http_error :: "(string \<times> string) list \<Rightarrow> string \<Rightarrow> int \<Rightarrow> response" where
  "http_error headers msg status = \<lparr>
     resp_headers = headers @ [(''Content-Type'', ''text/plain; charset=utf-8''), (''X-Content-Type-Options'', ''nosniff'')],
     resp_status = status, resp_body = msg @ [newline], resp_returned = True\<rparr>"

definition method_not_allowed :: "string \<Rightarrow> response" where
  "method_not_allowed allowed = http_error [(''Allow'', allowed)] ''method not allowed'' 405"

definition handleHome :: "server_env \<Rightarrow> (string \<Rightarrow> response) \<Rightarrow> string \<Rightarrow> string \<Rightarrow> web_server \<Rightarrow> (response \<times> web_server) option" where
  "handleHome env page_error http_method path s =
    (if path \<noteq> ''/'' then Some (http_error [] ''404 page not found'' 404, s)
     else if http_method \<noteq> ''GET'' then Some (method_not_allowed ''GET'', s)
     else case snapshot_now env s of
       None \<Rightarrow> None
     | Some (snap, s) \<Rightarrow> (case renderPage (se_web env) snap of
         None \<Rightarrow> None
       | Some (Inl err) \<Rightarrow> Some (page_error err, s)
       | Some (Inr page) \<Rightarrow>
           Some (\<lparr>resp_headers = [], resp_status = 200, resp_body = page, resp_returned = True\<rparr>, s)))"

text \<open>\<open>flushable\<close>: the writer can flush; \<open>greeted\<close>: the first frame could be written.\<close>

definition handleStream :: "server_env \<Rightarrow> bool \<Rightarrow> bool \<Rightarrow> string \<Rightarrow> stream_event list \<Rightarrow> web_server \<Rightarrow> (response \<times> web_server) option" where
  "handleStream env flushable greeted http_method es s =
    (if http_method \<noteq> ''GET'' then Some (method_not_allowed ''GET'', s)
     else if \<not> flushable then Some (http_error [] ''streaming unsupported by responseWriter'' 500, s)
     else case subscribe env s of
       None \<Rightarrow> None
     | Some (ch, s) \<Rightarrow>
         (let (body, returned) = (if \<not> greeted then ([], True)
                else case stream_loop es of (out, returned) \<Rightarrow> (connected_frame @ out, returned))
          in map_option (\<lambda>s. (\<lparr>resp_headers = sse_headers, resp_status = 200, resp_body = body, resp_returned = returned\<rparr>, s))
               (if returned then unsubscribe ch s else Some s)))"

definition html_response :: "string \<Rightarrow> response" where
  "html_response body = \<lparr>resp_headers = [(''Content-Type'', ''text/html; charset=utf-8'')], resp_status = 200,
     resp_body = body, resp_returned = True\<rparr>"

definition handlePause :: "server_env \<Rightarrow> string \<Rightarrow> web_server \<Rightarrow> (response \<times> web_server) option" where
  "handlePause env http_method s =
    (if http_method \<noteq> ''POST'' then Some (method_not_allowed ''POST'', s)
     else map_option (\<lambda>(snap, s). (html_response (StatusHTML snap), s)) (togglePaused env s))"

definition handleClear :: "server_env \<Rightarrow> string \<Rightarrow> web_server \<Rightarrow> (response \<times> web_server) option" where
  "handleClear env http_method s =
    (if http_method \<noteq> ''POST'' then Some (method_not_allowed ''POST'', s)
     else map_option (\<lambda>(snap, s). (html_response (StatusHTML snap), s)) (clear env s))"

section \<open>The goroutine and the routes\<close>

text \<open>What the select of \<open>start\<close> receives. A closed channel is set to nil and is not chosen again.\<close>

datatype start_event =
    CtxDone
  | RecordMessage "sap_record option"
  | RecordsEnded
  | StateMessage ConnectionState
  | StatesEnded

fun start_loop :: "server_env \<Rightarrow> start_event list \<Rightarrow> web_server \<Rightarrow> (web_server \<times> bool) option" where
  "start_loop env [] s = Some (s, False)"
| "start_loop env (CtxDone # es) s = Some (s, True)"
| "start_loop env (RecordMessage r # es) s =
     (case applyRecord env r s of None \<Rightarrow> None | Some s \<Rightarrow> start_loop env es s)"
| "start_loop env (RecordsEnded # es) s = start_loop env es s"
| "start_loop env (StateMessage conn # es) s =
     (case setConnectionState env conn s of None \<Rightarrow> None | Some s \<Rightarrow> start_loop env es s)"
| "start_loop env (StatesEnded # es) s = start_loop env es s"

text \<open>Go's mux: \<open>/\<close> also takes every path that no other pattern does.\<close>

datatype route = RouteHome | RouteStream | RoutePause | RouteClear

definition mount :: "string \<Rightarrow> route" where
  "mount path = (if path = ''/stream'' then RouteStream else if path = ''/pause'' then RoutePause
     else if path = ''/clear'' then RouteClear else RouteHome)"

end
