(* ===== verification/Store_View.thy ===== *)
theory Store_View
  imports Store_Life
begin

text \<open>
  What the viewers rely on: in every store that was built by the operations no event is nil,
  and the number of roots behaves as the forest's.
\<close>

section \<open>Data of all spans\<close>

text \<open>A predicate on the data of every span of a forest.\<close>

definition forest_all :: "(span_state \<Rightarrow> bool) \<Rightarrow> spec_store \<Rightarrow> bool" where
  "forest_all P a \<longleftrightarrow> (\<forall>t \<in> set (forest a). \<forall>d \<in> set (tree_spans t). P d)"

lemma forest_all_new: "forest_all P (spec_new b)"
  by (simp add: forest_all_def spec_new_def)

lemma tree_spans_added:
  "d \<in> set (tree_spans (add_child i new t)) \<Longrightarrow> d \<in> set (tree_spans t) \<or> d \<in> set (tree_spans new)"
proof (induction t)
  case (SpanTree e ts)
  then show ?case by (auto split: if_splits)
qed

lemma forest_all_modify:
  assumes "forest_all P a" and "\<And>d. P d \<Longrightarrow> P (f d)"
  shows "forest_all P (modify_open i f a)"
  using assms by (auto simp: forest_all_def modify_open_def unless_ended_def)

lemma forest_all_started:
  assumes "forest_all P a" and "P (started_span rt started)"
  shows "forest_all P (spec_started rt a started)"
  using assms by (auto simp: forest_all_def spec_started_def Let_def dest: tree_spans_added)

text \<open>Every operation but the application of a record keeps a part of the spans.\<close>

lemma forest_all_step:
  assumes "forest_all P a" and "\<And>r. op = OpApply r \<Longrightarrow> forest_all P (spec_apply rt a r)"
  shows "forest_all P (spec_step rt a op)"
proof (cases op)
  case OpClearOpen
  have "P d" if "t \<in> set (forest a)" and "u \<in> set (prune_tree t)" and "d \<in> set (tree_spans u)" for t u d
    using that prune_tree_subset [OF that(2)] assms(1) by (auto simp: forest_all_def)
  with OpClearOpen show ?thesis
    by (auto simp: forest_all_def spec_clear_open_def with_forest_def)
next
  case (OpApply r)
  with assms(2) show ?thesis by simp
qed (use assms(1) in \<open>auto simp: forest_all_def spec_mark_def spec_clear_def spec_limit_def with_forest_def dest: in_set_dropD\<close>)

lemma forest_all_data:
  assumes "refines s a" and "forest_all P a" and "byID s i = Some p"
  shows "P (span_data (heap s) p)"
proof -
  obtain ts where a: "store_shape s ts" "forest a = map (abs_shape (heap s)) ts"
    using assms(1) by (auto simp: refines_def)
  have "p \<in> set (forest_addrs ts)"
    using store_shapeD(4) [OF a(1)] assms(3) by blast
  then obtain t where t: "t \<in> set ts" "p \<in> set (addrs t)" by auto
  then have "span_data (heap s) p \<in> set (tree_spans (abs_shape (heap s) t))" by simp
  then show ?thesis
    using a(2) assms(2) t(1) by (fastforce simp: forest_all_def)
qed

text \<open>What fresh spans have and the changes of the admitted records keep, all spans have.\<close>

locale span_predicate =
  fixes P :: "span_state \<Rightarrow> bool" and admits :: "sap_record option \<Rightarrow> bool" and rt :: pb_runtime
  assumes P_started: "admits r \<Longrightarrow> Record_GetSpanStarted r \<noteq> None \<Longrightarrow> P (started_span rt (Record_GetSpanStarted r))"
    and P_updated: "admits r \<Longrightarrow> Record_GetSpanUpdated r \<noteq> None \<Longrightarrow> P d \<Longrightarrow> P (updated_span rt (Record_GetSpanUpdated r) d)"
    and P_ended: "admits r \<Longrightarrow> Record_GetSpanEnded r \<noteq> None \<Longrightarrow> P d \<Longrightarrow> P (ended_span rt (Record_GetSpanEnded r) d)"
    and P_event: "admits r \<Longrightarrow> Record_GetSpanEvent r \<noteq> None \<Longrightarrow> P d \<Longrightarrow> P (event_span rt (Record_GetSpanEvent r) d)"
begin

lemma all_apply: "forest_all P a \<Longrightarrow> admits r \<Longrightarrow> forest_all P (spec_apply rt a r)"
  by (simp add: spec_apply_def Let_def)
    (intro conjI impI forest_all_started forest_all_modify P_started P_updated P_ended P_event; simp)

lemma all_step:
  assumes "forest_all P a" and "\<And>r. op = OpApply r \<Longrightarrow> admits r"
  shows "forest_all P (spec_step rt a op)"
  by (rule forest_all_step [OF assms(1)]) (rule all_apply [OF assms(1)], rule assms(2))

end

section \<open>Events\<close>

definition events_ok :: "span_state \<Rightarrow> bool" where
  "events_ok d \<longleftrightarrow> None \<notin> set (Events d)"

interpretation events: span_predicate events_ok "\<lambda>_. True" rt for rt
  by unfold_locales (simp_all add: events_ok_def started_span_def updated_span_def ended_span_def event_span_def)

section \<open>Stores of a viewer\<close>

definition store_ok :: "store \<Rightarrow> bool" where
  "store_ok s \<longleftrightarrow> (\<exists>a. refines s a \<and> forest_all events_ok a)"

lemma store_ok_wf: "store_ok s \<Longrightarrow> store_wf s"
  by (auto simp: store_ok_def refines_wf)

lemma store_ok_new: "store_ok (NewStoreWithOptions opts)"
  using refines_new [of opts] forest_all_new by (auto simp: store_ok_def)

interpretation viewed_store: total_steps store_ok "store_step rt" for rt
proof
  fix s op
  assume "store_ok s"
  then obtain a where a: "refines s a" "forest_all events_ok a" by (auto simp: store_ok_def)
  then obtain s' where "store_step rt s op = Some s'" "refines s' (spec_step rt a op)"
    using span_store.step_simulates by blast
  with events.all_step [OF a(2)] show "\<exists>s'. store_step rt s op = Some s' \<and> store_ok s'"
    by (auto simp: store_ok_def)
qed

lemma store_ok_events:
  assumes "store_ok s" and "byID s i = Some p" and "heap s p = Some sp"
  shows "None \<notin> set (Events sp)"
proof -
  obtain a where a: "refines s a" "forest_all events_ok a"
    using assms(1) by (auto simp: store_ok_def)
  from forest_all_data [OF this assms(2)] assms(3) show ?thesis
    by (simp add: events_ok_def span_data_def)
qed

lemma wf_FindSpan:
  assumes "store_wf s"
  obtains r where "FindSpan s i = Some r" and "map_option fst r = byID s i"
proof -
  obtain ts where ts: "store_shape s ts" using assms by (auto simp: store_wf_def)
  obtain a where "refines s a" using assms by (rule wf_refinesE)
  then obtain r where "FindSpan s i = Some r" using FindSpan_refines by blast
  with FindSpan_byID [OF ts] that show thesis by blast
qed

section \<open>Roots\<close>

lemma refines_roots: "refines s a \<Longrightarrow> length (roots s) = length (forest a)"
  by (auto simp: refines_def store_shape_def)

lemma length_prune: "length (concat (map prune_tree ts)) \<le> length ts"
proof (induction ts)
  case (Cons t ts)
  then show ?case by (cases t) auto
qed simp

lemma ClearOpenSpans_ok:
  assumes "store_ok s"
  obtains s' where "ClearOpenSpans s = Some s'" and "store_ok s'" and "length (roots s') \<le> length (roots s)"
proof -
  obtain s' where s': "ClearOpenSpans s = Some s'" "store_ok s'"
    using viewed_store.step_total [OF assms, of undefined OpClearOpen] by auto
  obtain a where a: "refines s a" using assms by (auto simp: store_ok_def)
  then have "refines s' (spec_clear_open a)"
    using ClearOpenSpans_refines s'(1) by fastforce
  then have "length (roots s') \<le> length (roots s)"
    using a length_prune by (simp add: refines_roots spec_clear_open_def with_forest_def)
  with s' that show thesis by blast
qed

lemma MarkOpenSpansStale_ok:
  assumes "store_ok s"
  obtains s' where "MarkOpenSpansStale s at = Some s'" and "store_ok s'" and "roots s' = roots s"
proof -
  obtain s' where s': "MarkOpenSpansStale s at = Some s'" "store_ok s'"
    using viewed_store.step_total [OF assms, of undefined "OpMarkStale at"] by auto
  then have "roots s' = roots s"
    by (auto simp: MarkOpenSpansStale_def)
  with s' that show thesis by blast
qed

text \<open>Applying a record and limiting the roots, what both viewers do with it.\<close>

lemma apply_limited_ok:
  assumes "store_ok s" and "0 < n"
  obtains s1 s2 where "Apply rt s record = Some s1" and "LimitRoots s1 n = Some s2" and "store_ok s2"
    and "int (length (roots s2)) \<le> n"
proof -
  obtain s1 where s1: "Apply rt s record = Some s1" "store_ok s1"
    using viewed_store.step_total [OF assms(1), of rt "OpApply record"] by auto
  obtain s2 where s2: "LimitRoots s1 n = Some s2" "store_ok s2"
    using viewed_store.step_total [OF s1(2), of undefined "OpLimit n"] by auto
  have "int (length (roots s2)) \<le> n"
    using s2(1) assms(2) by (auto simp: LimitRoots_def Clear_def Let_def split: if_splits)
  with s1 s2 that show thesis by blast
qed

lemma Clear_ok: "store_ok s \<Longrightarrow> store_ok (Clear s)"
  using viewed_store.step_total [of s undefined OpClear] by auto

lemma roots_Clear [simp]: "roots (Clear s) = []"
  by (simp add: Clear_def)

end
