(* ===== verification/Span_Walks.thy ===== *)
theory Span_Walks
  imports Store_View Timeline
begin

text \<open>
  The walks of the viewers: they go from a span to the spans in its timeline, which are its
  children, and the fuel given to them is enough on every well-formed store.
\<close>

section \<open>Entries of a timeline\<close>

lemma number_from_member: "item \<in> set (number_from n xs) \<Longrightarrow> \<exists>x \<in> set xs. \<exists>i. item = x\<lparr>item_Index := i\<rparr>"
  by (induction xs arbitrary: n) (simp, fastforce)

lemma TimelineItems_child:
  assumes "item \<in> set (TimelineItems h p)" and "item_Span item = Some q"
  shows "\<exists>sp. h p = Some sp \<and> q \<in> set (Children sp)"
proof -
  obtain sp where sp: "h p = Some sp"
    using assms(1) by (cases "h p") (simp_all add: TimelineItems_def)
  then have "item \<in> set (number_from 0 (event_items (Events sp) @ child_items h (Children sp)))"
    using assms(1) by (simp add: TimelineItems_def timeline_base flip: set_mset_mset)
  then obtain item' i where "item' \<in> set (event_items (Events sp) @ child_items h (Children sp))"
      "item = item'\<lparr>item_Index := i\<rparr>"
    using number_from_member by blast
  with assms(2) sp show ?thesis
    by (fastforce simp: event_items_def child_items_def split: option.splits)
qed

section \<open>Walks\<close>

text \<open>A pointer to a span below which a walk with the given fuel reaches every span.\<close>

definition renderable :: "nat \<Rightarrow> span_heap \<Rightarrow> addr \<Rightarrow> bool" where
  "renderable fuel h p \<longleftrightarrow> (\<exists>t. shape_addr t = p \<and> repr h t \<and> fits fuel t)"

lemma renderable_alloc: "renderable fuel h p \<Longrightarrow> h p \<noteq> None"
  by (auto simp: renderable_def dest: repr_shape_addr)

lemma renderable_child:
  assumes "renderable (Suc fuel) h p" and "h p = Some sp" and "q \<in> set (Children sp)"
  shows "renderable fuel h q"
proof -
  obtain t where t: "shape_addr t = p" "repr h t" "fits (Suc fuel) t"
    using assms(1) by (auto simp: renderable_def)
  then have "Children sp = map shape_addr (shape_kids t)"
    using repr_shape_addr [OF t(2)] assms(2) by simp
  then obtain u where "u \<in> set (shape_kids t)" "shape_addr u = q"
    using assms(3) by auto
  with t repr_kids show ?thesis
    unfolding renderable_def by auto
qed

lemma fits_Suc: "fits n t \<Longrightarrow> fits (Suc n) t"
proof (induction n arbitrary: t)
  case (Suc n)
  have "fits (Suc n) u" if "u \<in> set (shape_kids t)" for u
    using Suc.prems that by (intro Suc.IH) simp
  then show ?case by (subst fits.simps) blast
qed simp

lemma sub_shape:
  "repr h t \<Longrightarrow> fits n t \<Longrightarrow> p \<in> set (addrs t) \<Longrightarrow> \<exists>u. shape_addr u = p \<and> repr h u \<and> fits n u"
proof (induction t arbitrary: n)
  case (Shape q ts)
  show ?case
  proof (cases "p = q")
    case True
    with Shape.prems show ?thesis by (intro exI [of _ "Shape q ts"]) simp
  next
    case False
    then obtain u where u: "u \<in> set ts" "p \<in> set (addrs u)"
      using Shape.prems(3) by auto
    obtain m where m: "n = Suc m" using Shape.prems(2) by (cases n) auto
    have "repr h u" and "fits m u"
      using Shape.prems(1,2) u(1) m by auto
    from Shape.IH [OF u(1) this(1) fits_Suc [OF this(2)] u(2)] m show ?thesis by simp
  qed
qed

lemma sub_shape_within:
  "repr h t \<Longrightarrow> p \<in> set (addrs t) \<Longrightarrow> \<exists>u. shape_addr u = p \<and> repr h u \<and> set (addrs u) \<subseteq> set (addrs t)"
proof (induction t)
  case (Shape q ts)
  show ?case
  proof (cases "p = q")
    case True
    with Shape.prems show ?thesis by (intro exI [of _ "Shape q ts"]) simp
  next
    case False
    then obtain u where u: "u \<in> set ts" "p \<in> set (addrs u)"
      using Shape.prems(2) by auto
    with Shape.IH [OF u(1) _ u(2)] Shape.prems(1) show ?thesis by fastforce
  qed
qed

lemma renderable_Suc: "renderable fuel h p \<Longrightarrow> renderable (Suc fuel) h p"
  using fits_Suc by (auto simp: renderable_def)

lemma shape_renderable:
  assumes "store_shape s ts" and "p \<in> set (forest_addrs ts)"
  shows "renderable (walk_fuel s) (heap s) p"
proof -
  obtain t where t: "t \<in> set ts" "p \<in> set (addrs t)"
    using assms(2) by auto
  from sub_shape [OF store_shapeD(2) [OF assms(1) t(1)] shape_fits [OF assms(1) t(1)] t(2)]
  show ?thesis by (simp add: renderable_def)
qed

lemma wf_renderable:
  assumes "store_wf s"
  shows "p \<in> set (roots s) \<Longrightarrow> renderable (walk_fuel s) (heap s) p"
    and "byID s i = Some p \<Longrightarrow> renderable (walk_fuel s) (heap s) p"
proof -
  obtain ts where ts: "store_shape s ts" using assms by (auto simp: store_wf_def)
  show "renderable (walk_fuel s) (heap s) p" if p: "p \<in> set (roots s)"
  proof -
    obtain t where "t \<in> set ts" "p = shape_addr t"
      using p store_shapeD(1) [OF ts] by auto
    then have "t \<in> set ts \<and> p \<in> set (addrs t)" by simp
    then have "p \<in> set (forest_addrs ts)" by auto
    with ts show ?thesis by (rule shape_renderable)
  qed
  show "renderable (walk_fuel s) (heap s) p" if "byID s i = Some p"
    using that store_shapeD(4) [OF ts] by (intro shape_renderable [OF ts]) blast
qed

lemma timeline_renderable:
  assumes "renderable (Suc fuel) h p" and "item \<in> set (TimelineItems h p)" and "item_Span item = Some q"
  shows "renderable (Suc fuel) h q"
  using TimelineItems_child [OF assms(2,3)] renderable_child [OF assms(1)] renderable_Suc by blast

end
