(* ===== verification/Web_Safety.thy ===== *)
theory Web_Safety
  imports Web_Templates Span_Walks
begin

text \<open>
  What every template writes: text that is well nested whatever the records contain, made of
  the elements of a fragment only, with no style inlined.
\<close>

section \<open>Moves\<close>

definition styled :: "templ \<Rightarrow> string set \<Rightarrow> bool" where
  "styled T seen \<longleftrightarrow> (\<forall>c \<in> set (stylesheetClasses T). css_ID c \<in> seen)"

definition good_state :: "web_env \<Rightarrow> render_state \<Rightarrow> bool" where
  "good_state E st \<longleftrightarrow> styled (web_templ E) (rs_seen st) \<and> (\<forall>k v. rs_cache st k = Some v \<longrightarrow> fragment v)"

text \<open>A renderer that returns without an error and takes the tokenizer from one state to another.\<close>

definition moves :: "web_env \<Rightarrow> html_state \<Rightarrow> html_state \<Rightarrow> render \<Rightarrow> bool" where
  "moves E a b r \<longleftrightarrow> (\<forall>st. good_state E st \<longrightarrow>
     (\<exists>out st'. r st = Some (Inr out, st') \<and> good_state E st' \<and> html_run a out = Some b))"

lemma moves_followed:
  assumes "moves E a b f" and "moves E b c g"
  shows "moves E a c (followed_by f g)"
  unfolding moves_def
proof (intro allI impI)
  fix st
  assume "good_state E st"
  then obtain out st' where f: "f st = Some (Inr out, st')" "good_state E st'" "html_run a out = Some b"
    using assms(1) by (auto simp: moves_def)
  then obtain out' st'' where g: "g st' = Some (Inr out', st'')" "good_state E st''" "html_run b out' = Some c"
    using assms(2) by (auto simp: moves_def)
  from f g show "\<exists>out st'. followed_by f g st = Some (Inr out, st') \<and> good_state E st' \<and> html_run a out = Some c"
    by (simp add: followed_by_def html_run_append)
qed

lemma moves_emit: "html_run a s = Some b \<Longrightarrow> moves E a b (emit s)"
  by (auto simp: moves_def emit_def)

lemma moves_skip: "moves E a a (emit [])"
  by (rule moves_emit) simp

lemma moves_if: "(P \<Longrightarrow> moves E a b f) \<Longrightarrow> (\<not> P \<Longrightarrow> moves E a b g) \<Longrightarrow> moves E a b (if P then f else g)"
  by simp

lemma moves_deref: "span \<noteq> None \<Longrightarrow> (\<And>sp. span = Some sp \<Longrightarrow> moves E a b (f sp)) \<Longrightarrow> moves E a b (deref span f)"
  by (auto simp: deref_def)

lemma moves_loop: "(\<And>x. x \<in> set xs \<Longrightarrow> moves E a a (f x)) \<Longrightarrow> moves E a a (seq (map f xs))"
  by (induction xs) (auto intro: moves_skip moves_followed)

section \<open>The runtime's writes\<close>

text \<open>
  What the theorems assume of templ, and of chroma's formatter: that it writes a fragment, as its
  documentation says of spans around escaped text.
\<close>

definition web_laws :: "web_env \<Rightarrow> bool" where
  "web_laws E \<longleftrightarrow> templ_laws (web_templ E)
     \<and> (\<forall>style tokens out. html_Format (web_chroma E) style tokens = Inr out \<longrightarrow> fragment out)"

lemma templ_lawsD:
  assumes "web_laws E"
  shows "html_safe (EscapeString (web_templ E) s)"
    and "\<exists>v. ResolveAttributeValue (web_templ E) s = Inr v \<and> html_safe v"
    and "JoinStringErrs (web_templ E) s = Inr s"
    and "\<exists>v. SanitizeStyleAttributeValues (web_templ E) s = Inr v"
    and "Raw_Render (web_templ E) s = Inr s"
    and "\<exists>out seen'. RenderCSSItems (web_templ E) items seen = (Inr out, seen') \<and> seen \<subseteq> seen'
        \<and> (\<forall>c. Class c \<in> set items \<longrightarrow> css_ID c \<in> seen')
        \<and> ((\<forall>item \<in> set items. \<forall>c \<in> set (item_classes item). css_Class c = [] \<or> css_ID c \<in> seen) \<longrightarrow> out = [])"
  using assms by (simp_all add: web_laws_def templ_laws_def)

text \<open>A class the stylesheet serves, or one without a style.\<close>

definition served :: "templ \<Rightarrow> css_class \<Rightarrow> bool" where
  "served T c \<longleftrightarrow> css_Class c = [] \<or> c \<in> set (stylesheetClasses T)"

lemma moves_css:
  assumes "web_laws E" and "list_all (\<lambda>item. list_all (served (web_templ E)) (item_classes item)) items"
  shows "moves E a a (write_css (web_templ E) items)"
  unfolding moves_def
proof (intro allI impI)
  fix st
  assume st: "good_state E st"
  have "\<forall>item \<in> set items. \<forall>c \<in> set (item_classes item). css_Class c = [] \<or> css_ID c \<in> rs_seen st"
    using assms(2) st by (auto simp: list_all_iff served_def good_state_def styled_def)
  then obtain seen' where "RenderCSSItems (web_templ E) items (rs_seen st) = (Inr [], seen')" "rs_seen st \<subseteq> seen'"
    using templ_lawsD(6) [OF assms(1), of items "rs_seen st"] by blast
  with st show "\<exists>out st'. write_css (web_templ E) items st = Some (Inr out, st') \<and> good_state E st' \<and> html_run a out = Some a"
    by (auto simp: write_css_def good_state_def styled_def)
qed

lemma moves_result:
  assumes "r = Inr s" and "html_run a s = Some b"
  shows "moves E a b (write_result wrap r)"
  using assms by (simp add: moves_def write_result_def)

lemma moves_classes:
  assumes "web_laws E"
  shows "moves E (InValue n, open) (InValue n, open) (write_classes (web_templ E) items)"
proof -
  obtain v where "ResolveAttributeValue (web_templ E) (CSSClasses_String (web_templ E) items) = Inr v" "html_safe v"
    using templ_lawsD(2) [OF assms] by blast
  then show ?thesis
    unfolding write_classes_def by (intro moves_result html_run_safe)
qed

lemma moves_attribute:
  assumes "web_laws E"
  shows "moves E (InValue n, open) (InValue n, open) (write_attribute (web_templ E) line col s)"
proof -
  obtain v where "ResolveAttributeValue (web_templ E) s = Inr v" "html_safe v"
    using templ_lawsD(2) [OF assms] by blast
  then show ?thesis
    unfolding write_attribute_def by (intro moves_result html_run_safe)
qed

lemma moves_style:
  assumes "web_laws E"
  shows "moves E (InValue n, open) (InValue n, open) (write_style (web_templ E) line col s)"
proof -
  obtain v where "SanitizeStyleAttributeValues (web_templ E) s = Inr v"
    using templ_lawsD(4) [OF assms] by blast
  then have "map_sum id (EscapeString (web_templ E)) (SanitizeStyleAttributeValues (web_templ E) s) = Inr (EscapeString (web_templ E) v)"
    by simp
  then show ?thesis
    unfolding write_style_def by (rule moves_result) (rule html_run_safe(2) [OF templ_lawsD(1) [OF assms]])
qed

lemma moves_text:
  assumes "web_laws E"
  shows "moves E (InText, open) (InText, open) (write_text (web_templ E) line col s)"
proof -
  have "map_sum id (EscapeString (web_templ E)) (JoinStringErrs (web_templ E) s) = Inr (EscapeString (web_templ E) s)"
    by (simp add: templ_lawsD(3) [OF assms])
  then show ?thesis
    unfolding write_text_def by (rule moves_result) (rule html_run_safe(1) [OF templ_lawsD(1) [OF assms]])
qed

section \<open>Highlighted code\<close>

lemma html_run_snoc: "html_run st (xs @ [c]) = Some (InText, open) \<Longrightarrow> c = CHR 0x0A \<Longrightarrow> html_run st xs = Some (InText, open)"
proof -
  assume run: "html_run st (xs @ [c]) = Some (InText, open)" and c: "c = CHR 0x0A"
  then obtain m ms where st': "html_run st xs = Some (m, ms)" "html_step (m, ms) (CHR 0x0A) = Some (InText, open)"
    by (auto simp: html_run_append split: option.splits)
  then show "html_run st xs = Some (InText, open)"
    by (cases m) auto
qed

lemma html_run_newlines:
  "html_run st (xs @ replicate n (CHR 0x0A)) = Some (InText, open) \<Longrightarrow> html_run st xs = Some (InText, open)"
proof (induction n)
  case (Suc n)
  then have "html_run st ((xs @ replicate n (CHR 0x0A)) @ [CHR 0x0A]) = Some (InText, open)"
    by (simp add: replicate_append_same [symmetric])
  then show ?case
    using Suc.IH html_run_snoc by blast
qed simp

lemma TrimRight_append: "\<exists>n. s = TrimRight s c @ replicate n c"
proof -
  have "s = rev (takeWhile (\<lambda>x. x = c) (rev s) @ dropWhile (\<lambda>x. x = c) (rev s))"
    by simp
  moreover have "takeWhile (\<lambda>x. x = c) (rev s) = replicate (length (takeWhile (\<lambda>x. x = c) (rev s))) c"
    by (metis (full_types) replicate_eqI set_takeWhileD)
  ultimately show ?thesis
    by (metis TrimRight_def rev_append rev_replicate)
qed

lemma fragment_TrimRight:
  assumes "fragment s"
  shows "fragment (TrimRight s (CHR 0x0A))"
proof -
  obtain n where "s = TrimRight s (CHR 0x0A) @ replicate n (CHR 0x0A)"
    using TrimRight_append by blast
  then show ?thesis
    using assms html_run_newlines by (metis fragment_def)
qed

lemma highlight_fragment:
  assumes "web_laws E"
  shows "fragment (fst (highlight_uncached (web_chroma E) lang src))"
  using assms by (auto simp: highlight_uncached_def Let_def web_laws_def fragment_safe fragment_TrimRight split: sum.split)

lemma moves_highlighted:
  assumes "web_laws E"
  shows "moves E (InText, open) (InText, open) (highlighted E lang src)"
  unfolding moves_def
proof (intro allI impI)
  fix st
  assume st: "good_state E st"
  obtain out cache where hl: "highlightCodeHTML (web_chroma E) lang src (rs_cache st) = (out, cache)"
    by force
  have "fragment out \<and> (\<forall>k v. cache k = Some v \<longrightarrow> fragment v)"
    using hl st highlight_fragment [OF assms, of lang src]
    by (auto simp: highlightCodeHTML_def Let_def good_state_def case_prod_unfold split: option.splits if_splits)
  with hl st show "\<exists>out st'. highlighted E lang src st = Some (Inr out, st') \<and> good_state E st' \<and> html_run (InText, open) out = Some (InText, open)"
    by (simp add: highlighted_def write_raw_def write_result_def templ_lawsD(5) [OF assms] good_state_def fragmentD)
qed

section \<open>The templates\<close>

lemma served_stylesheet [simp]: "c \<in> set (stylesheetClasses T) \<Longrightarrow> served T c"
  by (simp add: served_def)

lemma served_statusToneClass [simp]: "served T (statusToneClass T span marks)"
  by (auto simp: statusToneClass_def served_def no_class_def stylesheetClasses_def split: option.split)

lemma served_connectionDotClass [simp]: "served T (connectionDotClass T conn)"
  by (simp add: connectionDotClass_def served_def stylesheetClasses_def)

lemmas html_elements = opened_def void_elements_def plain_elements_def

lemma moves_option:
  "(x = None \<Longrightarrow> moves E a b f) \<Longrightarrow> (\<And>y. x = Some y \<Longrightarrow> moves E a b (g y))
    \<Longrightarrow> moves E a b (case x of None \<Rightarrow> f | Some y \<Rightarrow> g y)"
  by (cases x) auto

text \<open>A template is a sequence of these moves, and the tokenizer evaluates on its literals.\<close>

lemmas moves_rules = moves_skip moves_followed moves_if moves_loop moves_option

lemma moves_Attributes:
  assumes L: "web_laws E"
  shows "moves E (InText, open) (InText, open) (Attributes_templ E key attrs)"
  unfolding Attributes_templ_def Let_def seq_simps case_prod_unfold
  by (rule moves_rules moves_classes [OF L] moves_attribute [OF L] moves_text [OF L] moves_highlighted [OF L]
    | (rule moves_css [OF L], simp add: stylesheetClasses_def)
    | (rule moves_emit, simp add: html_elements))+

lemma moves_EventCard:
  assumes L: "web_laws E"
  shows "moves E (InText, open) (InText, open) (EventCard E event offset key)"
  unfolding EventCard_def Let_def seq_simps
  by (rule moves_rules moves_classes [OF L] moves_attribute [OF L] moves_text [OF L] moves_Attributes [OF L]
    | (rule moves_css [OF L], simp add: stylesheetClasses_def)
    | (rule moves_emit, simp add: html_elements))+

lemma moves_TimelineItem:
  assumes L: "web_laws E"
    and inner: "\<And>q open. item_Span item = Some q \<Longrightarrow> moves E (InText, open) (InText, open) (inner q (depth + 1) False)"
  shows "moves E (InText, open) (InText, open) (TimelineItem_templ E inner item parent depth)"
  unfolding TimelineItem_templ_def Let_def seq_simps
  by (rule moves_rules moves_classes [OF L] moves_EventCard [OF L]
    | (erule inner) | (rule moves_css [OF L], simp add: stylesheetClasses_def)
    | (rule moves_emit, simp add: html_elements))+

lemma moves_SpanTimelineContents:
  assumes L: "web_laws E"
    and inner: "\<And>item q open. item \<in> set (TimelineItems h p) \<Longrightarrow> item_Span item = Some q
      \<Longrightarrow> moves E (InText, open) (InText, open) (inner q (depth + 1) False)"
  shows "moves E (InText, open) (InText, open) (SpanTimelineContents E inner h p depth now marks)"
  unfolding SpanTimelineContents_def Let_def seq_simps
  by (rule moves_rules moves_classes [OF L] moves_attribute [OF L]
    | (rule moves_TimelineItem [OF L], erule (1) inner) | (rule moves_css [OF L], simp add: stylesheetClasses_def)
    | (rule moves_emit, simp add: html_elements))+

lemma moves_SpanTimeline:
  assumes L: "web_laws E"
    and inner: "\<And>item q open. item \<in> set (TimelineItems h p) \<Longrightarrow> item_Span item = Some q
      \<Longrightarrow> moves E (InText, open) (InText, open) (inner q (depth + 1) False)"
  shows "moves E (InText, open) (InText, open) (SpanTimeline E inner h p depth now marks oob)"
  unfolding SpanTimeline_def Let_def seq_simps
  by (rule moves_rules moves_attribute [OF L]
    | (rule moves_SpanTimelineContents [OF L], erule (1) inner) | (rule moves_emit, simp add: html_elements))+

lemma moves_SpanAttributes:
  assumes L: "web_laws E" and span: "span \<noteq> None"
  shows "moves E (InText, open) (InText, open) (SpanAttributes E span oob)"
  unfolding SpanAttributes_def SpanAttributesContents_def Let_def seq_simps
  by (rule moves_rules moves_classes [OF L] moves_attribute [OF L] moves_Attributes [OF L] moves_deref [OF span]
    | (rule moves_css [OF L], simp add: stylesheetClasses_def)
    | (rule moves_emit, simp add: html_elements))+

lemma moves_SpanSummary:
  assumes L: "web_laws E" and span: "span \<noteq> None"
  shows "moves E (InText, open) (InText, open) (SpanSummary E span now marks oob)"
  unfolding SpanSummary_def SpanSummaryContents_def Let_def seq_simps
  by (rule moves_rules moves_classes [OF L] moves_attribute [OF L] moves_text [OF L] moves_deref [OF span]
    | (rule moves_css [OF L], simp add: stylesheetClasses_def)
    | (rule moves_emit, simp add: html_elements))+

lemma moves_Status:
  assumes L: "web_laws E"
  shows "moves E (InText, open) (InText, open) (Status_templ E clock n conn paused)"
  unfolding Status_templ_def Let_def seq_simps
  by (rule moves_rules moves_classes [OF L] moves_text [OF L]
    | (rule moves_css [OF L], simp add: stylesheetClasses_def)
    | (rule moves_emit, simp add: html_elements))+

section \<open>Cards\<close>

lemma moves_SpanCard:
  assumes L: "web_laws E" and "renderable fuel h p"
  shows "moves E (InText, open) (InText, open) (SpanCard E fuel h now marks p depth oob)"
  using assms(2)
proof (induction fuel arbitrary: p depth oob "open")
  case 0
  then show ?case by (simp add: renderable_def)
next
  case (Suc fuel)
  have span: "h p \<noteq> None" using Suc.prems by (rule renderable_alloc)
  have inner: "moves E (InText, open) (InText, open) (SpanCard E fuel h now marks q (depth + 1) False)"
    if "item \<in> set (TimelineItems h p)" and "item_Span item = Some q" for item q "open" depth
    using TimelineItems_child [OF that] renderable_child [OF Suc.prems] by (auto intro: Suc.IH)
  show ?case
    unfolding SpanCard.simps SpanCardContents_def Let_def seq_simps
    by (rule moves_rules moves_classes [OF L] moves_attribute [OF L] moves_style [OF L]
        moves_SpanSummary [OF L span] moves_SpanAttributes [OF L span]
      | (rule moves_SpanTimeline [OF L], erule (1) inner)
      | (rule moves_css [OF L], simp add: stylesheetClasses_def)
      | (rule moves_emit, simp add: html_elements))+
qed

section \<open>Fragments\<close>

definition cache_ok :: "(string \<rightharpoonup> string) \<Rightarrow> bool" where
  "cache_ok cache \<longleftrightarrow> (\<forall>k v. cache k = Some v \<longrightarrow> fragment v)"

text \<open>A rendering that returns a well nested fragment and keeps the cache one of fragments.\<close>

definition safe_rendering :: "(string \<times> (string \<rightharpoonup> string)) option \<Rightarrow> bool" where
  "safe_rendering r \<longleftrightarrow> (\<exists>out cache. r = Some (out, cache) \<and> fragment out \<and> cache_ok cache)"

lemma renderContext_styled:
  assumes "web_laws E"
  shows "styled (web_templ E) (renderContext (web_templ E))"
proof -
  obtain out seen where "RenderCSSItems (web_templ E) (map Class (stylesheetClasses (web_templ E))) {} = (Inr out, seen)"
      "\<forall>c. Class c \<in> set (map Class (stylesheetClasses (web_templ E))) \<longrightarrow> css_ID c \<in> seen"
    using templ_lawsD(6) [OF assms, of "map Class (stylesheetClasses (web_templ E))" "{}"] by blast
  then show ?thesis by (auto simp: renderContext_def styled_def)
qed

lemma safe_renderToString:
  assumes L: "web_laws E" and "cache_ok cache" and r: "\<And>open. moves E (InText, open) (InText, open) r"
  shows "safe_rendering (renderToString E r cache)"
proof -
  let ?st = "\<lparr>rs_seen = renderContext (web_templ E), rs_cache = cache\<rparr>"
  have good: "good_state E ?st"
    using assms(2) renderContext_styled [OF L] by (simp add: good_state_def cache_ok_def)
  then obtain out st' where out: "r ?st = Some (Inr out, st')" "good_state E st'"
    using r [of "[]"] by (auto simp: moves_def)
  have "html_run (InText, open) out = Some (InText, open)" for "open"
    using r [of "open"] good out(1) by (auto simp: moves_def)
  with out show ?thesis
    by (simp add: safe_rendering_def renderToString_def fragment_def cache_ok_def good_state_def)
qed

lemma moves_Roots:
  assumes L: "web_laws E" and tops: "\<And>p. p \<in> set tops \<Longrightarrow> renderable fuel h p"
  shows "moves E (InText, open) (InText, open) (Roots_templ E fuel h tops now marks)"
  unfolding Roots_templ_def Let_def seq_simps
  by (rule moves_rules moves_classes [OF L]
    | (rule moves_SpanCard [OF L], erule tops)
    | (rule moves_css [OF L], simp add: stylesheetClasses_def)
    | (rule moves_emit, simp add: html_elements))+

lemma moves_SpanTimelinePatch:
  assumes L: "web_laws E" and p: "renderable (Suc fuel) h p"
  shows "moves E (InText, open) (InText, open) (SpanTimelinePatch E (Suc fuel) h p depth now marks)"
  unfolding SpanTimelinePatch_def
  by (rule moves_SpanTimeline [OF L], rule moves_SpanCard [OF L], rule timeline_renderable [OF p])

lemma moves_TimelineAppendPatch:
  assumes L: "web_laws E" and q: "\<And>q. item_Span item = Some q \<Longrightarrow> renderable fuel h q"
  shows "moves E (InText, open) (InText, open) (TimelineAppendPatch E fuel h p item depth now marks)"
  unfolding TimelineAppendPatch_def Let_def seq_simps
  by (rule moves_rules moves_attribute [OF L]
    | (rule moves_TimelineItem [OF L], rule moves_SpanCard [OF L], erule q)
    | (rule moves_emit, simp add: html_elements))+

section \<open>What the server renders\<close>

lemma safe_Roots:
  assumes "web_laws E" and "cache_ok cache" and "store_wf s"
  shows "safe_rendering (renderRoots E (walk_fuel s) (heap s) (Roots s) now marks cache)"
  unfolding renderRoots_def Roots_def
  by (rule safe_renderToString [OF assms(1,2)], rule moves_Roots [OF assms(1)], erule wf_renderable(1) [OF assms(3)])

lemma safe_Status:
  assumes "web_laws E" and "cache_ok cache"
  shows "safe_rendering (renderStatus E clock n conn paused cache)"
  unfolding renderStatus_def by (rule safe_renderToString [OF assms], rule moves_Status [OF assms(1)])

lemma safe_SpanPatch:
  assumes "web_laws E" and "cache_ok cache" and "renderable fuel h p"
  shows "safe_rendering (renderSpanPatch E fuel h p depth now marks cache)"
  unfolding renderSpanPatch_def SpanPatch_def
  by (rule safe_renderToString [OF assms(1,2)], rule moves_SpanCard [OF assms(1,3)])

lemma safe_SpanSummaryPatch:
  assumes "web_laws E" and "cache_ok cache" and "h p \<noteq> None"
  shows "safe_rendering (renderSpanSummaryPatch E h p now marks cache)"
  unfolding renderSpanSummaryPatch_def SpanSummaryPatch_def
  by (rule safe_renderToString [OF assms(1,2)], rule moves_SpanSummary [OF assms(1,3)])

lemma safe_SpanAttributesPatch:
  assumes "web_laws E" and "cache_ok cache" and "h p \<noteq> None"
  shows "safe_rendering (renderSpanAttributesPatch E h p cache)"
  unfolding renderSpanAttributesPatch_def SpanAttributesPatch_def
  by (rule safe_renderToString [OF assms(1,2)], rule moves_SpanAttributes [OF assms(1,3)])

lemma safe_SpanTimelinePatch:
  assumes "web_laws E" and "cache_ok cache" and "renderable (walk_fuel s) h p"
  shows "safe_rendering (renderSpanTimelinePatch E (walk_fuel s) h p depth now marks cache)"
  using assms(3) unfolding renderSpanTimelinePatch_def walk_fuel_def
  by (intro safe_renderToString [OF assms(1,2)] moves_SpanTimelinePatch [OF assms(1)])

lemma safe_TimelineAppendPatch:
  assumes "web_laws E" and "cache_ok cache" and "\<And>q. item_Span item = Some q \<Longrightarrow> renderable fuel h q"
  shows "safe_rendering (renderTimelineAppendPatch E fuel h p item depth now marks cache)"
  unfolding renderTimelineAppendPatch_def
  by (rule safe_renderToString [OF assms(1,2)], rule moves_TimelineAppendPatch [OF assms(1)], erule assms(3))

text \<open>C28: Whatever the records contain, every fragment the viewer sends is a well nested piece of HTML
  made of a few plain elements: no text, attribute or name can open or close an element, end an
  attribute value or bring in a script or a style, and rendering returns without a panic.\<close>

theorem fragments_nested:
  assumes "web_laws E" and "store_wf s" and "cache_ok cache"
  shows "safe_rendering (renderRoots E (walk_fuel s) (heap s) (Roots s) now (StaleOpenSpanIDs s) cache)
    \<and> safe_rendering (renderStatus E clock n conn paused cache)
    \<and> (\<forall>i p. byID s i = Some p \<longrightarrow>
        safe_rendering (renderSpanPatch E (walk_fuel s) (heap s) p depth now (StaleOpenSpanIDs s) cache)
      \<and> safe_rendering (renderSpanSummaryPatch E (heap s) p now (StaleOpenSpanIDs s) cache)
      \<and> safe_rendering (renderSpanAttributesPatch E (heap s) p cache)
      \<and> safe_rendering (renderSpanTimelinePatch E (walk_fuel s) (heap s) p depth now (StaleOpenSpanIDs s) cache)
      \<and> (\<forall>item \<in> set (TimelineItems (heap s) p). safe_rendering
          (renderTimelineAppendPatch E (walk_fuel s) (heap s) p item depth now (StaleOpenSpanIDs s) cache)))"
proof (intro conjI allI impI ballI)
  note L = assms(1,3)
  fix i p
  assume "byID s i = Some p"
  then have p: "renderable (walk_fuel s) (heap s) p"
    by (rule wf_renderable(2) [OF assms(2)])
  then show "safe_rendering (renderSpanPatch E (walk_fuel s) (heap s) p depth now (StaleOpenSpanIDs s) cache)"
    and "safe_rendering (renderSpanSummaryPatch E (heap s) p now (StaleOpenSpanIDs s) cache)"
    and "safe_rendering (renderSpanAttributesPatch E (heap s) p cache)"
    and "safe_rendering (renderSpanTimelinePatch E (walk_fuel s) (heap s) p depth now (StaleOpenSpanIDs s) cache)"
    by (rule safe_SpanPatch [OF L], rule safe_SpanSummaryPatch [OF L renderable_alloc],
      rule safe_SpanAttributesPatch [OF L renderable_alloc], rule safe_SpanTimelinePatch [OF L])
  fix item
  assume "item \<in> set (TimelineItems (heap s) p)"
  then show "safe_rendering (renderTimelineAppendPatch E (walk_fuel s) (heap s) p item depth now (StaleOpenSpanIDs s) cache)"
    by (rule safe_TimelineAppendPatch [OF L timeline_renderable [OF p [unfolded walk_fuel_def], folded walk_fuel_def]])
qed (rule safe_Roots [OF assms(1,3,2)], rule safe_Status [OF assms(1,3)])

section \<open>A runtime that keeps the laws\<close>

text \<open>A templ and a chroma with the documented behaviour, to instantiate the theorems with.\<close>

fun switched_on :: "css_item \<Rightarrow> css_class list" where
  "switched_on (ClassKV c b) = (if b then [c] else [])"
| "switched_on item = item_classes item"

fun css_new :: "css_class list \<Rightarrow> string set \<Rightarrow> string \<times> string set" where
  "css_new [] seen = ([], seen)"
| "css_new (c # cs) seen =
     (if css_ID c \<in> seen then css_new cs seen
      else let (out, seen) = css_new cs (insert (css_ID c) seen) in (css_Class c @ out, seen))"

definition ref_templ :: templ where
  "ref_templ = \<lparr>EscapeString = html_EscapeString, ResolveAttributeValue = (\<lambda>s. Inr (html_EscapeString s)),
     JoinStringErrs = Inr, SanitizeStyleAttributeValues = Inr,
     CSSClasses_String = (\<lambda>items. join '' '' (map css_ID (concat (map item_classes items)))),
     RenderCSSItems = (\<lambda>items seen. let (out, seen) = css_new (concat (map switched_on items)) seen
       in (Inr (if out = [] then [] else ''<style>'' @ out @ ''</style>''), seen)),
     Raw_Render = Inr, CSSID = (\<lambda>name css. name @ ''_'' @ Itoa (int (length css))),
     SanitizeCSS = (\<lambda>p v. p @ '':'' @ v @ '';''), templ_Error = (\<lambda>e line col. e)\<rparr>"

definition ref_chroma :: chroma where
  "ref_chroma = \<lparr>lexers_Get = (\<lambda>lang. if lang = ''text'' then Some 0 else None), lexers_Analyse = (\<lambda>src. None),
     lexers_Fallback = 0, Coalesce = id, styles_Get = (\<lambda>name. None), styles_Fallback = 0,
     Tokenise = (\<lambda>lexer src. Inr (length src)),
     html_Format = (\<lambda>style tokens. Inr (''<span>'' @ Itoa (int tokens) @ ''</span>'' @ [newline]))\<rparr>"

definition ref_web :: web_env where
  "ref_web = \<lparr>web_templ = ref_templ, web_chroma = ref_chroma\<rparr>"

lemma css_new_seen: "seen \<subseteq> snd (css_new cs seen) \<and> (\<forall>c \<in> set cs. css_ID c \<in> snd (css_new cs seen))"
  by (induction cs seen rule: css_new.induct) (auto simp: case_prod_unfold Let_def)

lemma css_new_silent: "\<forall>c \<in> set cs. css_Class c = [] \<or> css_ID c \<in> seen \<Longrightarrow> fst (css_new cs seen) = []"
  by (induction cs seen rule: css_new.induct) (auto simp: case_prod_unfold Let_def)

lemma switched_on_classes: "c \<in> set (switched_on item) \<Longrightarrow> c \<in> set (item_classes item)"
  by (cases item) (auto split: if_splits)

lemma digit_char_safe: "d < 16 \<Longrightarrow> html_safe [digit_char d]"
  by (drule less_16_cases) (auto simp: digit_char_def)

lemma format_nat_safe [simp]: "html_safe (format_nat n)"
proof (induction n rule: format_nat.induct)
  case (1 n)
  then show ?case
    by (subst format_nat.simps) (simp add: digit_char_safe [simplified])
qed

lemma Itoa_safe [simp]: "html_safe (Itoa n)"
  by (simp add: Itoa_def)

lemma ref_web_laws [simp]: "web_laws ref_web"
  unfolding web_laws_def templ_laws_def
proof (intro conjI allI impI)
  fix items :: "css_item list" and seen
  show "\<exists>out seen'. RenderCSSItems (web_templ ref_web) items seen = (Inr out, seen') \<and> seen \<subseteq> seen'
      \<and> (\<forall>c. Class c \<in> set items \<longrightarrow> css_ID c \<in> seen')
      \<and> ((\<forall>item \<in> set items. \<forall>c \<in> set (item_classes item). css_Class c = [] \<or> css_ID c \<in> seen) \<longrightarrow> out = [])"
  proof (intro exI conjI impI allI)
    let ?cs = "concat (map switched_on items)"
    show "RenderCSSItems (web_templ ref_web) items seen = (Inr (if fst (css_new ?cs seen) = [] then []
        else ''<style>'' @ fst (css_new ?cs seen) @ ''</style>''), snd (css_new ?cs seen))"
      by (simp add: ref_web_def ref_templ_def case_prod_unfold Let_def)
    show "seen \<subseteq> snd (css_new ?cs seen)"
      using css_new_seen by blast
    show "css_ID c \<in> snd (css_new ?cs seen)" if on: "Class c \<in> set items" for c
    proof -
      have "c \<in> set ?cs" using on by force
      then show ?thesis using css_new_seen [of seen ?cs] by blast
    qed
    show "(if fst (css_new ?cs seen) = [] then [] else ''<style>'' @ fst (css_new ?cs seen) @ ''</style>'') = []"
      if "\<forall>item \<in> set items. \<forall>c \<in> set (item_classes item). css_Class c = [] \<or> css_ID c \<in> seen"
      using that css_new_silent [of ?cs seen] switched_on_classes by force
  qed
next
  fix style tokens out
  assume out: "html_Format (web_chroma ref_web) style tokens = Inr out"
  have "html_run (InText, open) (''<span>'' @ Itoa (int tokens) @ ''</span>'' @ [newline]) = Some (InText, open)" for "open"
    by (simp add: html_run_append html_run_safe html_elements)
  with out show "fragment out"
    by (auto simp: ref_web_def ref_chroma_def fragment_def)
qed (simp_all add: ref_web_def ref_templ_def)

lemma cache_ok_empty [simp]: "cache_ok Map.empty"
  by (simp add: cache_ok_def)

theorem fragments_nested_witness:
  "\<exists>out cache. renderRoots ref_web (walk_fuel sample_store) (heap sample_store) (Roots sample_store) 7
       (StaleOpenSpanIDs sample_store) Map.empty = Some (out, cache) \<and> fragment out
     \<and> safe_rendering (renderSpanPatch ref_web (walk_fuel sample_store) (heap sample_store) 2 1 7
         (StaleOpenSpanIDs sample_store) Map.empty)"
  using fragments_nested [OF ref_web_laws sample_store_wf cache_ok_empty, of 7 "\<lambda>k. 7" 2 "connection StateConnected 1" False 1]
    sample_store_reads(2)
  unfolding safe_rendering_def by blast

end
