(* ===== verification/Web_Server_Props.thy ===== *)
theory Web_Server_Props
  imports Web_Http Web_Safety Store_View
begin

text \<open>
  The properties of the web server: no sequence of requests, records and connection changes
  makes an operation fail, and what the subscribers can count on.
\<close>

section \<open>Invariant\<close>

definition snap_ok :: "snapshot \<Rightarrow> bool" where
  "snap_ok snap \<longleftrightarrow> fragment (RootsHTML snap) \<and> fragment (PatchHTML snap) \<and> fragment (StatusHTML snap)"

definition server_inv :: "int \<Rightarrow> web_server \<Rightarrow> bool" where
  "server_inv m s \<longleftrightarrow> store_ok (ws_store s) \<and> cache_ok (ws_cache s)
     \<and> ws_maxRoots s = m \<and> 0 < m \<and> int (length (roots (ws_store s))) \<le> ws_maxRoots s
     \<and> finite (ws_subscribers s)
     \<and> (\<forall>ch c. ws_chans s ch = Some c \<longrightarrow> ch < ws_next s
          \<and> length (sc_buffered c) \<le> snapshot_buffer \<and> (\<forall>snap \<in> set (sc_buffered c). snap_ok snap))
     \<and> (\<forall>ch \<in> ws_subscribers s. \<exists>c. ws_chans s ch = Some c \<and> \<not> sc_closed c)"

lemma server_invD:
  assumes "server_inv m s"
  shows "store_ok (ws_store s)" and "cache_ok (ws_cache s)" and "0 < ws_maxRoots s"
    and "int (length (roots (ws_store s))) \<le> ws_maxRoots s" and "finite (ws_subscribers s)"
    and "ws_chans s ch = Some c \<Longrightarrow> ch < ws_next s"
    and "ws_chans s ch = Some c \<Longrightarrow> length (sc_buffered c) \<le> snapshot_buffer"
    and "ws_chans s ch = Some c \<Longrightarrow> snap \<in> set (sc_buffered c) \<Longrightarrow> snap_ok snap"
    and "ch \<in> ws_subscribers s \<Longrightarrow> \<exists>c. ws_chans s ch = Some c \<and> \<not> sc_closed c"
    and "ws_maxRoots s = m"
  using assms by (auto simp: server_inv_def)

text \<open>The environment: a runtime that keeps its laws, and iterations that visit each subscriber once.\<close>

definition server_env_ok :: "server_env \<Rightarrow> bool" where
  "server_env_ok env \<longleftrightarrow> web_laws (se_web env) \<and> (\<forall>k A. finite A \<longrightarrow> enumerates (se_range env k A) A)"

text \<open>A change of the cache and the clock only.\<close>

definition quiet :: "web_server \<Rightarrow> web_server \<Rightarrow> bool" where
  "quiet s s' \<longleftrightarrow> (\<exists>cache k. cache_ok cache \<and> s' = s\<lparr>ws_cache := cache, ws_ticks := k\<rparr>)"

lemma ticks_inv [simp]: "server_inv m (s\<lparr>ws_ticks := k\<rparr>) = server_inv m s"
  by (simp add: server_inv_def)

lemma quiet_inv: "quiet s s' \<Longrightarrow> server_inv m s \<Longrightarrow> server_inv m s'"
  by (auto simp: quiet_def server_inv_def)

lemma quiet_trans: "quiet s s' \<Longrightarrow> quiet s' s'' \<Longrightarrow> quiet s s''"
  unfolding quiet_def by clarsimp blast

lemma quiet_refl: "server_inv m s \<Longrightarrow> quiet s s"
  by (auto simp: quiet_def server_inv_def intro!: exI [of _ "ws_cache s"] exI [of _ "ws_ticks s"])

lemma quiet_ticks: "server_inv m s \<Longrightarrow> quiet s (s\<lparr>ws_ticks := k\<rparr>)"
  by (auto simp: quiet_def server_inv_def intro!: exI [of _ "ws_cache s"] exI [of _ k])

lemma quiet_reads:
  assumes "quiet s s'"
  shows "ws_store s' = ws_store s" "ws_conn s' = ws_conn s" "ws_paused s' = ws_paused s" "ws_maxRoots s' = ws_maxRoots s"
    "ws_subscribers s' = ws_subscribers s" "ws_chans s' = ws_chans s" "ws_next s' = ws_next s"
  using assms by (auto simp: quiet_def)

section \<open>Snapshots\<close>

lemma render_with_ok:
  assumes "server_inv m s" and "safe_rendering (r (ws_cache s))"
  obtains out s' where "render_with r s = Some (out, s')" and "fragment out" and "quiet s s'"
proof -
  obtain out cache where r: "r (ws_cache s) = Some (out, cache)" "fragment out" "cache_ok cache"
    using assms(2) by (auto simp: safe_rendering_def)
  then have "quiet s (s\<lparr>ws_cache := cache\<rparr>)"
    by (auto simp: quiet_def intro!: exI [of _ cache] exI [of _ "ws_ticks s"])
  with r that show thesis by (simp add: render_with_def)
qed

lemma status_html_ok:
  assumes "server_env_ok env" and "server_inv m s"
  obtains out s' where "status_html env s = Some (out, s')" and "fragment out" and "quiet s s'"
proof -
  have "safe_rendering (renderStatus (se_web env) (\<lambda>k. se_now env (ws_ticks s + k)) (length (Roots (ws_store s)))
      (ws_conn s) (ws_paused s) (ws_cache s))"
    using assms by (intro safe_Status) (simp_all add: server_env_ok_def server_inv_def)
  then obtain out s1 where s1: "render_with (renderStatus (se_web env) (\<lambda>k. se_now env (ws_ticks s + k))
      (length (Roots (ws_store s))) (ws_conn s) (ws_paused s)) s = Some (out, s1)" "fragment out" "quiet s s1"
    using render_with_ok [OF assms(2)] by metis
  have "quiet s (s1\<lparr>ws_ticks := ws_ticks s1 + 2\<rparr>)"
    by (rule quiet_trans [OF s1(3) quiet_ticks [OF quiet_inv [OF s1(3) assms(2)]]])
  with s1 that show thesis by (simp add: status_html_def)
qed

lemma snapshotLocked_ok:
  assumes "server_env_ok env" and "server_inv m s"
  obtains snap s' where "snapshotLocked env now s = Some (snap, s')" and "snap_ok snap" and "quiet s s'"
    and "PatchHTML snap = []"
proof -
  have "safe_rendering (renderRoots (se_web env) (walk_fuel (ws_store s)) (heap (ws_store s)) (Roots (ws_store s)) now
      (StaleOpenSpanIDs (ws_store s)) (ws_cache s))"
    using assms by (intro safe_Roots store_ok_wf) (simp_all add: server_env_ok_def server_inv_def)
  then obtain html s1 where s1: "render_with (renderRoots (se_web env) (walk_fuel (ws_store s)) (heap (ws_store s))
      (Roots (ws_store s)) now (StaleOpenSpanIDs (ws_store s))) s = Some (html, s1)" "fragment html" "quiet s s1"
    using render_with_ok [OF assms(2)] by metis
  obtain st s2 where s2: "status_html env s1 = Some (st, s2)" "fragment st" "quiet s1 s2"
    using status_html_ok [OF assms(1) quiet_inv [OF s1(3) assms(2)]] by blast
  have "fragment []" by (simp add: fragment_def)
  with s1 s2 quiet_trans [OF s1(3) s2(3)] that show thesis
    by (simp add: snapshotLocked_def snap_ok_def)
qed

lemma statusSnapshotLocked_ok:
  assumes "server_env_ok env" and "server_inv m s"
  obtains snap s' where "statusSnapshotLocked env s = Some (snap, s')" and "snap_ok snap" and "quiet s s'"
proof -
  obtain st s2 where s2: "status_html env s = Some (st, s2)" "fragment st" "quiet s s2"
    using status_html_ok [OF assms] by blast
  have "fragment []" by (simp add: fragment_def)
  with s2 that show thesis by (simp add: statusSnapshotLocked_def snap_ok_def)
qed

text \<open>A patch: the rendering goes into the snapshot as it is.\<close>

lemma patch_with_ok:
  assumes "server_env_ok env" and "server_inv m s" and "safe_rendering (r (ws_cache s))"
  shows "\<exists>html cache snap s'. r (ws_cache s) = Some (html, cache) \<and> patch_with env r s = Some (Some snap, s')
    \<and> snap_ok snap \<and> RootsHTML snap = [] \<and> PatchHTML snap = html \<and> quiet s s'"
proof -
  obtain html s1 where s1: "render_with r s = Some (html, s1)" "fragment html" "quiet s s1"
    using render_with_ok [of m s r, OF assms(2,3)] by blast
  obtain st s2 where s2: "status_html env s1 = Some (st, s2)" "fragment st" "quiet s1 s2"
    using status_html_ok [OF assms(1) quiet_inv [OF s1(3) assms(2)]] by blast
  have "fragment []" by (simp add: fragment_def)
  moreover obtain cache where "r (ws_cache s) = Some (html, cache)"
    using s1(1) by (auto simp: render_with_def split: option.splits)
  ultimately show ?thesis
    using s1 s2 quiet_trans [OF s1(3) s2(3)]
    by (simp add: patch_with_def patchSnapshotLocked_def snap_ok_def)
qed

lemma child_loop_member: "child_loop h cs i k = Some (q, n) \<Longrightarrow> q \<in> set cs \<and> h q \<noteq> None"
  by (induction cs arbitrary: k) (auto split: option.splits if_splits)

text \<open>What a record sends to the browsers: nothing, or a patch that is well-formed.\<close>

definition good_patch :: "web_server \<Rightarrow> (snapshot option \<times> web_server) option \<Rightarrow> bool" where
  "good_patch s out \<longleftrightarrow> (\<exists>snap s'. out = Some (snap, s') \<and> (\<forall>x. snap = Some x \<longrightarrow> snap_ok x) \<and> quiet s s')"

lemma no_patch: "server_inv m s \<Longrightarrow> good_patch s (Some (None, s))"
  using quiet_refl by (auto simp: good_patch_def)

lemma patch_with_good:
  assumes "server_env_ok env" and "server_inv m s" and "safe_rendering (r (ws_cache s))"
  shows "good_patch s (patch_with env r s)"
  using patch_with_ok [where r = r, OF assms] by (auto simp: good_patch_def)

lemma found_span:
  assumes "server_inv m s" and "FindSpan (ws_store s) i = Some (Some (p, d))"
  obtains sp where "renderable (walk_fuel (ws_store s)) (heap (ws_store s)) p" and "byID (ws_store s) i = Some p"
    and "heap (ws_store s) p = Some sp"
proof -
  have wf: "store_wf (ws_store s)" by (rule store_ok_wf [OF server_invD(1) [OF assms(1)]])
  have id: "byID (ws_store s) i = Some p" and ren: "renderable (walk_fuel (ws_store s)) (heap (ws_store s)) p"
    using assms(2) wf_renderable(2) [OF wf] by (rule_tac wf_FindSpan [OF wf, of i]; auto)+
  with renderable_alloc [OF ren] that show thesis by blast
qed

lemma child_found:
  assumes "childSpanByID h p i = Some (q, n)" and "h p = Some sp" and "renderable (Suc k) h p"
  obtains csp where "h q = Some csp" and "renderable (Suc k) h q"
proof -
  have child: "q \<in> set (Children sp)" "h q \<noteq> None"
    using assms(1,2) child_loop_member by (auto simp: childSpanByID_def)
  with renderable_Suc [OF renderable_child [OF assms(3,2) child(1)]] that show thesis by blast
qed

lemma span_patches:
  assumes "server_env_ok env" and "server_inv m s" and ren: "renderable (walk_fuel (ws_store s)) (heap (ws_store s)) p"
  shows "good_patch s (patch_with env (renderSpanPatch (se_web env) (walk_fuel (ws_store s)) (heap (ws_store s)) p d now marks) s)"
    and "good_patch s (patch_with env (renderSpanSummaryPatch (se_web env) (heap (ws_store s)) p now marks) s)"
    and "good_patch s (patch_with env (renderSpanAttributesPatch (se_web env) (heap (ws_store s)) p) s)"
    and "good_patch s (patch_with env (renderSpanTimelinePatch (se_web env) (walk_fuel (ws_store s)) (heap (ws_store s)) p d now marks) s)"
proof -
  have L: "web_laws (se_web env)" using assms(1) by (simp add: server_env_ok_def)
  note c = server_invD(2) [OF assms(2)]
  have p: "heap (ws_store s) p \<noteq> None" using renderable_alloc [OF ren] by blast
  note good = patch_with_good [OF assms(1,2)]
  show "good_patch s (patch_with env (renderSpanPatch (se_web env) (walk_fuel (ws_store s)) (heap (ws_store s)) p d now marks) s)"
    by (rule good, rule safe_SpanPatch [OF L c ren])
  show "good_patch s (patch_with env (renderSpanSummaryPatch (se_web env) (heap (ws_store s)) p now marks) s)"
    by (rule good, rule safe_SpanSummaryPatch [OF L c], rule p)
  show "good_patch s (patch_with env (renderSpanAttributesPatch (se_web env) (heap (ws_store s)) p) s)"
    by (rule good, rule safe_SpanAttributesPatch [OF L c], rule p)
  show "good_patch s (patch_with env (renderSpanTimelinePatch (se_web env) (walk_fuel (ws_store s)) (heap (ws_store s)) p d now marks) s)"
    by (rule good, rule safe_SpanTimelinePatch [OF L c ren])
qed

lemma recordPatch_started:
  assumes env: "server_env_ok env" and inv: "server_inv m s"
    and "record \<noteq> None" and "Record_WhichKind record = Record_SpanStarted_case"
  shows "good_patch s (recordPatchSnapshotLocked env record i now s)"
proof -
  let ?st = "ws_store s" and ?q = "SpanStarted_GetParentSpanId (Record_GetSpanStarted record)"
  have L: "web_laws (se_web env)" using env by (simp add: server_env_ok_def)
  note c = server_invD(2) [OF inv] and wf = store_ok_wf [OF server_invD(1) [OF inv]]
  obtain r where r: "FindSpan ?st ?q = Some r" using wf_FindSpan [OF wf] by blast
  show ?thesis
  proof (cases "?q = [] \<or> r = None")
    case True
    with assms(3,4) r no_patch [OF inv] show ?thesis by (auto simp: recordPatchSnapshotLocked_def Let_def)
  next
    case False
    then obtain p d where p: "?q \<noteq> []" "FindSpan ?st ?q = Some (Some (p, d))"
      using r by (cases r) auto
    obtain sp where sp: "renderable (walk_fuel ?st) (heap ?st) p" "heap ?st p = Some sp"
      using found_span [OF inv p(2)] by blast
    note whole = span_patches(4) [OF env inv sp(1)]
    show ?thesis
    proof (cases "length (TimelineItems (heap ?st) p) \<le> 1 \<or> childSpanByID (heap ?st) p i = None")
      case True
      with assms(3,4) p whole show ?thesis by (auto simp: recordPatchSnapshotLocked_def Let_def)
    next
      case False
      then obtain q n where q: "childSpanByID (heap ?st) p i = Some (q, n)" by auto
      obtain csp where csp: "heap ?st q = Some csp" "renderable (walk_fuel ?st) (heap ?st) q"
        using child_found [OF q sp(2)] sp(1) by (auto simp: walk_fuel_def)
      have "good_patch s (patch_with env (renderTimelineAppendPatch (se_web env) (walk_fuel ?st) (heap ?st) p
          \<lparr>item_At = StartedAt csp, item_Index = length (Events sp) + n, item_Event = None, item_Span = Some q\<rparr>
          d now (StaleOpenSpanIDs ?st)) s)"
        by (rule patch_with_good [OF env inv], rule safe_TimelineAppendPatch [OF L c]) (use csp in simp_all)
      with assms(3,4) p False q sp csp(1) show ?thesis by (auto simp: recordPatchSnapshotLocked_def Let_def)
    qed
  qed
qed

lemma recordPatch_event:
  assumes env: "server_env_ok env" and inv: "server_inv m s"
    and "record \<noteq> None" and "Record_WhichKind record = Record_SpanEvent_case"
    and found: "FindSpan (ws_store s) i = Some (Some (p, d))"
  shows "good_patch s (recordPatchSnapshotLocked env record i now s)"
proof -
  let ?st = "ws_store s"
  have L: "web_laws (se_web env)" using env by (simp add: server_env_ok_def)
  note c = server_invD(2) [OF inv]
  obtain sp where sp: "renderable (walk_fuel ?st) (heap ?st) p" "byID ?st i = Some p" "heap ?st p = Some sp"
    using found_span [OF inv found] by blast
  show ?thesis
  proof (cases "length (TimelineItems (heap ?st) p) \<le> 1 \<or> length (Events sp) = 0")
    case True
    with assms(3-5) sp(3) span_patches(4) [OF env inv sp(1)] show ?thesis
      by (auto simp: recordPatchSnapshotLocked_def Let_def)
  next
    case False
    then have "Events sp ! (length (Events sp) - 1) \<in> set (Events sp)" by simp
    then obtain e where e: "Events sp ! (length (Events sp) - Suc 0) = Some e"
      using store_ok_events [OF server_invD(1) [OF inv] sp(2,3)] by (metis One_nat_def not_None_eq)
    have "good_patch s (patch_with env (renderTimelineAppendPatch (se_web env) (walk_fuel ?st) (heap ?st) p
        \<lparr>item_At = ev_At e, item_Index = length (Events sp) - 1, item_Event = Some e, item_Span = None\<rparr>
        d now (StaleOpenSpanIDs ?st)) s)"
      by (rule patch_with_good [OF env inv], rule safe_TimelineAppendPatch [OF L c]) simp_all
    with assms(3-5) sp(3) False e show ?thesis by (auto simp: recordPatchSnapshotLocked_def Let_def)
  qed
qed

lemma recordPatch_ok:
  assumes env: "server_env_ok env" and inv: "server_inv m s"
  shows "\<exists>snap s'. recordPatchSnapshotLocked env record i now s = Some (snap, s')
    \<and> (\<forall>x. snap = Some x \<longrightarrow> snap_ok x) \<and> quiet s s'"
  unfolding good_patch_def [symmetric]
proof -
  let ?st = "ws_store s"
  note wf = store_ok_wf [OF server_invD(1) [OF inv]]
  obtain r where r: "FindSpan ?st i = Some r" using wf_FindSpan [OF wf] by blast
  consider (started) "record \<noteq> None" "Record_WhichKind record = Record_SpanStarted_case"
    | (nothing) "record = None \<or> (Record_WhichKind record \<noteq> Record_SpanStarted_case \<and> r = None)"
    | (found) p d where "record \<noteq> None" "Record_WhichKind record \<noteq> Record_SpanStarted_case" "r = Some (p, d)"
    by (cases r; cases "record = None"; cases "Record_WhichKind record = Record_SpanStarted_case") auto
  then show "good_patch s (recordPatchSnapshotLocked env record i now s)"
  proof cases
    case started
    then show ?thesis by (rule recordPatch_started [OF env inv])
  next
    case nothing
    with r no_patch [OF inv] show ?thesis
      by (auto simp: recordPatchSnapshotLocked_def Let_def split: case_Record_Kind.split)
  next
    case (found p d)
    obtain sp where sp: "renderable (walk_fuel ?st) (heap ?st) p" "heap ?st p = Some sp"
      using found_span [OF inv, of i p d] r found(3) by blast
    show ?thesis
    proof (cases "Record_WhichKind record")
      case Record_SpanEvent_case
      with recordPatch_event [OF env inv found(1)] r found(3) show ?thesis by blast
    qed (use found r sp span_patches [OF env inv sp(1)] in \<open>auto simp: recordPatchSnapshotLocked_def Let_def\<close>)
  qed
qed


section \<open>Broadcasting\<close>

text \<open>What a channel holds after a snapshot was offered to it: the oldest makes room.\<close>

definition delivered :: "snapshot \<Rightarrow> snap_chan \<Rightarrow> snap_chan" where
  "delivered snap c = c\<lparr>sc_buffered := (if length (sc_buffered c) < snapshot_buffer then sc_buffered c
     else tl (sc_buffered c)) @ [snap]\<rparr>"

lemma delivered_simps [simp]:
  "sc_closed (delivered snap c) = sc_closed c"
  "last (sc_buffered (delivered snap c)) = snap"
  "sc_buffered (delivered snap c) \<noteq> []"
  by (simp_all add: delivered_def)

lemma delivered_fits: "length (sc_buffered c) \<le> snapshot_buffer \<Longrightarrow> length (sc_buffered (delivered snap c)) \<le> snapshot_buffer"
  by (auto simp: delivered_def snapshot_buffer_def)

lemma delivered_set: "set (sc_buffered (delivered snap c)) \<subseteq> insert snap (set (sc_buffered c))"
  by (cases "sc_buffered c") (auto simp: delivered_def)

lemma offer_snapshot_open:
  assumes "ws_chans s ch = Some c" and "\<not> sc_closed c" and "length (sc_buffered c) \<le> snapshot_buffer"
  shows "offer_snapshot ch snap s = Some (s\<lparr>ws_chans := (ws_chans s)(ch \<mapsto> delivered snap c)\<rparr>)"
  using assms by (auto simp: offer_snapshot_def delivered_def Let_def snapshot_buffer_def)

definition broadcast_to :: "addr set \<Rightarrow> snapshot \<Rightarrow> web_server \<Rightarrow> web_server" where
  "broadcast_to A snap s = s\<lparr>ws_chans := (\<lambda>ch. if ch \<in> A then map_option (delivered snap) (ws_chans s ch) else ws_chans s ch)\<rparr>"

lemma broadcast_to_reads [simp]:
  "ws_store (broadcast_to A snap s) = ws_store s" "ws_cache (broadcast_to A snap s) = ws_cache s"
  "ws_maxRoots (broadcast_to A snap s) = ws_maxRoots s" "ws_subscribers (broadcast_to A snap s) = ws_subscribers s"
  "ws_next (broadcast_to A snap s) = ws_next s"
  by (simp_all add: broadcast_to_def)

lemma broadcast_loop_all:
  assumes "distinct chs" and "\<And>ch. ch \<in> set chs \<Longrightarrow> \<exists>c. ws_chans s ch = Some c \<and> \<not> sc_closed c \<and> length (sc_buffered c) \<le> snapshot_buffer"
  shows "broadcast_loop chs snap s = Some (broadcast_to (set chs) snap s)"
  using assms
proof (induction chs arbitrary: s)
  case Nil
  then show ?case by (simp add: broadcast_to_def)
next
  case (Cons ch chs)
  obtain c where c: "ws_chans s ch = Some c" "\<not> sc_closed c" "length (sc_buffered c) \<le> snapshot_buffer"
    using Cons.prems(2) [of ch] by auto
  let ?s = "s\<lparr>ws_chans := (ws_chans s)(ch \<mapsto> delivered snap c)\<rparr>"
  have "\<exists>c. ws_chans ?s q = Some c \<and> \<not> sc_closed c \<and> length (sc_buffered c) \<le> snapshot_buffer" if "q \<in> set chs" for q
    using Cons.prems that by auto
  then have "broadcast_loop chs snap ?s = Some (broadcast_to (set chs) snap ?s)"
    using Cons.prems(1) by (intro Cons.IH) auto
  moreover have "broadcast_to (set chs) snap ?s = broadcast_to (set (ch # chs)) snap s"
    using Cons.prems(1) c(1) by (auto simp: broadcast_to_def fun_eq_iff)
  ultimately show ?case
    using offer_snapshot_open [OF c] by simp
qed

lemma broadcast_to_inv:
  assumes "server_inv m s" and "snap_ok snap"
  shows "server_inv m (broadcast_to A snap s)"
proof -
  have kept: "length (sc_buffered (delivered snap c)) \<le> snapshot_buffer \<and> (\<forall>x \<in> set (sc_buffered (delivered snap c)). snap_ok x)"
    if "ws_chans s ch = Some c" for ch c
    using that server_invD(7,8) [OF assms(1)] delivered_fits delivered_set [of snap c] assms(2) by blast
  have "ch < ws_next s \<and> length (sc_buffered c) \<le> snapshot_buffer \<and> (\<forall>x \<in> set (sc_buffered c). snap_ok x)"
    if "ws_chans (broadcast_to A snap s) ch = Some c" for ch c
    using that kept server_invD(6-8) [OF assms(1), of ch] by (fastforce simp: broadcast_to_def split: if_splits)
  moreover have "\<exists>c. ws_chans (broadcast_to A snap s) ch = Some c \<and> \<not> sc_closed c" if "ch \<in> ws_subscribers s" for ch
    using server_invD(9) [OF assms(1) that] by (auto simp: broadcast_to_def)
  ultimately show ?thesis
    unfolding server_inv_def broadcast_to_reads using server_invD(1-5,10) [OF assms(1)] by blast
qed

lemma broadcastLocked_all:
  assumes "server_env_ok env" and "server_inv m s"
  shows "broadcastLocked env snap s
    = Some (snap, (broadcast_to (ws_subscribers s) snap s)\<lparr>ws_ticks := Suc (ws_ticks s)\<rparr>)"
proof -
  let ?chs = "se_range env (ws_ticks s) (ws_subscribers s)"
  have chs: "distinct ?chs" "set ?chs = ws_subscribers s"
    using assms(1) server_invD(5) [OF assms(2)] by (simp_all add: server_env_ok_def enumerates_def)
  have "broadcast_loop ?chs snap s = Some (broadcast_to (set ?chs) snap s)"
    using server_invD(7,9) [OF assms(2)] chs by (intro broadcast_loop_all) blast+
  with chs(2) show ?thesis by (simp add: broadcastLocked_def broadcast_to_def)
qed

text \<open>A broadcast of a good snapshot: it is returned, and nothing but buffers, cache and clock changes.\<close>

definition frame :: "web_server \<Rightarrow> web_server \<Rightarrow> bool" where
  "frame s s' \<longleftrightarrow> ws_store s' = ws_store s \<and> ws_conn s' = ws_conn s \<and> ws_paused s' = ws_paused s
     \<and> ws_maxRoots s' = ws_maxRoots s \<and> ws_subscribers s' = ws_subscribers s \<and> ws_next s' = ws_next s"

definition spread :: "snapshot \<Rightarrow> web_server \<Rightarrow> web_server \<Rightarrow> bool" where
  "spread snap s s' \<longleftrightarrow> frame s s' \<and> ws_chans s' = ws_chans (broadcast_to (ws_subscribers s) snap s)"

lemma broadcast_spread:
  assumes "server_env_ok env" and "server_inv m s0" and "quiet s0 s" and "snap_ok snap"
  obtains s' where "broadcastLocked env snap s = Some (snap, s')" and "server_inv m s'" and "spread snap s0 s'"
proof -
  have s: "server_inv m s" by (rule quiet_inv [OF assms(3,2)])
  let ?s = "(broadcast_to (ws_subscribers s) snap s)\<lparr>ws_ticks := Suc (ws_ticks s)\<rparr>"
  have "server_inv m ?s"
    using broadcast_to_inv [OF s assms(4)] by simp
  moreover have "spread snap s0 ?s"
    using quiet_reads [OF assms(3)] by (simp add: spread_def frame_def broadcast_to_def cong: if_cong)
  ultimately show thesis
    using broadcastLocked_all [OF assms(1) s] that by blast
qed

lemma broadcast_full_ok:
  assumes "server_env_ok env" and "server_inv m s"
  obtains snap s' where "broadcast_full env now s = Some (snap, s')" and "server_inv m s'" and "spread snap s s'"
    and "snap_ok snap" and "PatchHTML snap = []"
proof -
  obtain snap s1 where s1: "snapshotLocked env now s = Some (snap, s1)" "snap_ok snap" "quiet s s1" "PatchHTML snap = []"
    using snapshotLocked_ok [OF assms] by blast
  obtain s2 where "broadcastLocked env snap s1 = Some (snap, s2)" "server_inv m s2" "spread snap s s2"
    using broadcast_spread [OF assms s1(3,2)] by blast
  with s1 that show thesis by (simp add: broadcast_full_def)
qed

lemma broadcast_status_ok:
  assumes "server_env_ok env" and "server_inv m s"
  obtains snap s' where "broadcast_status env s = Some s'" and "server_inv m s'" and "spread snap s s'"
proof -
  obtain snap s1 where s1: "statusSnapshotLocked env s = Some (snap, s1)" "snap_ok snap" "quiet s s1"
    using statusSnapshotLocked_ok [OF assms] by blast
  obtain s2 where "broadcastLocked env snap s1 = Some (snap, s2)" "server_inv m s2" "spread snap s s2"
    using broadcast_spread [OF assms s1(3,2)] by blast
  with s1 that show thesis by (simp add: broadcast_status_def)
qed


section \<open>Operations\<close>

lemma server_now_inv: "server_inv m s \<Longrightarrow> server_inv m (snd (server_now env s))"
  by (simp add: server_now_def server_inv_def)

lemma with_store_inv:
  "server_inv m s \<Longrightarrow> store_ok st \<Longrightarrow> int (length (roots st)) \<le> ws_maxRoots s \<Longrightarrow> server_inv m (s\<lparr>ws_store := st\<rparr>)"
  by (simp add: server_inv_def)

lemma applyRecord_frame:
  assumes env: "server_env_ok env" and inv: "server_inv m s"
  obtains st s' where "applyRecord env record s = Some s'" and "server_inv m s'" and "frame (s\<lparr>ws_store := st\<rparr>) s'"
    and "record = None \<or> ws_paused s \<Longrightarrow> st = ws_store s"
    and "record \<noteq> None \<Longrightarrow> \<not> ws_paused s \<Longrightarrow>
      Option.bind (Apply (se_rt env) (ws_store s) record) (\<lambda>st. LimitRoots st (ws_maxRoots s)) = Some st"
proof (cases "record = None \<or> ws_paused s")
  case True
  then have "applyRecord env record s = Some s" by (auto simp: applyRecord_def)
  with inv True that [of s "ws_store s"] show thesis by (auto simp: frame_def)
next
  case False
  obtain s1 s2 where st: "Apply (se_rt env) (ws_store s) record = Some s1" "LimitRoots s1 (ws_maxRoots s) = Some s2"
      "store_ok s2" "int (length (roots s2)) \<le> ws_maxRoots s"
    using apply_limited_ok [OF server_invD(1,3) [OF inv]] by blast
  let ?s = "snd (server_now env (s\<lparr>ws_store := s2\<rparr>))"
  let ?now = "fst (server_now env (s\<lparr>ws_store := s2\<rparr>))"
  have s: "server_inv m ?s"
    by (intro server_now_inv with_store_inv inv st)
  have start: "frame (s\<lparr>ws_store := s2\<rparr>) s' = frame ?s s'" for s'
    by (simp add: frame_def server_now_def)
  obtain snap1 s3 where full: "broadcast_full env ?now ?s = Some (snap1, s3)" "server_inv m s3" "spread snap1 ?s s3"
    using broadcast_full_ok [OF env s] by blast
  obtain snap2 s4 where patch: "recordPatchSnapshotLocked env record (recordSpanID record) ?now ?s = Some (snap2, s4)"
      "\<forall>x. snap2 = Some x \<longrightarrow> snap_ok x" "quiet ?s s4"
    using recordPatch_ok [OF env s] by blast
  obtain snap3 s5 where full2: "broadcast_full env ?now s4 = Some (snap3, s5)" "server_inv m s5" "spread snap3 s4 s5"
    using broadcast_full_ok [OF env quiet_inv [OF patch(3) s]] by blast
  have frame5: "frame ?s s5"
    using full2(3) quiet_reads [OF patch(3)] by (simp add: spread_def frame_def)
  have "\<exists>s'. applyRecord env record s = Some s' \<and> server_inv m s' \<and> frame ?s s'"
  proof (cases "sameStrings (rootIDsLocked s) (rootIDsLocked ?s)")
    case False
    with \<open>\<not> (record = None \<or> ws_paused s)\<close> st full show ?thesis
      by (auto simp: applyRecord_def Let_def case_prod_unfold spread_def)
  next
    case True
    note unfolded = \<open>\<not> (record = None \<or> ws_paused s)\<close> st(1,2) patch(1) True
    show ?thesis
    proof (cases snap2)
      case None
      with unfolded full2(1,2) frame5 show ?thesis
        by (auto simp: applyRecord_def Let_def case_prod_unfold)
    next
      case (Some x)
      then obtain s6 where "broadcastLocked env x s4 = Some (x, s6)" "server_inv m s6" "spread x ?s s6"
        using broadcast_spread [OF env s patch(3)] patch(2) by blast
      with unfolded Some show ?thesis
        by (auto simp: applyRecord_def Let_def case_prod_unfold spread_def)
    qed
  qed
  with False st(1,2) that [of _ s2] show thesis by (auto simp: start)
qed

lemma applyRecord_ok:
  assumes "server_env_ok env" and "server_inv m s"
  obtains s' where "applyRecord env record s = Some s'" and "server_inv m s'"
  by (rule applyRecord_frame [OF assms])

lemma conn_inv: "server_inv m s \<Longrightarrow> server_inv m (s\<lparr>ws_conn := conn\<rparr>)"
  by (simp add: server_inv_def)

lemma setConnectionState_ok:
  assumes env: "server_env_ok env" and inv: "server_inv m s"
  obtains s' where "setConnectionState env conn s = Some s'" and "server_inv m s'"
proof -
  let ?s = "snd (server_now env (s\<lparr>ws_conn := conn\<rparr>))"
  let ?now = "fst (server_now env (s\<lparr>ws_conn := conn\<rparr>))"
  have s: "server_inv m ?s" by (intro server_now_inv conn_inv inv)
  obtain snap1 s1 where a: "broadcast_status env (?s\<lparr>ws_conn := conn\<lparr>cs_Err := []\<rparr>\<rparr>) = Some s1" "server_inv m s1"
    using broadcast_status_ok [OF env conn_inv [OF s]] by metis
  obtain snap2 s2 where b: "broadcast_status env ?s = Some s2" "server_inv m s2"
    using broadcast_status_ok [OF env s] by metis
  obtain st where st: "MarkOpenSpansStale (ws_store ?s) ?now = Some st" "store_ok st" "roots st = roots (ws_store ?s)"
    using MarkOpenSpansStale_ok [OF server_invD(1) [OF s]] by blast
  have "server_inv m (?s\<lparr>ws_store := st\<rparr>)"
    using with_store_inv [OF s st(2)] st(3) server_invD(4) [OF s] by simp
  then obtain snap3 s3 where c: "broadcast_full env ?now (?s\<lparr>ws_store := st\<rparr>) = Some (snap3, s3)" "server_inv m s3"
    using broadcast_full_ok [OF env] by metis
  have "\<exists>s'. setConnectionState env conn s = Some s' \<and> server_inv m s'"
    using a b c st(1) by (simp add: setConnectionState_def Let_def case_prod_unfold)
  with that show thesis by blast
qed

lemma pause_inv: "server_inv m s \<Longrightarrow> server_inv m (s\<lparr>ws_paused := b\<rparr>)"
  by (simp add: server_inv_def)

lemma togglePaused_ok:
  assumes env: "server_env_ok env" and inv: "server_inv m s"
  obtains snap s' s1 where "togglePaused env s = Some (snap, s')" and "server_inv m s'" and "snap_ok snap"
    and "spread snap s1 s'" and "ws_paused s1 = (\<not> ws_paused s)" and "ws_chans s1 = ws_chans s"
    and "ws_subscribers s1 = ws_subscribers s"
    and "if ws_paused s then ws_store s1 = ws_store s else ClearOpenSpans (ws_store s) = Some (ws_store s1)"
proof (cases "ws_paused s")
  case True
  let ?s = "s\<lparr>ws_paused := False, ws_ticks := Suc (ws_ticks s)\<rparr>"
  have "server_inv m ?s" using inv by (simp add: server_inv_def)
  then obtain snap s' where s': "broadcast_full env (se_now env (ws_ticks s)) ?s = Some (snap, s')" "server_inv m s'"
      "spread snap ?s s'" "snap_ok snap"
    using broadcast_full_ok [OF env] by metis
  then have "togglePaused env s = Some (snap, s')"
    using True by (simp add: togglePaused_def server_now_def)
  from that [OF this s'(2,4,3)] True show thesis by simp
next
  case False
  obtain st where st: "ClearOpenSpans (ws_store s) = Some st" "store_ok st" "length (roots st) \<le> length (roots (ws_store s))"
    using ClearOpenSpans_ok [OF server_invD(1) [OF inv]] by blast
  let ?s = "s\<lparr>ws_paused := True, ws_store := st, ws_ticks := Suc (ws_ticks s)\<rparr>"
  have "server_inv m (s\<lparr>ws_store := st\<rparr>)"
    using with_store_inv [OF inv st(2)] st(3) server_invD(4) [OF inv] by simp
  then have "server_inv m ?s" by (simp add: server_inv_def)
  then obtain snap s' where s': "broadcast_full env (se_now env (ws_ticks s)) ?s = Some (snap, s')" "server_inv m s'"
      "spread snap ?s s'" "snap_ok snap"
    using broadcast_full_ok [OF env] by metis
  then have "togglePaused env s = Some (snap, s')"
    using False st(1) by (simp add: togglePaused_def server_now_def)
  from that [OF this s'(2,4,3)] False st(1) show thesis by simp
qed

lemma clear_ok:
  assumes env: "server_env_ok env" and inv: "server_inv m s"
  obtains snap s' where "clear env s = Some (snap, s')" and "server_inv m s'"
proof -
  let ?s = "s\<lparr>ws_store := Clear (ws_store s), ws_ticks := Suc (ws_ticks s)\<rparr>"
  have "server_inv m (s\<lparr>ws_store := Clear (ws_store s)\<rparr>)"
    using server_invD(1,3) [OF inv] by (intro with_store_inv inv Clear_ok) simp_all
  then have "server_inv m ?s" by (simp add: server_inv_def)
  then obtain snap s' where s': "broadcast_full env (se_now env (ws_ticks s)) ?s = Some (snap, s')" "server_inv m s'"
    using broadcast_full_ok [OF env] by metis
  then have "clear env s = Some (snap, s')" by (simp add: clear_def server_now_def)
  with s'(2) that show thesis by blast
qed

lemma snapshot_now_ok:
  assumes env: "server_env_ok env" and inv: "server_inv m s"
  obtains snap s' where "snapshot_now env s = Some (snap, s')" and "server_inv m s'" and "snap_ok snap"
proof -
  let ?s = "s\<lparr>ws_ticks := Suc (ws_ticks s)\<rparr>"
  have s: "server_inv m ?s" using inv by (simp add: server_inv_def)
  then obtain snap s' where s': "snapshotLocked env (se_now env (ws_ticks s)) ?s = Some (snap, s')" "snap_ok snap" "quiet ?s s'"
    using snapshotLocked_ok [OF env] by metis
  then have "snapshot_now env s = Some (snap, s')" by (simp add: snapshot_now_def server_now_def)
  with s' quiet_inv [OF s'(3) s] that show thesis by blast
qed

text \<open>The new channel holds one snapshot.\<close>

lemma subscribe_ok:
  assumes env: "server_env_ok env" and inv: "server_inv m s"
  obtains ch s' snap where "subscribe env s = Some (ch, s')" and "server_inv m s'" and "ch \<notin> ws_subscribers s"
    and "ws_subscribers s' = insert ch (ws_subscribers s)"
    and "ws_chans s' = (ws_chans s)(ch \<mapsto> \<lparr>sc_buffered = [snap], sc_closed = False\<rparr>)"
    and "snap_ok snap" and "PatchHTML snap = []"
proof -
  let ?ch = "ws_next s"
  let ?s = "s\<lparr>ws_next := Suc ?ch, ws_chans := (ws_chans s)(?ch \<mapsto> \<lparr>sc_buffered = [], sc_closed = False\<rparr>),
               ws_subscribers := insert ?ch (ws_subscribers s), ws_ticks := Suc (ws_ticks s)\<rparr>"
  have fresh: "?ch \<notin> ws_subscribers s"
    using server_invD(6,9) [OF inv] by blast
  have "q < ws_next ?s \<and> length (sc_buffered c) \<le> snapshot_buffer \<and> (\<forall>x \<in> set (sc_buffered c). snap_ok x)"
    if "ws_chans ?s q = Some c" for q c
  proof (cases "q = ?ch")
    case False
    with that have "ws_chans s q = Some c" by simp
    from server_invD(6-8) [OF inv this] show ?thesis by simp
  qed (use that in auto)
  moreover have "\<exists>c. ws_chans ?s q = Some c \<and> \<not> sc_closed c" if "q \<in> ws_subscribers ?s" for q
    using that server_invD(9) [OF inv, of q] by (cases "q = ?ch") simp_all
  ultimately have s: "server_inv m ?s"
    using server_invD(1-5,10) [OF inv] by (simp add: server_inv_def)
  then obtain snap s1 where s1: "snapshotLocked env (se_now env (ws_ticks s)) ?s = Some (snap, s1)" "snap_ok snap" "quiet ?s s1"
      "PatchHTML snap = []"
    using snapshotLocked_ok [OF env] by metis
  note reads = quiet_reads [OF s1(3)]
  let ?c = "\<lparr>sc_buffered = [snap], sc_closed = False\<rparr>"
  let ?s' = "s1\<lparr>ws_chans := (ws_chans s1)(?ch \<mapsto> ?c)\<rparr>"
  have "offer_snapshot ?ch snap s1 = Some ?s'"
    using reads by (simp add: offer_snapshot_def snapshot_buffer_def)
  with s1(1) have sub: "subscribe env s = Some (?ch, ?s')"
    by (simp add: subscribe_def server_now_def Let_def)
  have "server_inv m ?s'"
    using quiet_inv [OF s1(3) s] s1(2) reads(7) unfolding server_inv_def by (auto simp: snapshot_buffer_def)
  from that [OF sub this fresh] reads s1(2,4) show thesis by simp
qed

lemma unsubscribe_ok:
  assumes inv: "server_inv m s"
  obtains s' where "unsubscribe ch s = Some s'" and "server_inv m s'" and "ch \<notin> ws_subscribers s'"
proof (cases "ch \<in> ws_subscribers s")
  case True
  then obtain c where c: "ws_chans s ch = Some c" "\<not> sc_closed c" using server_invD(9) [OF inv] by blast
  let ?s = "s\<lparr>ws_subscribers := ws_subscribers s - {ch}, ws_chans := (ws_chans s)(ch \<mapsto> c\<lparr>sc_closed := True\<rparr>)\<rparr>"
  have "unsubscribe ch s = Some ?s" using True c by (simp add: unsubscribe_def)
  moreover have "server_inv m ?s"
    using inv c(1) unfolding server_inv_def by auto
  ultimately show thesis by (rule that) simp
next
  case False
  then have "unsubscribe ch s = Some s" by (simp add: unsubscribe_def)
  with inv False that show thesis by blast
qed


section \<open>Sequences of operations\<close>

text \<open>The operations that the goroutine of \<open>start\<close>, the handlers and the readers of the streams call.\<close>

datatype server_op =
    RecordOp "sap_record option"
  | ConnectionOp ConnectionState
  | PauseOp
  | ClearOp
  | SnapshotOp
  | SubscribeOp
  | UnsubscribeOp addr
  | ReceiveOp addr

text \<open>The reader of a stream takes the oldest snapshot.\<close>

definition receive_snapshot :: "addr \<Rightarrow> web_server \<Rightarrow> web_server" where
  "receive_snapshot ch s = (case ws_chans s ch of
     None \<Rightarrow> s
   | Some c \<Rightarrow> s\<lparr>ws_chans := (ws_chans s)(ch \<mapsto> c\<lparr>sc_buffered := tl (sc_buffered c)\<rparr>)\<rparr>)"

fun server_step :: "server_env \<Rightarrow> web_server \<Rightarrow> server_op \<Rightarrow> web_server option" where
  "server_step env s (RecordOp r) = applyRecord env r s"
| "server_step env s (ConnectionOp conn) = setConnectionState env conn s"
| "server_step env s PauseOp = map_option snd (togglePaused env s)"
| "server_step env s ClearOp = map_option snd (clear env s)"
| "server_step env s SnapshotOp = map_option snd (snapshot_now env s)"
| "server_step env s SubscribeOp = map_option snd (subscribe env s)"
| "server_step env s (UnsubscribeOp ch) = unsubscribe ch s"
| "server_step env s (ReceiveOp ch) = Some (receive_snapshot ch s)"

lemma receive_snapshot_inv:
  assumes "server_inv m s"
  shows "server_inv m (receive_snapshot ch s)"
proof (cases "ws_chans s ch")
  case (Some c)
  have "set (tl (sc_buffered c)) \<subseteq> set (sc_buffered c)"
    by (cases "sc_buffered c") auto
  with Some assms show ?thesis
    unfolding server_inv_def receive_snapshot_def by (auto split: if_splits intro: diff_le_self le_trans)
qed (use assms in \<open>simp add: receive_snapshot_def\<close>)

definition serving :: "int \<Rightarrow> server_env \<times> web_server \<Rightarrow> bool" where
  "serving m es \<longleftrightarrow> server_env_ok (fst es) \<and> server_inv m (snd es)"

definition serving_step :: "server_env \<times> web_server \<Rightarrow> server_op \<Rightarrow> (server_env \<times> web_server) option" where
  "serving_step es op = map_option (Pair (fst es)) (server_step (fst es) (snd es) op)"

lemma server_step_ok:
  assumes env: "server_env_ok env" and inv: "server_inv m s"
  shows "\<exists>s'. server_step env s op = Some s' \<and> server_inv m s'"
proof (cases op)
  case (RecordOp r)
  then show ?thesis using applyRecord_ok [OF env inv] by (metis server_step.simps(1))
next
  case (ConnectionOp conn)
  then show ?thesis using setConnectionState_ok [OF env inv] by (metis server_step.simps(2))
next
  case PauseOp
  obtain snap s' where "togglePaused env s = Some (snap, s')" "server_inv m s'"
    using togglePaused_ok [OF env inv] by metis
  with PauseOp show ?thesis by simp
next
  case ClearOp
  obtain snap s' where "clear env s = Some (snap, s')" "server_inv m s'"
    using clear_ok [OF env inv] by metis
  with ClearOp show ?thesis by simp
next
  case SnapshotOp
  obtain snap s' where "snapshot_now env s = Some (snap, s')" "server_inv m s'"
    using snapshot_now_ok [OF env inv] by metis
  with SnapshotOp show ?thesis by simp
next
  case SubscribeOp
  obtain ch s' where "subscribe env s = Some (ch, s')" "server_inv m s'"
    using subscribe_ok [OF env inv] by metis
  with SubscribeOp show ?thesis by simp
next
  case (UnsubscribeOp ch)
  then show ?thesis using unsubscribe_ok [OF inv, of ch] by (metis server_step.simps(7))
next
  case (ReceiveOp ch)
  then show ?thesis using receive_snapshot_inv [OF inv] by simp
qed

interpretation web_serving: total_steps "serving m" serving_step for m
proof
  fix es op
  assume "serving m es"
  then show "\<exists>es'. serving_step es op = Some es' \<and> serving m es'"
    using server_step_ok [of "fst es" m "snd es" op] by (auto simp: serving_def serving_step_def)
qed

lemma serving_steps: "run_steps serving_step (env, s) ops = map_option (Pair env) (run_steps (server_step env) s ops)"
  by (induction ops arbitrary: s) (auto simp: serving_step_def split: option.split)

lemma newServer_inv: "server_inv (if n \<le> 0 then 50 else n) (newServer n opts)"
  by (auto simp: server_inv_def newServer_def store_ok_new Let_def) (simp_all add: NewStoreWithOptions_def)

lemma server_runs:
  assumes "server_env_ok env"
  shows "\<exists>s'. run_steps (server_step env) (newServer n opts) ops = Some s' \<and> server_inv (if n \<le> 0 then 50 else n) s'"
  using web_serving.run_total [of "if n \<le> 0 then 50 else n" "(env, newServer n opts)" ops] assms newServer_inv
  by (auto simp: serving_def serving_steps)

end
