(* ===== verification/Web_Props.thy ===== *)
theory Web_Props
  imports Web_Server_Props
begin

text \<open>
  What the web viewer promises: its server never fails, what a subscriber finds in its buffer,
  what a pause does, and how the patches it sends relate to what a record changed.
\<close>

section \<open>The server\<close>

text \<open>An environment that keeps the laws, to apply the properties to.\<close>

definition ref_env :: server_env where
  "ref_env = \<lparr>se_web = ref_web, se_rt = ref_runtime, se_now = (\<lambda>k. 10 + int k), se_range = (\<lambda>k A. sorted_list_of_set A)\<rparr>"

lemma ref_env_ok [simp]: "server_env_ok ref_env"
  by (simp add: server_env_ok_def ref_env_def enumerates_def)

text \<open>C26: No sequence of records, connection changes, requests, new and leaving subscribers and
  reads of the streams makes an operation of the server panic or loop, whatever the clock and
  the iteration order over the subscribers. At every point the store holds at most the
  configured number of roots, every subscribed channel is open, none buffers more than 8
  snapshots, and each buffered snapshot consists of well-formed fragments.\<close>

theorem server_never_fails:
  assumes "server_env_ok env"
  shows "\<exists>s. run_steps (server_step env) (newServer n opts) ops = Some s
    \<and> int (length (Roots (ws_store s))) \<le> (if n \<le> 0 then 50 else n)
    \<and> (\<forall>ch \<in> ws_subscribers s. \<exists>c. ws_chans s ch = Some c \<and> \<not> sc_closed c)
    \<and> (\<forall>ch c. ws_chans s ch = Some c \<longrightarrow> length (sc_buffered c) \<le> 8 \<and> (\<forall>snap \<in> set (sc_buffered c). snap_ok snap))"
proof -
  obtain s where s: "run_steps (server_step env) (newServer n opts) ops = Some s" "server_inv (if n \<le> 0 then 50 else n) s"
    using server_runs [OF assms] by blast
  show ?thesis
    using s(1) server_invD(4,10) [OF s(2)] server_invD(7-9) [OF s(2)] by (auto simp: Roots_def snapshot_buffer_def)
qed

theorem server_never_fails_witness:
  "\<exists>s. run_steps (server_step ref_env) (newServer 1 \<lparr>AllowUnknownParents = False\<rparr>)
       [SubscribeOp, RecordOp (start_record ''a'' [] 1), RecordOp (start_record ''b'' ''a'' 2), RecordOp (end_record ''b'' 3),
        ConnectionOp (connection StateRetrying 1), ReceiveOp 1, PauseOp, RecordOp (start_record ''c'' [] 4), ClearOp,
        UnsubscribeOp 1] = Some s
     \<and> length (Roots (ws_store s)) \<le> 1"
  using server_never_fails [OF ref_env_ok, of 1 "\<lparr>AllowUnknownParents = False\<rparr>"
      "[SubscribeOp, RecordOp (start_record ''a'' [] 1), RecordOp (start_record ''b'' ''a'' 2), RecordOp (end_record ''b'' 3),
        ConnectionOp (connection StateRetrying 1), ReceiveOp 1, PauseOp, RecordOp (start_record ''c'' [] 4), ClearOp,
        UnsubscribeOp 1]"] by auto

section \<open>Buffers\<close>

text \<open>The last \<open>n\<close> elements.\<close>

definition latest :: "nat \<Rightarrow> 'a list \<Rightarrow> 'a list" where
  "latest n xs = drop (length xs - n) xs"

lemma latest_short: "length xs \<le> n \<Longrightarrow> latest n xs = xs"
  by (simp add: latest_def)

lemma latest_snoc: "0 < n \<Longrightarrow> latest n (latest n xs @ [x]) = latest n (xs @ [x])"
  by (cases "n \<le> length xs") (auto simp: latest_def Suc_diff_le)

lemma latest_append: "0 < n \<Longrightarrow> latest n (latest n xs @ ys) = latest n (xs @ ys)"
proof (induction ys rule: rev_induct)
  case (snoc y ys)
  then show ?case by (metis append.assoc latest_snoc)
qed (simp add: latest_def)

lemma delivered_latest:
  "length (sc_buffered c) \<le> snapshot_buffer \<Longrightarrow> sc_buffered (delivered snap c) = latest 8 (sc_buffered c @ [snap])"
  by (auto simp: delivered_def latest_def snapshot_buffer_def drop_Suc)

lemma broadcasts_latest:
  assumes "server_env_ok env" and "server_inv m s" and "\<forall>snap \<in> set snaps. snap_ok snap"
  shows "\<exists>s'. run_steps (\<lambda>s snap. map_option snd (broadcastLocked env snap s)) s snaps = Some s' \<and> server_inv m s' \<and> frame s s'
    \<and> (\<forall>ch c. ws_chans s ch = Some c \<longrightarrow> (\<exists>c'. ws_chans s' ch = Some c'
          \<and> sc_buffered c' = (if ch \<in> ws_subscribers s then latest 8 (sc_buffered c @ snaps) else sc_buffered c)))"
  using assms(2,3)
proof (induction snaps arbitrary: s)
  case Nil
  have "latest 8 (sc_buffered c) = sc_buffered c" if "ws_chans s ch = Some c" for ch c
    using server_invD(7) [OF Nil(1) that] by (simp add: latest_short snapshot_buffer_def)
  with Nil show ?case by (simp add: frame_def)
next
  case (Cons snap snaps)
  obtain s1 where s1: "broadcastLocked env snap s = Some (snap, s1)" "server_inv m s1" "spread snap s s1"
    using broadcast_spread [OF assms(1) Cons.prems(1) quiet_refl [OF Cons.prems(1)], of snap] Cons.prems(2) by auto
  obtain s2 where s2: "run_steps (\<lambda>s snap. map_option snd (broadcastLocked env snap s)) s1 snaps = Some s2" "server_inv m s2"
      "frame s1 s2" and last: "\<forall>ch c. ws_chans s1 ch = Some c \<longrightarrow> (\<exists>c'. ws_chans s2 ch = Some c'
          \<and> sc_buffered c' = (if ch \<in> ws_subscribers s1 then latest 8 (sc_buffered c @ snaps) else sc_buffered c))"
    using Cons.IH [OF s1(2)] Cons.prems(2) by auto
  have frames: "frame s s1" "frame s s2"
    using s1(3) s2(3) by (simp_all add: spread_def frame_def)
  have "\<exists>c'. ws_chans s2 ch = Some c'
      \<and> sc_buffered c' = (if ch \<in> ws_subscribers s then latest 8 (sc_buffered c @ snap # snaps) else sc_buffered c)"
    if c: "ws_chans s ch = Some c" for ch c
  proof (cases "ch \<in> ws_subscribers s")
    case True
    then have "ws_chans s1 ch = Some (delivered snap c)"
      using s1(3) c by (simp add: spread_def broadcast_to_def)
    moreover have "sc_buffered (delivered snap c) = latest 8 (sc_buffered c @ [snap])"
      using server_invD(7) [OF Cons.prems(1) c] by (rule delivered_latest)
    ultimately show ?thesis
      using last True frames(1) latest_append [of 8 "sc_buffered c @ [snap]" snaps] by (fastforce simp: frame_def)
  next
    case False
    then have "ws_chans s1 ch = Some c"
      using s1(3) c by (simp add: spread_def broadcast_to_def)
    from last [rule_format, OF this] False frames(1) show ?thesis by (simp add: frame_def)
  qed
  with s1(1) s2(1,2) frames(2) show ?case by simp
qed

text \<open>C36: A subscriber that does not read keeps the latest 8 of the snapshots broadcast to it, in
  order; the older ones are gone. Channels that are not subscribed are left alone, and so
  are the store, the connection, the pause and the set of subscribers.\<close>

theorem broadcast_keeps_latest:
  assumes "server_env_ok env" and "server_inv m s" and "\<forall>snap \<in> set snaps. snap_ok snap"
  shows "\<exists>s'. run_steps (\<lambda>s snap. map_option snd (broadcastLocked env snap s)) s snaps = Some s' \<and> server_inv m s' \<and> frame s s'
    \<and> (\<forall>ch c. ws_chans s ch = Some c \<longrightarrow> (\<exists>c'. ws_chans s' ch = Some c'
          \<and> sc_buffered c' = (if ch \<in> ws_subscribers s then drop (length (sc_buffered c @ snaps) - 8) (sc_buffered c @ snaps)
                                else sc_buffered c)))"
  using broadcasts_latest [OF assms] unfolding latest_def .

text \<open>A server with one subscriber.\<close>

definition one_subscriber :: "web_server" where
  "one_subscriber = (newServer 0 \<lparr>AllowUnknownParents = False\<rparr>)\<lparr>ws_subscribers := {1},
     ws_chans := [1 \<mapsto> \<lparr>sc_buffered = [], sc_closed = False\<rparr>], ws_next := 2\<rparr>"

lemma one_subscriber_inv: "server_inv 50 one_subscriber"
  using newServer_inv [of 0 "\<lparr>AllowUnknownParents = False\<rparr>"]
  by (auto simp: one_subscriber_def server_inv_def newServer_def)

definition patch_note :: "string \<Rightarrow> snapshot" where
  "patch_note txt = \<lparr>RootsHTML = [], PatchHTML = txt, StatusHTML = []\<rparr>"

theorem broadcast_keeps_latest_witness:
  "\<exists>s c. run_steps (\<lambda>s snap. map_option snd (broadcastLocked ref_env snap s)) one_subscriber
       (map patch_note [''1'', ''2'', ''3'', ''4'', ''5'', ''6'', ''7'', ''8'', ''9'']) = Some s
     \<and> ws_chans s 1 = Some c \<and> map PatchHTML (sc_buffered c) = [''2'', ''3'', ''4'', ''5'', ''6'', ''7'', ''8'', ''9'']"
proof -
  let ?snaps = "map patch_note [''1'', ''2'', ''3'', ''4'', ''5'', ''6'', ''7'', ''8'', ''9'']"
  have "\<forall>snap \<in> set ?snaps. snap_ok snap"
    by (simp add: patch_note_def snap_ok_def fragment_def)
  then obtain s where s: "run_steps (\<lambda>s snap. map_option snd (broadcastLocked ref_env snap s)) one_subscriber ?snaps = Some s"
      "\<forall>ch c. ws_chans one_subscriber ch = Some c \<longrightarrow> (\<exists>c'. ws_chans s ch = Some c'
          \<and> sc_buffered c' = (if ch \<in> ws_subscribers one_subscriber then drop (length (sc_buffered c @ ?snaps) - 8) (sc_buffered c @ ?snaps)
                                else sc_buffered c))"
    using broadcast_keeps_latest [OF ref_env_ok one_subscriber_inv] by blast
  have "ws_chans one_subscriber 1 = Some \<lparr>sc_buffered = [], sc_closed = False\<rparr>" and "1 \<in> ws_subscribers one_subscriber"
    by (simp_all add: one_subscriber_def)
  with s(2) [rule_format, of 1] obtain c where "ws_chans s 1 = Some c" "sc_buffered c = drop 1 ?snaps"
    by auto
  with s(1) show ?thesis by (simp add: patch_note_def)
qed

section \<open>Pausing\<close>

lemma delivered_nonempty: "sc_buffered (delivered snap c) \<noteq> []"
  by (simp add: delivered_def)

text \<open>What a full snapshot shows: the roots and the status, rendered from the state.\<close>

definition shows_state :: "server_env \<Rightarrow> go_time \<Rightarrow> web_server \<Rightarrow> snapshot \<Rightarrow> bool" where
  "shows_state env now s snap \<longleftrightarrow> PatchHTML snap = [] \<and> (\<exists>cache1 cache2.
      renderRoots (se_web env) (walk_fuel (ws_store s)) (heap (ws_store s)) (Roots (ws_store s)) now
        (StaleOpenSpanIDs (ws_store s)) (ws_cache s) = Some (RootsHTML snap, cache1)
    \<and> renderStatus (se_web env) (\<lambda>k. se_now env (ws_ticks s + k)) (length (Roots (ws_store s)))
        (ws_conn s) (ws_paused s) cache1 = Some (StatusHTML snap, cache2))"

lemma snapshotLocked_shows: "snapshotLocked env now s = Some (snap, s') \<Longrightarrow> shows_state env now s snap"
  by (auto simp: snapshotLocked_def status_html_def render_with_def shows_state_def split: option.splits)

lemma broadcast_full_shows: "broadcast_full env now s = Some (snap, s') \<Longrightarrow> shows_state env now s snap"
  by (auto simp: broadcast_full_def broadcastLocked_def dest: snapshotLocked_shows split: option.splits)

lemma togglePaused_shows:
  assumes "togglePaused env s = Some (snap, s')" and "\<not> ws_paused s" and "ClearOpenSpans (ws_store s) = Some st"
  shows "shows_state env (se_now env (ws_ticks s)) (s\<lparr>ws_paused := True, ws_store := st, ws_ticks := Suc (ws_ticks s)\<rparr>) snap"
  using assms by (simp add: togglePaused_def server_now_def broadcast_full_shows)

text \<open>C37: Pausing prunes the open spans (\<open>ClearOpenSpans\<close>, so closed spans under closed ones stay)
  and sends each subscriber a snapshot of what remains: all roots of the pruned store and the
  status of a paused server. Until it resumes no record changes anything, the subscribers'
  buffers included.\<close>

theorem pause_freezes:
  assumes "server_env_ok env" and "server_inv m s" and "\<not> ws_paused s"
  shows "\<exists>st snap s' cache1 cache2. togglePaused env s = Some (snap, s')
    \<and> ClearOpenSpans (ws_store s) = Some st \<and> ws_store s' = st \<and> ws_paused s' \<and> HasOpenSpans st = Some False
    \<and> renderRoots (se_web env) (walk_fuel st) (heap st) (Roots st) (se_now env (ws_ticks s)) (StaleOpenSpanIDs st) (ws_cache s)
        = Some (RootsHTML snap, cache1)
    \<and> renderStatus (se_web env) (\<lambda>k. se_now env (Suc (ws_ticks s) + k)) (length (Roots st)) (ws_conn s) True cache1
        = Some (StatusHTML snap, cache2)
    \<and> PatchHTML snap = []
    \<and> (\<forall>ch \<in> ws_subscribers s. \<exists>c. ws_chans s' ch = Some c \<and> sc_buffered c \<noteq> [] \<and> last (sc_buffered c) = snap)
    \<and> (\<forall>records. run_steps (\<lambda>s r. applyRecord env r s) s' records = Some s')"
proof -
  obtain snap s' s1 where p: "togglePaused env s = Some (snap, s')" "spread snap s1 s'" "ws_paused s1 = (\<not> ws_paused s)"
      "ws_chans s1 = ws_chans s" "ws_subscribers s1 = ws_subscribers s"
      "if ws_paused s then ws_store s1 = ws_store s else ClearOpenSpans (ws_store s) = Some (ws_store s1)"
    using togglePaused_ok [OF assms(1,2)] by metis
  have store: "ClearOpenSpans (ws_store s) = Some (ws_store s')" and paused: "ws_paused s'"
    using p(2,3,6) assms(3) by (auto simp: spread_def frame_def)
  obtain a where a: "refines (ws_store s) a"
    using server_invD(1) [OF assms(2)] by (auto simp: store_ok_def)
  then have "refines (ws_store s') (spec_clear_open a)"
    using ClearOpenSpans_refines store by fastforce
  moreover have "\<not> spec_open (spec_clear_open a)"
    using prune_tree_closed by (fastforce simp: spec_open_def spec_clear_open_def with_forest_def)
  ultimately have closed: "HasOpenSpans (ws_store s') = Some False"
    using HasOpenSpans_refines by simp
  have still: "run_steps (\<lambda>s r. applyRecord env r s) s' records = Some s'" for records
    by (induction records) (simp_all add: applyRecord_def paused)
  have sent: "\<exists>c. ws_chans s' ch = Some c \<and> sc_buffered c \<noteq> [] \<and> last (sc_buffered c) = snap" if sub: "ch \<in> ws_subscribers s" for ch
    using server_invD(9) [OF assms(2) sub] p(2,4,5) sub
    by (auto simp: spread_def broadcast_to_def intro!: delivered_nonempty)
  from togglePaused_shows [OF p(1) assms(3) store] p(1) store paused closed still sent show ?thesis
    unfolding shows_state_def by auto
qed

theorem pause_freezes_witness:
  "\<exists>st snap s c cache. togglePaused ref_env one_subscriber = Some (snap, s) \<and> ws_chans s 1 = Some c \<and> last (sc_buffered c) = snap
     \<and> ClearOpenSpans (ws_store one_subscriber) = Some st
     \<and> renderRoots (se_web ref_env) (walk_fuel st) (heap st) (Roots st) (se_now ref_env (ws_ticks one_subscriber))
         (StaleOpenSpanIDs st) (ws_cache one_subscriber) = Some (RootsHTML snap, cache)
     \<and> run_steps (\<lambda>s r. applyRecord ref_env r s) s [start_record ''a'' [] 1, end_record ''a'' 2] = Some s"
proof -
  have "\<not> ws_paused one_subscriber" and "1 \<in> ws_subscribers one_subscriber"
    by (simp_all add: one_subscriber_def newServer_def)
  with pause_freezes [OF ref_env_ok one_subscriber_inv] show ?thesis by metis
qed

end
