(* ===== verification/Web_Patches.thy ===== *)
theory Web_Patches
  imports Web_Props
begin

text \<open>
  The patches of the web viewer against what a record changes in the store: which sections of
  which span render differently, and what the server sends.
\<close>

section \<open>What a record changes\<close>

text \<open>A record about a span that is there replaces that span's object, or nothing.\<close>

definition changes :: "store \<Rightarrow> store \<Rightarrow> addr \<Rightarrow> (span_state \<Rightarrow> span_state) \<Rightarrow> bool" where
  "changes st st' p f \<longleftrightarrow> (\<exists>sp. heap st p = Some sp \<and> st' = (if Ended sp then st else st\<lparr>heap := (heap st)(p \<mapsto> f sp)\<rparr>))"

lemma Apply_changes:
  assumes "byID st [] = None" and "byID st (recordSpanID (Some r)) = Some p" and "Apply rt st (Some r) = Some st'"
  shows "Record_WhichKind (Some r) = Record_SpanUpdated_case \<Longrightarrow> \<exists>xs. changes st st' p (\<lambda>sp. sp\<lparr>Attributes := xs sp\<rparr>)"
    and "Record_WhichKind (Some r) = Record_SpanEnded_case
      \<Longrightarrow> \<exists>at t e. changes st st' p (\<lambda>sp. sp\<lparr>Ended := True, EndedAt := at, TerminalType := t, ErrorMessage := e\<rparr>)"
    and "Record_WhichKind (Some r) = Record_SpanEvent_case
      \<Longrightarrow> \<exists>e. ev_At e = timeValue rt (Some (SpanEvent_GetEventAt (Record_GetSpanEvent (Some r))))
        \<and> changes st st' p (\<lambda>sp. sp\<lparr>Events := Events sp @ [Some e]\<rparr>)"
    and "Record_WhichKind (Some r) = Record_Kind_not_set_case \<Longrightarrow> st' = st"
proof -
  note defs = Apply_def recordSpanID_def changes_def assign_def
  have none: "SpanUpdated_GetSpanId None = []" "SpanEnded_GetSpanId None = []" "SpanEvent_GetSpanId None = []"
    by (simp_all add: SpanUpdated_GetSpanId_def SpanEnded_GetSpanId_def SpanEvent_GetSpanId_def)
  show "\<exists>xs. changes st st' p (\<lambda>sp. sp\<lparr>Attributes := xs sp\<rparr>)" if "Record_WhichKind (Some r) = Record_SpanUpdated_case"
  proof -
    let ?xs = "\<lambda>sp. update_attrs rt (SpanUpdated_GetAttributes (Record_GetSpanUpdated (Some r))) (Attributes sp)"
    have "changes st st' p (\<lambda>sp. sp\<lparr>Attributes := ?xs sp\<rparr>)"
      using assms that none by (auto simp: defs applyUpdated_def split: if_splits option.splits)
    then show ?thesis by (intro exI [of _ ?xs])
  qed
  show "\<exists>at t e. changes st st' p (\<lambda>sp. sp\<lparr>Ended := True, EndedAt := at, TerminalType := t, ErrorMessage := e\<rparr>)"
    if "Record_WhichKind (Some r) = Record_SpanEnded_case"
  proof -
    let ?e = "Record_GetSpanEnded (Some r)"
    have "changes st st' p (\<lambda>sp. sp\<lparr>Ended := True, EndedAt := timeValue rt (Some (SpanEnded_GetEndedAt ?e)),
        TerminalType := SpanEnded_GetTerminalType rt ?e, ErrorMessage := SpanEnded_GetErrorMessage ?e\<rparr>)"
      using assms that none by (auto simp: defs applyEnded_def split: if_splits option.splits)
    then show ?thesis by blast
  qed
  show "\<exists>e. ev_At e = timeValue rt (Some (SpanEvent_GetEventAt (Record_GetSpanEvent (Some r))))
      \<and> changes st st' p (\<lambda>sp. sp\<lparr>Events := Events sp @ [Some e]\<rparr>)" if "Record_WhichKind (Some r) = Record_SpanEvent_case"
  proof (intro exI conjI)
    let ?v = "Record_GetSpanEvent (Some r)"
    let ?e = "\<lparr>ev_Name = SpanEvent_GetName ?v, ev_At = timeValue rt (Some (SpanEvent_GetEventAt ?v)),
        ev_Attributes = state_cloneAttributes rt (SpanEvent_GetAttributes ?v), ev_Severity = SpanEvent_GetSeverity rt ?v\<rparr>"
    show "ev_At ?e = timeValue rt (Some (SpanEvent_GetEventAt ?v))" by simp
    show "changes st st' p (\<lambda>sp. sp\<lparr>Events := Events sp @ [Some ?e]\<rparr>)"
      using assms that none by (auto simp: defs applyEvent_def split: if_splits option.splits)
  qed
  show "Record_WhichKind (Some r) = Record_Kind_not_set_case \<Longrightarrow> st' = st"
    using assms(3) by (simp add: Apply_def)
qed

lemma changes_reads:
  assumes "changes st st' p f" and "\<And>sp. SpanID (f sp) = SpanID sp \<and> Children (f sp) = Children sp"
  shows "roots st' = roots st" "byID st' = byID st" "staleOpenAt st' = staleOpenAt st" "walk_fuel st' = walk_fuel st"
    "q \<noteq> p \<Longrightarrow> heap st' q = heap st q" "map_option SpanID (heap st' q) = map_option SpanID (heap st q)"
    "map_option Children (heap st' q) = map_option Children (heap st q)"
  using assms by (auto simp: changes_def walk_fuel_def)

text \<open>What the sections of a span read of its object.\<close>

lemma timeline_children_cong:
  assumes "\<And>c. rel_option (\<lambda>x y. StartedAt x = StartedAt y) (h' c) (h c)"
  shows "timeline_children h' cs items = timeline_children h cs items"
proof (induction cs arbitrary: items)
  case (Cons c cs)
  from assms [of c] Cons show ?case by (cases rule: option.rel_cases) simp_all
qed simp

abbreviation same_key :: "span_state \<Rightarrow> span_state \<Rightarrow> bool" where
  "same_key x y \<equiv> SpanID x = SpanID y \<and> TraceID x = TraceID y \<and> Name x = Name y \<and> StartedAt x = StartedAt y"

lemma spanCardKey_cong: "rel_option same_key s' s \<Longrightarrow> spanCardKey s' = spanCardKey s"
  by (erule option.rel_cases) (simp_all add: spanCardKey_def)

lemma SpanTimeline_cong:
  assumes "\<And>c. rel_option (\<lambda>x y. StartedAt x = StartedAt y) (h' c) (h c)"
    and q: "rel_option (\<lambda>x y. same_key x y \<and> Events x = Events y \<and> Children x = Children y) (h' q) (h q)"
  shows "SpanTimeline E inner h' q d now marks oob = SpanTimeline E inner h q d now marks oob"
proof -
  have items: "TimelineItems h' q = TimelineItems h q"
    using q by (cases rule: option.rel_cases) (simp_all add: TimelineItems_def timeline_children_cong [OF assms(1)])
  have "rel_option same_key (h' q) (h q)"
    by (rule option.rel_mono_strong [OF q]) simp
  then have key: "spanCardKey (h' q) = spanCardKey (h q)" by (rule spanCardKey_cong)
  have ids: "timelineListDOMID (h' q) = timelineListDOMID (h q)" "spanTimelineDOMID (h' q) = spanTimelineDOMID (h q)"
    by (simp_all add: timelineListDOMID_def spanTimelineDOMID_def key)
  have offset: "timelineOffset (h' q) item = timelineOffset (h q) item" for item
    using q by (cases rule: option.rel_cases) (simp_all add: timelineOffset_def)
  have event: "eventCardKey (h' q) item = eventCardKey (h q) item" for item
    using q by (cases rule: option.rel_cases) (simp_all add: eventCardKey_def)
  have item: "TimelineItem_templ E inner item (h' q) d = TimelineItem_templ E inner item (h q) d" for item
    unfolding TimelineItem_templ_def offset event ..
  show ?thesis
    unfolding SpanTimeline_def SpanTimelineContents_def Let_def items ids item ..
qed

lemma SpanAttributes_cong:
  assumes "rel_option (\<lambda>x y. same_key x y \<and> Attributes x = Attributes y) s' s"
  shows "SpanAttributes E s' oob = SpanAttributes E s oob"
proof -
  have "rel_option same_key s' s"
    by (rule option.rel_mono_strong [OF assms]) simp
  then have key: "spanCardKey s' = spanCardKey s" by (rule spanCardKey_cong)
  have contents: "SpanAttributesContents E s' = SpanAttributesContents E s"
    using assms
  proof (cases rule: option.rel_cases)
    case (Some x y)
    then have "Attributes x = Attributes y" by simp
    then show ?thesis
      unfolding SpanAttributesContents_def Some(1,2) deref_def option.case key [unfolded Some(1,2)] by (simp only:)
  qed simp
  show ?thesis unfolding SpanAttributes_def spanAttributesDOMID_def key contents ..
qed

lemma SpanSummary_cong:
  assumes "rel_option (\<lambda>x y. same_key x y \<and> Ended x = Ended y \<and> EndedAt x = EndedAt y \<and> ErrorMessage x = ErrorMessage y) s' s"
  shows "SpanSummary E s' now marks oob = SpanSummary E s now marks oob"
proof -
  have "rel_option same_key s' s"
    by (rule option.rel_mono_strong [OF assms]) simp
  then have key: "spanCardKey s' = spanCardKey s" by (rule spanCardKey_cong)
  have contents: "SpanSummaryContents E s' now marks = SpanSummaryContents E s now marks"
    using assms
  proof (cases rule: option.rel_cases)
    case (Some x y)
    then have eq: "TraceID x = TraceID y" "SpanID x = SpanID y" "Name x = Name y" "Ended x = Ended y" "ErrorMessage x = ErrorMessage y"
        "StartedAt x = StartedAt y" "EndedAt x = EndedAt y"
      by simp_all
    have starts: "hasTimer (Some x) = hasTimer (Some y)" "timerStartMS (Some x) = timerStartMS (Some y)"
      unfolding hasTimer_def timerStartMS_def option.case eq by (rule refl)+
    have ends: "timerEndMS (Some x) marks = timerEndMS (Some y) marks"
      unfolding timerEndMS_def option.case eq ..
    have texts: "timerXData (Some x) marks = timerXData (Some y) marks" "timingView (Some x) now marks = timingView (Some y) now marks"
      "statusText (Some x) marks = statusText (Some y) marks" "statusIcon (Some x) marks = statusIcon (Some y) marks"
      "statusToneClass T (Some x) marks = statusToneClass T (Some y) marks" for T
      unfolding timerXData_def timingView_def statusText_def statusIcon_def statusToneClass_def option.case option.sel
        starts ends eq by (rule refl)+
    show ?thesis
      unfolding SpanSummaryContents_def Some(1,2) deref_def option.case starts(1) texts eq ..
  qed simp
  show ?thesis unfolding SpanSummary_def spanSummaryDOMID_def key contents ..
qed


section \<open>What the server sends\<close>

lemma LimitRoots_enough: "0 < n \<Longrightarrow> int (length (roots st)) \<le> n \<Longrightarrow> LimitRoots st n = Some st"
  by (simp add: LimitRoots_def)

lemma sameStrings_refl [simp]: "sameStrings xs xs"
proof -
  have "same_strings_loop xs xs" by (induction xs) simp_all
  then show ?thesis by (simp add: sameStrings_def)
qed

lemma byID_empty: "store_ok st \<Longrightarrow> byID st [] = None"
  by (rule wf_FindSpan [OF store_ok_wf, of st "[]"]) (auto simp: FindSpan_def)

lemma FindSpan_found:
  assumes "store_ok st" and "byID st i = Some p"
  obtains d where "FindSpan st i = Some (Some (p, d))"
  using wf_FindSpan [OF store_ok_wf [OF assms(1)], of i] assms(2) by auto

text \<open>The patch is the rendering, put last into the buffer of every subscriber.\<close>

definition sends_patch :: "web_server \<Rightarrow> web_server \<Rightarrow> rendering \<Rightarrow> bool" where
  "sends_patch s s' r \<longleftrightarrow> (\<exists>snap cache. r (ws_cache s) = Some (PatchHTML snap, cache) \<and> RootsHTML snap = []
     \<and> (\<forall>ch \<in> ws_subscribers s. \<exists>c. ws_chans s' ch = Some c \<and> last (sc_buffered c) = snap))"

lemma applyRecord_patched:
  assumes env: "server_env_ok env" and inv: "server_inv m s" and run: "\<not> ws_paused s"
    and st: "Apply (se_rt env) (ws_store s) (Some r) = Some st" "roots st = roots (ws_store s)"
      "\<And>q. map_option SpanID (heap st q) = map_option SpanID (heap (ws_store s) q)"
    and patch: "recordPatchSnapshotLocked env (Some r) (recordSpanID (Some r)) (se_now env (ws_ticks s))
        (s\<lparr>ws_store := st, ws_ticks := Suc (ws_ticks s)\<rparr>) = patch_with env R (s\<lparr>ws_store := st, ws_ticks := Suc (ws_ticks s)\<rparr>)"
    and safe: "safe_rendering (R (ws_cache s))"
  shows "\<exists>s'. applyRecord env (Some r) s = Some s' \<and> ws_store s' = st \<and> sends_patch s s' R"
proof -
  let ?s = "s\<lparr>ws_store := st, ws_ticks := Suc (ws_ticks s)\<rparr>"
  have "store_ok st"
    using viewed_store.step_inv [OF server_invD(1) [OF inv], of "se_rt env" "OpApply (Some r)"] st(1) by simp
  then have "server_inv m (s\<lparr>ws_store := st\<rparr>)"
    using inv server_invD(4) [OF inv] st(2) by (intro with_store_inv) simp_all
  then have inv': "server_inv m ?s" by (simp add: server_inv_def)
  have limit: "LimitRoots st (ws_maxRoots s) = Some st"
    using server_invD(3,4) [OF inv] st(2) by (simp add: LimitRoots_enough)
  have "(case heap st q of None \<Rightarrow> [] | Some sp \<Rightarrow> SpanID sp) = (case heap (ws_store s) q of None \<Rightarrow> [] | Some sp \<Rightarrow> SpanID sp)" for q
    using st(3) [of q] by (auto split: option.split)
  then have ids: "rootIDsLocked ?s = rootIDsLocked s"
    by (simp add: rootIDsLocked_def Roots_def st(2))
  obtain html cache snap s1 where p: "R (ws_cache s) = Some (html, cache)" "patch_with env R ?s = Some (Some snap, s1)"
      "snap_ok snap" "RootsHTML snap = []" "PatchHTML snap = html" "quiet ?s s1"
    using patch_with_ok [OF env inv', of R] safe by auto
  obtain s2 where b: "broadcastLocked env snap s1 = Some (snap, s2)" "spread snap ?s s2"
    using broadcast_spread [OF env inv' p(6,3)] by blast
  have "applyRecord env (Some r) s = Some s2"
    using run st(1) limit ids p(2) patch b(1) by (simp add: applyRecord_def server_now_def)
  moreover have "ws_store s2 = st" using b(2) by (simp add: spread_def frame_def)
  moreover have "\<exists>c. ws_chans s2 ch = Some c \<and> last (sc_buffered c) = snap" if "ch \<in> ws_subscribers s" for ch
    using server_invD(9) [OF inv that] b(2) that by (auto simp: spread_def broadcast_to_def)
  ultimately show ?thesis
    using p(1,4,5) by (auto simp: sends_patch_def)
qed

text \<open>The span of a record that is there, before and after.\<close>

lemma tracked_change:
  assumes "store_ok st" and "byID st (recordSpanID (Some r)) = Some p" and "Apply rt st (Some r) = Some st'"
    and "changes st st' p f" and "\<And>sp. SpanID (f sp) = SpanID sp \<and> Children (f sp) = Children sp"
  obtains d where "FindSpan st' (recordSpanID (Some r)) = Some (Some (p, d))" and "renderable (walk_fuel st') (heap st') p"
proof -
  have ok: "store_ok st'"
    using viewed_store.step_inv [OF assms(1), of rt "OpApply (Some r)"] assms(3) by simp
  have id: "byID st' (recordSpanID (Some r)) = Some p"
    using changes_reads(2) [OF assms(4,5)] assms(2) by simp
  from FindSpan_found [OF ok id] wf_renderable(2) [OF store_ok_wf [OF ok] id] that show thesis by blast
qed


lemma changes_rel:
  assumes "changes st st' p f" and "\<And>x. R x x" and "\<And>x. R (f x) x"
  shows "rel_option R (heap st' q) (heap st q)"
proof -
  have refl: "rel_option R x x" for x using assms(2) by (cases x) simp_all
  from assms(1,3) refl show ?thesis by (auto simp: changes_def)
qed

text \<open>A server with a store and a subscriber to apply the properties to.\<close>

definition sample_server :: web_server where
  "sample_server = one_subscriber\<lparr>ws_store := sample_store\<rparr>"

definition update_record :: "string \<Rightarrow> sap_record option" where
  "update_record i = Some (Record_Build (empty_Record_builder\<lparr>rb_SpanUpdated := Some (SpanUpdated_Build ref_runtime
     \<lparr>upb_TraceId = Some ''t'', upb_SpanId = Some i, upb_Attributes = [Some (Int_attr ref_runtime ''k'' 1 [])]\<rparr>)\<rparr>))"

lemma sample_store_ok: "store_ok sample_store"
  using viewed_store.run_total [OF store_ok_new, of ref_runtime "\<lparr>AllowUnknownParents = False\<rparr>" sample_ops]
  by (auto simp: sample_store_def NewStore_def)

lemma sample_server_inv: "server_inv 50 sample_server"
  using with_store_inv [OF one_subscriber_inv sample_store_ok] server_invD(10) [OF one_subscriber_inv]
  by (simp add: sample_server_def sample_store_reads)

lemma sample_server_reads:
  "ws_store sample_server = sample_store" "\<not> ws_paused sample_server" "ws_ticks sample_server = 0"
  by (simp_all add: sample_server_def one_subscriber_def newServer_def)

lemma ref_env_web: "se_web ref_env = ref_web" "se_rt ref_env = ref_runtime"
  by (simp_all add: ref_env_def)

section \<open>Updates and ends\<close>

lemma change_step:
  assumes "server_inv m s" and "byID (ws_store s) (recordSpanID (Some r)) = Some p"
  obtains st where "Apply rt (ws_store s) (Some r) = Some st" and "byID (ws_store s) [] = None"
  using viewed_store.step_total [OF server_invD(1) [OF assms(1)], of rt "OpApply (Some r)"]
    byID_empty [OF server_invD(1) [OF assms(1)]] by auto

text \<open>C29: The web server answers an update of a tracked span with a patch of that span's attribute
  section, and no more is needed: in the new store the summaries and timelines of all spans
  and the attributes of all other spans render as before.\<close>

theorem update_patch_complete:
  assumes "server_env_ok env" and "server_inv m s" and "\<not> ws_paused s"
    and "byID (ws_store s) (recordSpanID (Some r)) = Some p" and "Record_WhichKind (Some r) = Record_SpanUpdated_case"
  shows "\<exists>s'. applyRecord env (Some r) s = Some s'
    \<and> sends_patch s s' (renderSpanAttributesPatch (se_web env) (heap (ws_store s')) p)
    \<and> SpanSummary E (heap (ws_store s') q) now marks oob = SpanSummary E (heap (ws_store s) q) now marks oob
    \<and> SpanTimeline E inner (heap (ws_store s')) q d now marks oob = SpanTimeline E inner (heap (ws_store s)) q d now marks oob
    \<and> (q \<noteq> p \<longrightarrow> SpanAttributes E (heap (ws_store s') q) oob = SpanAttributes E (heap (ws_store s) q) oob)"
proof -
  obtain st where st: "Apply (se_rt env) (ws_store s) (Some r) = Some st" "byID (ws_store s) [] = None"
    using change_step [OF assms(2,4)] by blast
  obtain xs where ch: "changes (ws_store s) st p (\<lambda>sp. sp\<lparr>Attributes := xs sp\<rparr>)"
    using Apply_changes(1) [OF st(2) assms(4) st(1) assms(5)] by blast
  obtain depth where found: "FindSpan st (recordSpanID (Some r)) = Some (Some (p, depth))" "renderable (walk_fuel st) (heap st) p"
    using tracked_change [OF server_invD(1) [OF assms(2)] assms(4) st(1) ch] by auto
  have L: "web_laws (se_web env)" using assms(1) by (simp add: server_env_ok_def)
  have "\<exists>s'. applyRecord env (Some r) s = Some s' \<and> ws_store s' = st
      \<and> sends_patch s s' (renderSpanAttributesPatch (se_web env) (heap st) p)"
    using changes_reads(1,6) [OF ch] renderable_alloc [OF found(2)]
    by (intro applyRecord_patched [OF assms(1-3) st(1)] safe_SpanAttributesPatch [OF L server_invD(2) [OF assms(2)]])
      (simp_all add: recordPatchSnapshotLocked_def found assms(5))
  moreover have "SpanSummary E (heap st q) now marks oob = SpanSummary E (heap (ws_store s) q) now marks oob"
    by (intro SpanSummary_cong changes_rel [OF ch]) simp_all
  moreover have "SpanTimeline E inner (heap st) q d now marks oob = SpanTimeline E inner (heap (ws_store s)) q d now marks oob"
    by (intro SpanTimeline_cong changes_rel [OF ch]) simp_all
  ultimately show ?thesis
    using changes_reads(5) [OF ch] by auto
qed

theorem update_patch_complete_witness:
  "\<exists>s. applyRecord ref_env (update_record ''b'') sample_server = Some s
     \<and> sends_patch sample_server s (renderSpanAttributesPatch ref_web (heap (ws_store s)) 2)
     \<and> SpanSummary ref_web (heap (ws_store s) 2) 9 Map.empty False = SpanSummary ref_web (heap sample_store 2) 9 Map.empty False
     \<and> SpanAttributes ref_web (heap (ws_store s) 1) False = SpanAttributes ref_web (heap sample_store 1) False"
proof -
  obtain r where r: "update_record ''b'' = Some r" by (simp add: update_record_def)
  have "byID (ws_store sample_server) (recordSpanID (Some r)) = Some 2" and "Record_WhichKind (Some r) = Record_SpanUpdated_case"
    unfolding r [symmetric] sample_server_reads(1) by code_simp+
  from update_patch_complete [OF ref_env_ok sample_server_inv sample_server_reads(2) this, of ref_web 1 9 Map.empty False]
    update_patch_complete [OF ref_env_ok sample_server_inv sample_server_reads(2) this, of ref_web 2 9 Map.empty False]
  show ?thesis
    unfolding r sample_server_reads(1) ref_env_web by fastforce
qed

text \<open>C30: The web server answers the end of a tracked span with a patch of that span's summary, and
  no more is needed: in the new store the attributes and timelines of all spans and the
  summaries of all other spans render as before.\<close>

theorem end_patch_complete:
  assumes "server_env_ok env" and "server_inv m s" and "\<not> ws_paused s"
    and "byID (ws_store s) (recordSpanID (Some r)) = Some p" and "Record_WhichKind (Some r) = Record_SpanEnded_case"
  shows "\<exists>s'. applyRecord env (Some r) s = Some s'
    \<and> sends_patch s s' (renderSpanSummaryPatch (se_web env) (heap (ws_store s')) p (se_now env (ws_ticks s))
        (StaleOpenSpanIDs (ws_store s')))
    \<and> SpanAttributes E (heap (ws_store s') q) oob = SpanAttributes E (heap (ws_store s) q) oob
    \<and> SpanTimeline E inner (heap (ws_store s')) q d now marks oob = SpanTimeline E inner (heap (ws_store s)) q d now marks oob
    \<and> (q \<noteq> p \<longrightarrow> SpanSummary E (heap (ws_store s') q) now marks oob = SpanSummary E (heap (ws_store s) q) now marks oob)"
proof -
  obtain st where st: "Apply (se_rt env) (ws_store s) (Some r) = Some st" "byID (ws_store s) [] = None"
    using change_step [OF assms(2,4)] by blast
  obtain at t e where ch: "changes (ws_store s) st p (\<lambda>sp. sp\<lparr>Ended := True, EndedAt := at, TerminalType := t, ErrorMessage := e\<rparr>)"
    using Apply_changes(2) [OF st(2) assms(4) st(1) assms(5)] by blast
  obtain depth where found: "FindSpan st (recordSpanID (Some r)) = Some (Some (p, depth))" "renderable (walk_fuel st) (heap st) p"
    using tracked_change [OF server_invD(1) [OF assms(2)] assms(4) st(1) ch] by auto
  have L: "web_laws (se_web env)" using assms(1) by (simp add: server_env_ok_def)
  have "\<exists>s'. applyRecord env (Some r) s = Some s' \<and> ws_store s' = st
      \<and> sends_patch s s' (renderSpanSummaryPatch (se_web env) (heap st) p (se_now env (ws_ticks s)) (StaleOpenSpanIDs st))"
    using changes_reads(1,6) [OF ch] renderable_alloc [OF found(2)]
    by (intro applyRecord_patched [OF assms(1-3) st(1)] safe_SpanSummaryPatch [OF L server_invD(2) [OF assms(2)]])
      (simp_all add: recordPatchSnapshotLocked_def found assms(5))
  moreover have "SpanAttributes E (heap st q) oob = SpanAttributes E (heap (ws_store s) q) oob"
    by (intro SpanAttributes_cong changes_rel [OF ch]) simp_all
  moreover have "SpanTimeline E inner (heap st) q d now marks oob = SpanTimeline E inner (heap (ws_store s)) q d now marks oob"
    by (intro SpanTimeline_cong changes_rel [OF ch]) simp_all
  ultimately show ?thesis
    using changes_reads(5) [OF ch] by auto
qed

theorem end_patch_complete_witness:
  "\<exists>s. applyRecord ref_env (end_record ''b'' 6) sample_server = Some s
     \<and> sends_patch sample_server s (renderSpanSummaryPatch ref_web (heap (ws_store s)) 2 (se_now ref_env 0) (StaleOpenSpanIDs (ws_store s)))
     \<and> SpanAttributes ref_web (heap (ws_store s) 2) False = SpanAttributes ref_web (heap sample_store 2) False"
proof -
  obtain r where r: "end_record ''b'' 6 = Some r" by (simp add: end_record_def)
  have "byID (ws_store sample_server) (recordSpanID (Some r)) = Some 2" and "Record_WhichKind (Some r) = Record_SpanEnded_case"
    unfolding r [symmetric] sample_server_reads(1) by code_simp+
  from end_patch_complete [OF ref_env_ok sample_server_inv sample_server_reads(2) this, of ref_web 2 False]
  show ?thesis
    unfolding r sample_server_reads ref_env_web by fastforce
qed

end
