(* ===== verification/Web_Append.thy ===== *)
theory Web_Append
  imports Web_Patches
begin

text \<open>
  The patch that appends an event to a timeline in the browser, against the timeline of the
  store: when they agree and when they do not.
\<close>

section \<open>A later entry sorts last\<close>

context comparator
begin

lemma SortStableFunc_greatest:
  assumes "\<And>y. y \<in> set (xs @ ys) \<Longrightarrow> cmp y x < 0"
  shows "SortStableFunc cmp (xs @ x # ys) = SortStableFunc cmp (xs @ ys) @ [x]"
proof (rule SortStableFunc_unique [symmetric])
  have members: "set (SortStableFunc cmp (xs @ ys)) = set (xs @ ys)"
    by (metis mset_SortStableFunc set_mset_mset)
  show "sorted_wrt (\<lambda>x y. cmp x y \<le> 0) (SortStableFunc cmp (xs @ ys) @ [x])"
    unfolding sorted_wrt_append members using assms SortStableFunc_sorted by (auto intro: less_imp_le)
  show "filter (\<lambda>y. cmp k y = 0) (SortStableFunc cmp (xs @ ys) @ [x]) = filter (\<lambda>y. cmp k y = 0) (xs @ x # ys)" for k
  proof (cases "cmp k x = 0")
    case True
    have "cmp k y \<noteq> 0" if "y \<in> set (xs @ ys)" for y
      using assms [OF that] True cmp_flip [of y x] cmp_flip [of k y] cmp_flip [of x k] cmp_trans [of x k y] cmp_flip [of k x] by linarith
    then have "filter (\<lambda>y. cmp k y = 0) (xs @ ys) = []" by (simp add: filter_empty_conv)
    with True show ?thesis by (simp add: SortStableFunc_stable)
  qed (simp add: SortStableFunc_stable)
qed

end

lemma SortStableFunc_map:
  assumes "\<And>x y. x \<in> set xs \<Longrightarrow> y \<in> set xs \<Longrightarrow> cmp (g x) (g y) = cmp x y"
  shows "SortStableFunc cmp (map g xs) = map g (SortStableFunc cmp xs)"
  using assms
proof (induction xs rule: rev_induct)
  case (snoc x xs)
  have "insert_stable cmp (g x) (map g ys) = map g (insert_stable cmp x ys)" if "set ys \<subseteq> set xs" for ys
    using that snoc.prems by (induction ys) auto
  moreover have "set (SortStableFunc cmp xs) = set xs"
    by (metis mset_SortStableFunc set_mset_mset)
  ultimately show ?case
    using snoc by (simp add: SortStableFunc_snoc)
qed (simp add: SortStableFunc_def)

lemma event_items_all: "None \<notin> set events \<Longrightarrow> event_items events =
    map (\<lambda>e. \<lparr>item_At = ev_At (the e), item_Index = 0, item_Event = e, item_Span = None\<rparr>) events"
proof (induction events)
  case (Cons e events)
  then show ?case by (cases e) (simp_all add: event_items_def)
qed (simp add: event_items_def)

lemma event_items_spans: "item \<in> set (event_items events) \<Longrightarrow> item_Span item = None"
  by (auto simp: event_items_def split: option.splits)

lemma child_items_spans: "item \<in> set (child_items h cs) \<Longrightarrow> item_Span item \<noteq> None"
  by (auto simp: child_items_def split: option.splits)

text \<open>Children move up by one number when an event comes before them.\<close>

definition shifted :: "timeline_item \<Rightarrow> timeline_item" where
  "shifted item = (if item_Span item = None then item else item\<lparr>item_Index := Suc (item_Index item)\<rparr>)"

lemma shifted_simps [simp]: "item_At (shifted item) = item_At item" "item_Event (shifted item) = item_Event item"
  "item_Span (shifted item) = item_Span item"
  by (simp_all add: shifted_def)

lemma shifted_events: "map shifted (number_from n (event_items events)) = number_from n (event_items events)"
proof -
  have "\<forall>x \<in> set xs. item_Span x = None \<Longrightarrow> map shifted (number_from n xs) = number_from n xs" for xs
    by (induction xs arbitrary: n) (auto simp: shifted_def)
  then show ?thesis using event_items_spans by blast
qed

lemma shifted_children: "map shifted (number_from n (child_items h cs)) = number_from (Suc n) (child_items h cs)"
proof -
  have "\<forall>x \<in> set xs. item_Span x \<noteq> None \<Longrightarrow> map shifted (number_from n xs) = number_from (Suc n) xs" for xs
    by (induction xs arbitrary: n) (auto simp: shifted_def)
  then show ?thesis using child_items_spans by blast
qed

section \<open>The timeline after an event\<close>

text \<open>The entry that the patch appends.\<close>

definition event_item :: "nat \<Rightarrow> event_state \<Rightarrow> timeline_item" where
  "event_item n e = \<lparr>item_At = ev_At e, item_Index = n, item_Event = Some e, item_Span = None\<rparr>"

lemma TimelineItems_sorted:
  "h p = Some sp \<Longrightarrow> TimelineItems h p
    = SortStableFunc timeline_cmp (number_from 0 (event_items (Events sp)) @ number_from (length (event_items (Events sp))) (child_items h (Children sp)))"
  by (simp add: TimelineItems_def timeline_base number_from_append)

lemma set_SortStableFunc [simp]: "set (SortStableFunc cmp xs) = set xs"
  by (metis mset_SortStableFunc set_mset_mset)

lemma TimelineItems_later_event:
  assumes "h p = Some sp" and "None \<notin> set (Events sp)"
    and "\<And>item. item \<in> set (TimelineItems h p) \<Longrightarrow> \<not> IsZero (item_At item) \<and> item_At item < ev_At e"
    and "\<not> IsZero (ev_At e)"
  shows "TimelineItems (h(p \<mapsto> sp\<lparr>Events := Events sp @ [Some e]\<rparr>)) p
    = map shifted (TimelineItems h p) @ [event_item (length (Events sp)) e]"
proof -
  let ?h = "h(p \<mapsto> sp\<lparr>Events := Events sp @ [Some e]\<rparr>)"
  let ?n = "length (Events sp)"
  let ?A = "number_from 0 (event_items (Events sp))"
  let ?C = "number_from ?n (child_items h (Children sp))"
  let ?x = "event_item ?n e"
  have n: "length (event_items (Events sp)) = ?n"
    by (simp add: event_items_all [OF assms(2)])
  have old: "TimelineItems h p = SortStableFunc timeline_cmp (?A @ ?C)"
    using TimelineItems_sorted [of h p sp, OF assms(1)] by (simp add: n)
  have before: "\<not> IsZero (item_At item) \<and> item_At item < ev_At e" if "item \<in> set (?A @ ?C)" for item
    using assms(3) that by (simp add: old)
  have "(?h c = None) = (h c = None)" for c
    using assms(1) by simp
  then have "child_items ?h (Children sp) = child_items h (Children sp)"
    unfolding child_items_def using assms(1) by (auto split: option.split intro!: arg_cong [of _ _ concat])
  moreover have "event_items (Events sp @ [Some e]) = event_items (Events sp) @ [event_item 0 e]"
    by (simp add: event_items_def event_item_def)
  ultimately have new: "TimelineItems ?h p = SortStableFunc timeline_cmp (?A @ ?x # map shifted ?C)"
    using TimelineItems_sorted [of ?h p]
    by (simp add: n number_from_append shifted_children event_item_def)
  have A: "?A @ map shifted ?C = map shifted (?A @ ?C)"
    by (simp add: shifted_events)
  have "timeline_cmp y ?x < 0" if y: "y \<in> set (?A @ map shifted ?C)" for y
  proof -
    obtain y0 where "y0 \<in> set (?A @ ?C)" "y = shifted y0" using y unfolding A by auto
    with before [of y0] assms(4) show ?thesis
      by (simp add: timeline_cmp_def cmp_Compare_def event_item_def)
  qed
  then have "SortStableFunc timeline_cmp (?A @ ?x # map shifted ?C) = SortStableFunc timeline_cmp (?A @ map shifted ?C) @ [?x]"
    by (rule timeline.SortStableFunc_greatest)
  also note A
  also have "SortStableFunc timeline_cmp (map shifted (?A @ ?C)) = map shifted (TimelineItems h p)"
    unfolding old using before by (intro SortStableFunc_map) (simp add: timeline_cmp_def)
  finally show ?thesis unfolding new .
qed

lemma TimelineItem_shifted: "TimelineItem_templ E inner (shifted item) parent d = TimelineItem_templ E inner item parent d"
proof (cases "item_Span item")
  case (Some q)
  then show ?thesis by (simp add: TimelineItem_templ_def)
qed (simp add: shifted_def)


section \<open>What an event makes the server send\<close>

text \<open>With another entry in the timeline, the patch appends the last event of the span.\<close>

lemma event_patch:
  assumes env: "server_env_ok env" and inv: "server_inv m s" and run: "\<not> ws_paused s"
    and id: "byID (ws_store s) (recordSpanID (Some r)) = Some p" and kind: "Record_WhichKind (Some r) = Record_SpanEvent_case"
    and st: "Apply (se_rt env) (ws_store s) (Some r) = Some st"
    and sp: "heap st p = Some sp" and e: "Events sp = es @ [Some e]" and len: "1 < length (TimelineItems (heap st) p)"
  shows "\<exists>s' depth. applyRecord env (Some r) s = Some s' \<and> ws_store s' = st
    \<and> sends_patch s s' (renderTimelineAppendPatch (se_web env) (walk_fuel st) (heap st) p (event_item (length es) e) depth
        (se_now env (ws_ticks s)) (StaleOpenSpanIDs st))"
proof -
  obtain v where ch: "changes (ws_store s) st p (\<lambda>sp. sp\<lparr>Events := Events sp @ [Some v]\<rparr>)"
    using Apply_changes(3) [OF byID_empty [OF server_invD(1) [OF inv]] id st kind] by blast
  obtain depth where found: "FindSpan st (recordSpanID (Some r)) = Some (Some (p, depth))" "renderable (walk_fuel st) (heap st) p"
    using tracked_change [OF server_invD(1) [OF inv] id st ch] by auto
  have L: "web_laws (se_web env)" using env by (simp add: server_env_ok_def)
  let ?R = "renderTimelineAppendPatch (se_web env) (walk_fuel st) (heap st) p (event_item (length es) e) depth
        (se_now env (ws_ticks s)) (StaleOpenSpanIDs st)"
  have "\<exists>s'. applyRecord env (Some r) s = Some s' \<and> ws_store s' = st \<and> sends_patch s s' ?R"
  proof (rule applyRecord_patched [OF env inv run st])
    show "roots st = roots (ws_store s)" and "map_option SpanID (heap st q) = map_option SpanID (heap (ws_store s) q)" for q
      using changes_reads(1,6) [OF ch] by simp_all
    show "recordPatchSnapshotLocked env (Some r) (recordSpanID (Some r)) (se_now env (ws_ticks s))
        (s\<lparr>ws_store := st, ws_ticks := Suc (ws_ticks s)\<rparr>) = patch_with env ?R (s\<lparr>ws_store := st, ws_ticks := Suc (ws_ticks s)\<rparr>)"
      using len e by (simp add: recordPatchSnapshotLocked_def kind found(1) sp event_item_def)
    show "safe_rendering (?R (ws_cache s))"
      by (rule safe_TimelineAppendPatch [OF L server_invD(2) [OF inv]]) (simp add: event_item_def)
  qed
  then show ?thesis by blast
qed


lemma TimelineItem_events: "TimelineItem_templ E inner item (Some (sp\<lparr>Events := es\<rparr>)) d = TimelineItem_templ E inner item (Some sp) d"
  by (simp add: TimelineItem_templ_def timelineOffset_def eventCardKey_def split: option.split)

text \<open>C31: When an event of an open span is later than everything in its non-empty timeline, all of it
  timed, the patch that the unpaused web server sends for it appends to the list in the browser
  exactly what the new timeline has more: the new timeline renders as the old one followed by that entry.\<close>

theorem append_patch_in_order:
  assumes "server_env_ok env" and "server_inv m s" and "\<not> ws_paused s"
    and "byID (ws_store s) (recordSpanID (Some r)) = Some p" and "Record_WhichKind (Some r) = Record_SpanEvent_case"
    and "heap (ws_store s) p = Some sp" and "\<not> Ended sp" and "TimelineItems (heap (ws_store s)) p \<noteq> []"
    and at: "at = timeValue (se_rt env) (Some (SpanEvent_GetEventAt (Record_GetSpanEvent (Some r))))" "\<not> IsZero at"
    and later: "\<forall>item \<in> set (TimelineItems (heap (ws_store s)) p). \<not> IsZero (item_At item) \<and> item_At item < at"
  shows "\<exists>s' item depth. applyRecord env (Some r) s = Some s'
    \<and> sends_patch s s' (renderTimelineAppendPatch (se_web env) (walk_fuel (ws_store s')) (heap (ws_store s')) p item depth
        (se_now env (ws_ticks s)) (StaleOpenSpanIDs (ws_store s')))
    \<and> map (\<lambda>i. TimelineItem_templ E inner i (heap (ws_store s') p) d) (TimelineItems (heap (ws_store s')) p)
      = map (\<lambda>i. TimelineItem_templ E inner i (heap (ws_store s) p) d) (TimelineItems (heap (ws_store s)) p)
        @ [TimelineItem_templ E inner item (heap (ws_store s') p) d]"
proof -
  obtain st where st: "Apply (se_rt env) (ws_store s) (Some r) = Some st" "byID (ws_store s) [] = None"
    using change_step [OF assms(2,4)] by blast
  obtain e where e: "ev_At e = at" "changes (ws_store s) st p (\<lambda>sp. sp\<lparr>Events := Events sp @ [Some e]\<rparr>)"
    using Apply_changes(3) [OF st(2) assms(4) st(1) assms(5)] at(1) by blast
  then have h: "heap st = (heap (ws_store s))(p \<mapsto> sp\<lparr>Events := Events sp @ [Some e]\<rparr>)"
    using assms(6,7) by (auto simp: changes_def)
  have "None \<notin> set (Events sp)"
    by (rule store_ok_events [OF server_invD(1) [OF assms(2)] assms(4,6)])
  then have items: "TimelineItems (heap st) p = map shifted (TimelineItems (heap (ws_store s)) p) @ [event_item (length (Events sp)) e]"
    unfolding h using later at(2) e(1) by (intro TimelineItems_later_event assms(6)) auto
  obtain s' depth where s': "applyRecord env (Some r) s = Some s'" "ws_store s' = st"
      "sends_patch s s' (renderTimelineAppendPatch (se_web env) (walk_fuel st) (heap st) p (event_item (length (Events sp)) e) depth
        (se_now env (ws_ticks s)) (StaleOpenSpanIDs st))"
    using event_patch [OF assms(1-5) st(1), of "sp\<lparr>Events := Events sp @ [Some e]\<rparr>" "Events sp" e] assms(8) items h by auto
  have "map (\<lambda>i. TimelineItem_templ E inner i (heap st p) d) (TimelineItems (heap st) p)
      = map (\<lambda>i. TimelineItem_templ E inner i (heap (ws_store s) p) d) (TimelineItems (heap (ws_store s)) p)
        @ [TimelineItem_templ E inner (event_item (length (Events sp)) e) (heap st p) d]"
    unfolding items by (simp add: h TimelineItem_shifted TimelineItem_events assms(6))
  with s' show ?thesis by blast
qed

text \<open>A store with timelines to apply the properties to: an ended span with an event and a child, and
  an open one with an event.\<close>

definition eventful_ops :: "store_op list" where
  "eventful_ops = map OpApply [start_record ''a'' [] 1, event_record ''a'' ''first'' (Some 2), start_record ''b'' ''a'' 3,
     end_record ''a'' 4, start_record ''c'' [] 5, event_record ''c'' ''first'' (Some 6)]"

definition eventful_store :: store where
  "eventful_store = the (run_steps (store_step ref_runtime) NewStore eventful_ops)"

definition eventful_server :: web_server where
  "eventful_server = one_subscriber\<lparr>ws_store := eventful_store\<rparr>"

lemma eventful_store_ok: "store_ok eventful_store"
  using viewed_store.run_total [OF store_ok_new, of ref_runtime "\<lparr>AllowUnknownParents = False\<rparr>" eventful_ops]
  by (auto simp: eventful_store_def NewStore_def)

lemma eventful_store_reads:
  "length (roots eventful_store) = 2" "byID eventful_store ''a'' = Some 1" "byID eventful_store ''c'' = Some 3"
  "map_option Ended (heap eventful_store 1) = Some True" "map_option Ended (heap eventful_store 3) = Some False"
  "map item_At (TimelineItems (heap eventful_store) 3) = [6]"
  "length (TimelineItems (heap eventful_store) 1) = 2"
  by code_simp+

lemma eventful_server_inv: "server_inv 50 eventful_server"
  using with_store_inv [OF one_subscriber_inv eventful_store_ok] server_invD(10) [OF one_subscriber_inv]
  by (simp add: eventful_server_def eventful_store_reads)

lemma eventful_server_reads:
  "ws_store eventful_server = eventful_store" "\<not> ws_paused eventful_server" "ws_ticks eventful_server = 0"
  by (simp_all add: eventful_server_def one_subscriber_def newServer_def)

theorem append_patch_in_order_witness:
  "\<exists>s item. applyRecord ref_env (event_record ''c'' ''second'' (Some 7)) eventful_server = Some s
    \<and> map (\<lambda>i. TimelineItem_templ ref_web (\<lambda>q d oob. emit []) i (heap (ws_store s) 3) 0) (TimelineItems (heap (ws_store s)) 3)
      = map (\<lambda>i. TimelineItem_templ ref_web (\<lambda>q d oob. emit []) i (heap eventful_store 3) 0) (TimelineItems (heap eventful_store) 3)
        @ [TimelineItem_templ ref_web (\<lambda>q d oob. emit []) item (heap (ws_store s) 3) 0]"
proof -
  obtain r where r: "event_record ''c'' ''second'' (Some 7) = Some r" by (simp add: event_record_def)
  have rec: "byID (ws_store eventful_server) (recordSpanID (Some r)) = Some 3" "Record_WhichKind (Some r) = Record_SpanEvent_case"
    "(7 :: go_time) = timeValue (se_rt ref_env) (Some (SpanEvent_GetEventAt (Record_GetSpanEvent (Some r))))"
    unfolding r [symmetric] eventful_server_reads(1) ref_env_web by code_simp+
  obtain sp where sp: "heap (ws_store eventful_server) 3 = Some sp" "\<not> Ended sp"
    using eventful_store_reads(5) by (auto simp: eventful_server_reads)
  have one: "\<exists>item. TimelineItems (heap (ws_store eventful_server)) 3 = [item] \<and> item_At item = 6"
    using eventful_store_reads(6) by (auto simp: eventful_server_reads)
  show ?thesis
    using append_patch_in_order [OF ref_env_ok eventful_server_inv eventful_server_reads(2) rec(1,2) sp _ rec(3),
        of ref_web "\<lambda>q d oob. emit []" 0] one
    unfolding r eventful_server_reads(1) by (fastforce simp: IsZero_def zero_time_def)
qed

text \<open>C35: An event for a span that already ended changes nothing in the store, and still the web server
  sends a patch that appends the last event of that span to its timeline in the browser once
  more, when the timeline has another entry.\<close>

theorem ignored_event_appended:
  assumes "server_env_ok env" and "server_inv m s" and "\<not> ws_paused s"
    and "byID (ws_store s) (recordSpanID (Some r)) = Some p" and "Record_WhichKind (Some r) = Record_SpanEvent_case"
    and "heap (ws_store s) p = Some sp" and "Ended sp" and "Events sp \<noteq> []" and "1 < length (TimelineItems (heap (ws_store s)) p)"
  shows "\<exists>s' item depth. applyRecord env (Some r) s = Some s' \<and> ws_store s' = ws_store s
    \<and> item_Event item = last (Events sp)
    \<and> sends_patch s s' (renderTimelineAppendPatch (se_web env) (walk_fuel (ws_store s)) (heap (ws_store s)) p item depth
        (se_now env (ws_ticks s)) (StaleOpenSpanIDs (ws_store s)))"
proof -
  obtain st where st: "Apply (se_rt env) (ws_store s) (Some r) = Some st" "byID (ws_store s) [] = None"
    using change_step [OF assms(2,4)] by blast
  obtain v where "changes (ws_store s) st p (\<lambda>sp. sp\<lparr>Events := Events sp @ [Some v]\<rparr>)"
    using Apply_changes(3) [OF st(2) assms(4) st(1) assms(5)] by blast
  then have same: "st = ws_store s" using assms(6,7) by (auto simp: changes_def)
  have "None \<notin> set (Events sp)"
    by (rule store_ok_events [OF server_invD(1) [OF assms(2)] assms(4,6)])
  then obtain e where e: "last (Events sp) = Some e" using assms(8) by (metis last_in_set not_None_eq)
  then have "Events sp = butlast (Events sp) @ [Some e]" using assms(8) by (metis append_butlast_last_id)
  then obtain s' depth where "applyRecord env (Some r) s = Some s'" "ws_store s' = st"
      "sends_patch s s' (renderTimelineAppendPatch (se_web env) (walk_fuel st) (heap st) p (event_item (length (butlast (Events sp))) e) depth
        (se_now env (ws_ticks s)) (StaleOpenSpanIDs st))"
    using event_patch [OF assms(1-5) st(1)] assms(6,9) unfolding same by blast
  with e show ?thesis unfolding same by (auto simp: event_item_def intro!: exI)
qed

theorem ignored_event_appended_witness:
  "\<exists>s item depth. applyRecord ref_env (event_record ''a'' ''late'' (Some 7)) eventful_server = Some s \<and> ws_store s = eventful_store
    \<and> map_option ev_Name (item_Event item) = Some ''first''
    \<and> sends_patch eventful_server s (renderTimelineAppendPatch ref_web (walk_fuel eventful_store) (heap eventful_store) 1 item depth
        (se_now ref_env 0) (StaleOpenSpanIDs eventful_store))"
proof -
  obtain r where r: "event_record ''a'' ''late'' (Some 7) = Some r" by (simp add: event_record_def)
  have rec: "byID (ws_store eventful_server) (recordSpanID (Some r)) = Some 1" "Record_WhichKind (Some r) = Record_SpanEvent_case"
    unfolding r [symmetric] eventful_server_reads(1) by code_simp+
  have "map_option (\<lambda>sp. (Ended sp, map (map_option ev_Name) (Events sp))) (heap eventful_store 1) = Some (True, [Some ''first''])"
    by code_simp
  then obtain sp where sp: "heap (ws_store eventful_server) 1 = Some sp" "Ended sp" "Events sp \<noteq> []"
      "map_option ev_Name (last (Events sp)) = Some ''first''"
    by (auto simp: eventful_server_reads)
  have "1 < length (TimelineItems (heap (ws_store eventful_server)) 1)"
    unfolding eventful_server_reads(1) eventful_store_reads(7) by simp
  from ignored_event_appended [OF ref_env_ok eventful_server_inv eventful_server_reads(2) rec sp(1-3) this] sp(4)
  show ?thesis
    unfolding r eventful_server_reads ref_env_web by metis
qed

end
