(* ===== verification/Web_Frames.thy ===== *)
theory Web_Frames
  imports Web_Http
begin

text \<open>
  The event stream of the web viewer, read back: the frames of \<open>writeSSE\<close> against the parser of an
  \<open>EventSource\<close> as the HTML standard describes it, which is what the page connects with.
\<close>

section \<open>The parser of an EventSource\<close>

text \<open>Lines end with LF, CR or CR LF; an unfinished line at the end is dropped.\<close>

fun es_lines :: "string \<Rightarrow> string \<Rightarrow> string list" where
  "es_lines cur [] = []"
| "es_lines cur [c] = (if c = newline \<or> c = carriage_return then [cur] else [])"
| "es_lines cur (c # d # cs) =
     (if c = newline then cur # es_lines [] (d # cs)
      else if c = carriage_return then cur # es_lines [] (if d = newline then cs else d # cs)
      else es_lines (cur @ [c]) (d # cs))"

text \<open>The field name and the value of a line, less one space after the colon.\<close>

definition es_field :: "string \<Rightarrow> string \<times> string" where
  "es_field line =
    (let field = takeWhile (\<lambda>c. c \<noteq> CHR '':'') line; val = tl (dropWhile (\<lambda>c. c \<noteq> CHR '':'') line)
     in (field, if val \<noteq> [] \<and> hd val = CHR '' '' then tl val else val))"

text \<open>The dispatched events: the type and the data. The buffers are those of the standard.\<close>

fun es_dispatch :: "string list \<Rightarrow> string \<Rightarrow> string \<Rightarrow> (string \<times> string) list" where
  "es_dispatch [] event_type dat = []"
| "es_dispatch (line # lines) event_type dat =
     (if line = [] then
        (if dat = [] then es_dispatch lines [] []
         else (if event_type = [] then ''message'' else event_type, butlast dat) # es_dispatch lines [] [])
      else if hd line = CHR '':'' then es_dispatch lines event_type dat
      else if fst (es_field line) = ''event'' then es_dispatch lines (snd (es_field line)) dat
      else if fst (es_field line) = ''data'' then es_dispatch lines event_type (dat @ snd (es_field line) @ [newline])
      else es_dispatch lines event_type dat)"

definition es_events :: "string \<Rightarrow> (string \<times> string) list" where
  "es_events stream = es_dispatch (es_lines [] stream) [] []"

section \<open>Lines of a text\<close>

lemma es_line:
  assumes "newline \<notin> set line" and "carriage_return \<notin> set line"
  shows "es_lines cur (line @ newline # rest) = (cur @ line) # es_lines [] rest"
  using assms
proof (induction line arbitrary: cur)
  case Nil
  then show ?case by (cases rest) simp_all
next
  case (Cons c line)
  obtain d cs where d: "line @ newline # rest = d # cs" by (cases line) auto
  have "es_lines cur ((c # line) @ newline # rest) = es_lines (cur @ [c]) (line @ newline # rest)"
    using Cons.prems by (auto simp: d)
  with Cons show ?case by simp
qed

lemma es_data_field [simp]: "es_field (''data: '' @ l) = (''data'', l)" "es_field (''event: '' @ l) = (''event'', l)"
  "es_field ''data:'' = (''data'', [])"
  by (simp_all add: es_field_def Let_def)

lemma es_data_lines:
  "es_dispatch (map (\<lambda>l. ''data: '' @ l) ls @ lines) event_type dat = es_dispatch lines event_type (dat @ concat (map (\<lambda>l. l @ [newline]) ls))"
proof (induction ls arbitrary: dat)
  case (Cons l ls)
  have "es_dispatch ((''data: '' @ l) # xs) event_type dat = es_dispatch xs event_type (dat @ l @ [newline])" for xs
    by (subst es_dispatch.simps(2)) (simp only: es_data_field fst_conv snd_conv, simp)
  with Cons show ?case by simp
qed simp


text \<open>One trailing newline less.\<close>

definition trim_newline :: "string \<Rightarrow> string" where
  "trim_newline s = (if s \<noteq> [] \<and> last s = newline then butlast s else s)"

text \<open>The lines of the scanner are those of the text, less an empty last one.\<close>

definition text_lines :: "string \<Rightarrow> string list" where
  "text_lines s = (if last (split_at newline s) = [] then butlast (split_at newline s) else split_at newline s)"

lemma split_at_nonempty [simp]: "split_at c s \<noteq> []"
  by (induction s) (auto split: list.split)

lemma split_at_line [simp]: "sep \<notin> set line \<Longrightarrow> split_at sep (line @ sep # rest) = line # split_at sep rest"
  by (induction line) auto

lemma split_at_plain [simp]: "sep \<notin> set line \<Longrightarrow> split_at sep line = [line]"
  by (induction line) auto

lemma text_lines_simps [simp]:
  "text_lines [] = []"
  "newline \<notin> set line \<Longrightarrow> line \<noteq> [] \<Longrightarrow> text_lines line = [line]"
  "newline \<notin> set line \<Longrightarrow> text_lines (line @ newline # rest) = line # text_lines rest"
  by (simp_all add: text_lines_def)

lemma line_induct [case_names plain line]:
  assumes "\<And>s. newline \<notin> set s \<Longrightarrow> P s" and "\<And>l s. newline \<notin> set l \<Longrightarrow> P s \<Longrightarrow> P (l @ newline # s)"
  shows "P s"
proof (induction "length s" arbitrary: s rule: less_induct)
  case less
  show ?case
  proof (cases "newline \<in> set s")
    case True
    then obtain l rest where s: "s = l @ newline # rest" "newline \<notin> set l" by (auto dest: split_list_first)
    then have "P rest" by (intro less) simp
    with assms(2) s show ?thesis by simp
  qed (rule assms(1))
qed

lemma scan_long_line:
  assumes "newline \<notin> set line" and "length cur < limit" and "limit \<le> length cur + length line"
  shows "scan_lines limit cur (line @ rest) = ([], True)"
  using assms by (induction line arbitrary: cur) auto

lemma scan_last_line:
  assumes "newline \<notin> set line" and "length cur + length line < limit"
  shows "scan_lines limit cur line = (if cur @ line = [] then [] else [dropCR (cur @ line)], False)"
  using assms by (induction line arbitrary: cur) auto

lemma dropCR_plain [simp]: "carriage_return \<notin> set line \<Longrightarrow> dropCR line = line"
  by (auto simp: dropCR_def dest: last_in_set)

lemma scan_text:
  assumes "carriage_return \<notin> set s" and "0 < limit"
  shows "snd (scan_lines limit [] s) \<longleftrightarrow> (\<exists>line \<in> set (split_at newline s). limit \<le> length line)"
    and "\<not> snd (scan_lines limit [] s) \<Longrightarrow> fst (scan_lines limit [] s) = text_lines s"
  using assms(1)
proof (induction s rule: line_induct)
  case (plain s)
  {
    case 1
    show ?case
    proof (cases "length s < limit")
      case True
      with plain show ?thesis by (simp add: scan_last_line)
    next
      case False
      with plain assms(2) scan_long_line [of s "[]" limit "[]"] show ?thesis by simp
    qed
  next
    case 2
    show ?case
    proof (cases "length s < limit")
      case True
      with plain 2(2) show ?thesis by (cases "s = []") (auto simp: scan_last_line)
    next
      case False
      with plain assms(2) scan_long_line [of s "[]" limit "[]"] 2(1) show ?thesis by simp
    qed
  }
next
  case (line l s)
  {
    case 1
    show ?case
    proof (cases "length l < limit")
      case True
      with line 1 scan_line [of l "[]" limit s] show ?thesis by auto
    next
      case False
      with line assms(2) scan_long_line [of l "[]" limit "newline # s"] show ?thesis by auto
    qed
  next
    case 2
    show ?case
    proof (cases "length l < limit")
      case True
      with line 2 scan_line [of l "[]" limit s] show ?thesis by auto
    next
      case False
      with line assms(2) scan_long_line [of l "[]" limit "newline # s"] 2(1) show ?thesis by auto
    qed
  }
qed

lemma text_lines_plain: "line \<in> set (text_lines s) \<Longrightarrow> newline \<notin> set line \<and> set line \<subseteq> set s"
proof (induction s rule: line_induct)
  case (plain s)
  then show ?case by (cases "s = []") simp_all
qed auto

lemma text_lines_join: "s \<noteq> [] \<Longrightarrow> concat (map (\<lambda>l. l @ [newline]) (text_lines s)) = trim_newline s @ [newline]"
proof (induction s rule: line_induct)
  case (plain s)
  then have "last s \<noteq> newline" by (metis last_in_set)
  with plain show ?case by (simp add: trim_newline_def)
next
  case (line l s)
  then show ?case by (cases "s = []") (auto simp: trim_newline_def butlast_append)
qed

section \<open>Frames\<close>

definition one_line :: "string \<Rightarrow> bool" where
  "one_line s \<longleftrightarrow> newline \<notin> set s \<and> carriage_return \<notin> set s"

lemma es_frame:
  assumes "one_line event" and "event \<noteq> []" and "\<And>l. l \<in> set ls \<Longrightarrow> one_line l" and "ls \<noteq> []"
  shows "es_events (event_line event @ concat (map data_line ls) @ newline # rest)
    = (event, butlast (concat (map (\<lambda>l. l @ [newline]) ls))) # es_events rest"
proof -
  have data: "es_lines [] (concat (map data_line ls) @ xs) = map (\<lambda>l. ''data: '' @ l) ls @ es_lines [] xs" for xs
    using assms(3)
  proof (induction ls)
    case (Cons l ls)
    then show ?case
      using es_line [of "''data: '' @ l" "[]"] by (simp add: data_line_def one_line_def)
  qed simp
  have "es_lines [] (newline # rest) = [] # es_lines [] rest"
    using es_line [of "[]" "[]" rest] by simp
  then have split: "es_lines [] (event_line event @ concat (map data_line ls) @ newline # rest)
      = (''event: '' @ event) # map (\<lambda>l. ''data: '' @ l) ls @ [] # es_lines [] rest"
    using es_line [of "''event: '' @ event" "[]" "concat (map data_line ls) @ newline # rest"] assms(1)
    by (simp add: event_line_def one_line_def data)
  have typed: "es_dispatch ((''event: '' @ event) # xs) [] [] = es_dispatch xs event []" for xs
    by (subst es_dispatch.simps(2)) (simp only: es_data_field fst_conv snd_conv, simp)
  have "concat (map (\<lambda>l. l @ [newline]) ls) \<noteq> []"
    using assms(4) by (cases ls) simp_all
  then have "es_dispatch ([] # xs) event ([] @ concat (map (\<lambda>l. l @ [newline]) ls))
      = (event, butlast (concat (map (\<lambda>l. l @ [newline]) ls))) # es_dispatch xs [] []" for xs
    using assms(2) by simp
  then show ?thesis
    unfolding es_events_def split typed es_data_lines .
qed

text \<open>A carriage return ends a line for an \<open>EventSource\<close>, but \<open>writeSSE\<close> splits at newlines only: what
  follows it in the line is lost.\<close>

lemma carriage_return_cuts:
  "es_events (fst (writeSSE ''patch'' (''<p>a'' @ carriage_return # ''b</p>''))) = [(''patch'', ''<p>a'')]"
  by (simp add: writeSSE_def maxLineBytes_def event_line_def data_line_def es_events_def dropCR_def es_field_def Let_def)

text \<open>C38: A frame of \<open>writeSSE\<close> reads back when the text has no carriage return: an error is returned
  exactly when one line of the text has 4 MiB or more, and without an error an \<open>EventSource\<close>
  dispatches one event of that type whose data is the text, less one trailing newline.\<close>

theorem writeSSE_roundtrip:
  assumes "one_line event" and "event \<noteq> []" and "carriage_return \<notin> set dat"
  shows "(snd (writeSSE event dat) \<longleftrightarrow> (\<exists>line \<in> set (split_at newline dat). 4 * 1024 * 1024 \<le> length line))
    \<and> (\<not> snd (writeSSE event dat) \<longrightarrow> es_events (fst (writeSSE event dat) @ rest) = (event, trim_newline dat) # es_events rest)"
proof
  have limit: "0 < maxLineBytes" "maxLineBytes = 4 * 1024 * 1024" by (simp_all add: maxLineBytes_def)
  show "snd (writeSSE event dat) \<longleftrightarrow> (\<exists>line \<in> set (split_at newline dat). 4 * 1024 * 1024 \<le> length line)"
    using scan_text(1) [OF assms(3) limit(1)] unfolding limit(2) writeSSE_def
    by (cases "dat = []") (simp_all add: case_prod_unfold maxLineBytes_def)
  show "\<not> snd (writeSSE event dat) \<longrightarrow> es_events (fst (writeSSE event dat) @ rest) = (event, trim_newline dat) # es_events rest"
  proof (cases "dat = []")
    case True
    have "es_lines [] (event_line event @ ''data:'' @ [newline, newline] @ rest) = (''event: '' @ event) # ''data:'' # [] # es_lines [] rest"
      using es_line [of "''event: '' @ event" "[]"] es_line [of "''data:''" "[]"] es_line [of "[]" "[]"] assms(1)
      by (simp add: event_line_def one_line_def)
    with True assms(2) show ?thesis
      by (simp add: writeSSE_def trim_newline_def es_events_def es_field_def Let_def)
  next
    case False
    have lines: "one_line l" if "l \<in> set (text_lines dat)" for l
      using text_lines_plain [OF that] assms(3) by (auto simp: one_line_def)
    have nonempty: "text_lines dat \<noteq> []"
      using text_lines_join [OF False] by auto
    have "fst (scan_lines maxLineBytes [] dat) = text_lines dat" if "\<not> snd (scan_lines maxLineBytes [] dat)"
      by (rule scan_text(2) [OF assms(3) limit(1) that])
    with es_frame [OF assms(1,2) lines nonempty, of rest] False show ?thesis
      by (auto simp: writeSSE_def case_prod_unfold text_lines_join)
  qed
qed


theorem writeSSE_roundtrip_witness:
  "es_events (fst (writeSSE ''patch'' (''<div>'' @ [newline, newline] @ ''</div>'' @ [newline])) @ fst (writeSSE ''status'' []))
    = [(''patch'', ''<div>'' @ [newline, newline] @ ''</div>''), (''status'', [])]"
proof -
  have lines: "one_line ''patch''" "one_line ''status''"
    "carriage_return \<notin> set (''<div>'' @ [newline, newline] @ ''</div>'' @ [newline])" "carriage_return \<notin> set []"
    by (simp_all add: one_line_def)
  have short: "\<not> snd (writeSSE ''patch'' (''<div>'' @ [newline, newline] @ ''</div>'' @ [newline]))" "\<not> snd (writeSSE ''status'' [])"
    using writeSSE_roundtrip [OF lines(1) _ lines(3)] writeSSE_roundtrip [OF lines(2) _ lines(4)] by simp_all
  have "es_events (fst (writeSSE ''status'' []) @ []) = [(''status'', [])]"
    using writeSSE_roundtrip [OF lines(2) _ lines(4), of "[]"] short(2) by (simp add: es_events_def trim_newline_def)
  then show ?thesis
    using writeSSE_roundtrip [OF lines(1) _ lines(3), of "fst (writeSSE ''status'' [])"] short(1) by (simp add: trim_newline_def)
qed

end
