(* ===== verification/Web_Ids.thy ===== *)
theory Web_Ids
  imports Web_Render
begin

text \<open>
  The element IDs of the web viewer's page: what \<open>safeCSSIdent\<close> makes of any text, and which
  spans keep their IDs apart. Patches address the elements of a span by these IDs.
\<close>

section \<open>Identifiers\<close>

definition dom_identifier :: "string \<Rightarrow> bool" where
  "dom_identifier s \<longleftrightarrow> take 4 s = ''sap-'' \<and> 4 < length s \<and> list_all ident_char s"

lemma ident_loop_chars: "list_all ident_char (ident_loop s)"
  by (induction s rule: ident_loop.induct) (simp_all add: ident_char_def [of "CHR ''-''"])

lemma ident_loop_Nil [simp]: "ident_loop s = [] \<longleftrightarrow> s = []"
  by (cases s) simp_all

lemma ident_loop_id: "list_all ident_char s \<Longrightarrow> ident_loop s = s"
  by (induction s) simp_all

lemma ident_loop_keep: "ident_char c \<Longrightarrow> ident_loop (c # s) = c # ident_loop s"
  by simp

lemma ident_loop_colon: "ident_loop (CHR '':'' # s) = CHR ''-'' # ident_loop s"
proof -
  have "rune_width (CHR '':'' # s) = 1"
    by (auto simp: rune_width_def byte_in_def split: list.split)
  then show ?thesis by (simp add: ident_char_def byte_in_def)
qed

lemma safeCSSIdent_identifier: "dom_identifier fallback \<Longrightarrow> dom_identifier (safeCSSIdent val fallback)"
  using ident_loop_chars [of val] by (auto simp: safeCSSIdent_def dom_identifier_def ident_char_def byte_in_def)

lemma fallbacks [simp]:
  "dom_identifier ''sap-span-unknown''" "dom_identifier ''sap-span-summary-unknown''" "dom_identifier ''sap-span-attrs-unknown''"
  "dom_identifier ''sap-span-timeline-unknown''" "dom_identifier ''sap-span-timeline-list-unknown''"
  "dom_identifier ''sap-attr-unknown''" "dom_identifier ''sap-event-unknown''"
  by (simp_all add: dom_identifier_def ident_char_def byte_in_def)

definition span_ids :: "span_state option \<Rightarrow> string list" where
  "span_ids span = [spanDOMID span, spanSummaryDOMID span, spanAttributesDOMID span, spanTimelineDOMID span, timelineListDOMID span]"

definition plain_id :: "string \<Rightarrow> bool" where
  "plain_id i \<longleftrightarrow> i \<noteq> [] \<and> list_all ident_char i"

lemma span_ids_eq:
  assumes "plain_id (SpanID sp)"
  shows "span_ids (Some sp) = map (\<lambda>section. section @ SpanID sp)
    [''sap-span-'', ''sap-summary-span-'', ''sap-attrs-span-'', ''sap-timeline-span-'', ''sap-timeline-list-span-'']"
  using assms
  by (simp add: span_ids_def spanDOMID_def spanSummaryDOMID_def spanAttributesDOMID_def spanTimelineDOMID_def timelineListDOMID_def
      safeCSSIdent_def spanCardKey_def plain_id_def ident_loop_colon ident_loop_keep ident_loop_id ident_char_def byte_in_def del: ident_loop.simps(2))

text \<open>C39: Every element ID the viewer generates is an identifier, whatever the records contain. Spans whose IDs
  consist of identifier characters, as the SDK's hexadecimal IDs do, have five different IDs each and
  share none of them with another span.\<close>

theorem dom_ids_typed:
  assumes "plain_id (SpanID a)" and "plain_id (SpanID b)"
  shows "list_all dom_identifier (span_ids span) \<and> dom_identifier (attrDOMID owner attr index) \<and> dom_identifier (eventDOMID key)
    \<and> distinct (span_ids (Some a)) \<and> (SpanID a \<noteq> SpanID b \<longrightarrow> set (span_ids (Some a)) \<inter> set (span_ids (Some b)) = {})"
proof (intro conjI)
  show "list_all dom_identifier (span_ids span)" "dom_identifier (attrDOMID owner attr index)" "dom_identifier (eventDOMID key)"
    by (simp_all add: span_ids_def spanDOMID_def spanSummaryDOMID_def spanAttributesDOMID_def spanTimelineDOMID_def
        timelineListDOMID_def attrDOMID_def eventDOMID_def Let_def safeCSSIdent_identifier)
  show "distinct (span_ids (Some a))" by (simp add: span_ids_eq [OF assms(1)])
  show "SpanID a \<noteq> SpanID b \<longrightarrow> set (span_ids (Some a)) \<inter> set (span_ids (Some b)) = {}"
    by (auto simp: span_ids_eq [OF assms(1)] span_ids_eq [OF assms(2)])
qed

definition named_span :: "string \<Rightarrow> span_state" where
  "named_span i = \<lparr>TraceID = ''t'', SpanID = i, ParentSpanID = [], Name = i, StartedAt = 1, EndedAt = zero_time, Attributes = [],
     Events = [], Children = [], Ended = False, TerminalType = TERMINAL_TYPE_UNSPECIFIED, ErrorMessage = []\<rparr>"

theorem dom_ids_typed_witness:
  "set (span_ids (Some (named_span ''a1''))) \<inter> set (span_ids (Some (named_span ''b2''))) = {}"
  using dom_ids_typed [of "named_span ''a1''" "named_span ''b2''"] by (auto simp: named_span_def plain_id_def ident_char_def byte_in_def)

text \<open>IDs from other clients may contain more: two spans then share their elements.\<close>

theorem dom_ids_collide: "span_ids (Some (named_span ''a.b'')) = span_ids (Some (named_span ''a-b''))"
  by code_simp

end
