(* ===== verification/Tui_Render.thy ===== *)
theory Tui_Render
  imports Web_Render
begin

text \<open>
  Rendering for the terminal, \<open>viewer/sap-tui/render.go\<close> and \<open>highlight.go\<close>. Lipgloss, the timer
  of bubbles and chroma are parameters; a style is the list of what the code sets. The caches
  of rendered spans and of highlighted code are state. A text is rendered to \<open>None\<close> where the
  code would read through a nil pointer.
\<close>

section \<open>Styles\<close>

datatype style_attr =
    Bold
  | Foreground string
  | ForegroundAdaptive string string
  | Background string
  | Padding nat nat
  | Width int
  | RoundedBorder
  | BorderForeground string

type_synonym style = "style_attr list"

record lipgloss =
  Style_Render :: "style \<Rightarrow> string \<Rightarrow> string"
  lipgloss_Width :: "string \<Rightarrow> int"
  JoinVertical_Left :: "string list \<Rightarrow> string"
  timer_View :: "go_duration \<Rightarrow> go_duration \<Rightarrow> string"

text \<open>Chroma's formatters are handles, like its lexers and styles.\<close>

record terminal_chroma = chroma +
  formatters_Get :: "string \<Rightarrow> nat option"
  formatters_Fallback :: nat
  formatter_Format :: "nat \<Rightarrow> nat \<Rightarrow> nat \<Rightarrow> string + string"

record tui_env =
  tui_lip :: lipgloss
  tui_chroma :: terminal_chroma

definition headerStyle :: style where
  "headerStyle = [Bold, Foreground ''230'', Background ''63'', Padding 0 1]"
definition footerKey :: style where
  "footerKey = [ForegroundAdaptive ''#909090'' ''#626262'']"
definition footerDesc :: style where
  "footerDesc = [ForegroundAdaptive ''#B2B2B2'' ''#4A4A4A'']"
definition footerSeparator :: style where
  "footerSeparator = [ForegroundAdaptive ''#DDDADA'' ''#3C3C3C'']"
definition dimStyle :: style where
  "dimStyle = [Foreground ''242'']"
definition labelStyle :: style where
  "labelStyle = [Foreground ''111'', Bold]"
definition okStyle :: style where
  "okStyle = [Foreground ''78'', Bold]"
definition errStyle :: style where
  "errStyle = [Foreground ''203'', Bold]"
definition runStyle :: style where
  "runStyle = [Foreground ''220'', Bold]"
definition warnStyle :: style where
  "warnStyle = [Foreground ''220'', Bold]"

text \<open>The characters beyond ASCII, UTF-8 encoded.\<close>

definition middle_dot :: string where "middle_dot = [CHR 0xC2, CHR 0xB7]"
definition bullet :: string where "bullet = [CHR 0xE2, CHR 0x97, CHR 0x8F]"
definition rule_mark :: string where "rule_mark = [CHR 0xE2, CHR 0x94, CHR 0x80]"

section \<open>Header and footer\<close>

definition renderHeader :: "tui_env \<Rightarrow> int \<Rightarrow> string" where
  "renderHeader E width = Style_Render (tui_lip E) (headerStyle @ [Width width]) ('' sap '' @ middle_dot @ '' live monitor '')"

definition footerItem :: "tui_env \<Rightarrow> string \<Rightarrow> string \<Rightarrow> string" where
  "footerItem E key desc = Style_Render (tui_lip E) footerKey key @ '' '' @ Style_Render (tui_lip E) footerDesc desc"

text \<open>\<open>retry\<close> is what the view of the retry timer shows.\<close>

definition connectionStatus :: "tui_env \<Rightarrow> ConnectionState \<Rightarrow> string \<Rightarrow> string" where
  "connectionStatus E conn retry =
    (let R = Style_Render (tui_lip E)
     in if cs_State conn = StateConnected then R okStyle bullet
        else if cs_State conn = StateConnecting then R runStyle bullet
        else if cs_State conn = StateRetrying then R runStyle bullet @ '' '' @ R footerDesc retry
        else R dimStyle bullet)"

definition renderFooter :: "tui_env \<Rightarrow> int \<Rightarrow> nat \<Rightarrow> ConnectionState \<Rightarrow> string \<Rightarrow> bool \<Rightarrow> string \<Rightarrow> string" where
  "renderFooter E width root_count conn retry paused helpView =
    (let R = Style_Render (tui_lip E); W = lipgloss_Width (tui_lip E);
         separator = R footerSeparator ('' '' @ middle_dot @ '' '');
         left = footerItem E ''roots'' (Itoa (int root_count)) @ separator @ connectionStatus E conn retry;
         left = (if paused then left @ separator @ R runStyle ''paused'' else left);
         right = helpView;
         pad = width - W left - W right;
         pad = (if pad < 1 then 1 else pad)
     in left @ Repeat '' '' pad @ right)"

section \<open>Highlighted code\<close>

fun tui_code_prefix :: "string list \<Rightarrow> string option" where
  "tui_code_prefix [] = None"
| "tui_code_prefix (hint # hints) =
     (if HasPrefix hint ''code:'' then Some (TrimPrefix hint ''code:'') else tui_code_prefix hints)"

definition tui_codeLanguage :: "string list \<Rightarrow> string" where
  "tui_codeLanguage hints = (case tui_code_prefix hints of Some lang \<Rightarrow> lang | None \<Rightarrow> [])"

fun tui_hasHint :: "string list \<Rightarrow> string \<Rightarrow> bool" where
  "tui_hasHint [] want = False"
| "tui_hasHint (hint # hints) want = (if hint = want then True else tui_hasHint hints want)"

type_synonym code_cache = "string \<rightharpoonup> string"

text \<open>The text, and whether it goes into the cache.\<close>

definition tui_highlight :: "terminal_chroma \<Rightarrow> string \<Rightarrow> string \<Rightarrow> string \<times> bool" where
  "tui_highlight C lang src =
    (let lexer = (case lexers_Get C lang of None \<Rightarrow> lexers_Fallback C | Some l \<Rightarrow> l);
         lexer = Coalesce C lexer;
         style = (case styles_Get C ''monokai'' of None \<Rightarrow> styles_Fallback C | Some st \<Rightarrow> st);
         formatter = (case formatters_Get C ''terminal256'' of None \<Rightarrow> formatters_Fallback C | Some f \<Rightarrow> f)
     in case Tokenise C lexer src of
          Inl err \<Rightarrow> (src, False)
        | Inr tokens \<Rightarrow> (case formatter_Format C formatter style tokens of
            Inl err \<Rightarrow> (src, False)
          | Inr out \<Rightarrow> (TrimRight out (CHR 0x0A), True)))"

definition highlightCode :: "terminal_chroma \<Rightarrow> string \<Rightarrow> string \<Rightarrow> code_cache \<Rightarrow> string \<times> code_cache" where
  "highlightCode C lang src cache =
    (let cacheKey = lang @ CHR 0x00 # src
     in case cache cacheKey of
          Some highlighted \<Rightarrow> (highlighted, cache)
        | None \<Rightarrow> (case tui_highlight C lang src of
            (highlighted, store) \<Rightarrow> (highlighted, if store then cache(cacheKey \<mapsto> highlighted) else cache)))"

section \<open>Attributes and events\<close>

fun attribute_parts :: "tui_env \<Rightarrow> int \<Rightarrow> attribute option list \<Rightarrow> code_cache \<Rightarrow> string list \<times> code_cache" where
  "attribute_parts E width [] code = ([], code)"
| "attribute_parts E width (attr # attrs) code =
     (if attr = None then attribute_parts E width attrs code
      else let R = Style_Render (tui_lip E); label = Attribute_GetKey attr;
               lang = tui_codeLanguage (Attribute_GetDisplayHints attr)
      in if lang \<noteq> [] \<or> tui_hasHint (Attribute_GetDisplayHints attr) ''code''
         then (case highlightCode (tui_chroma E) lang (Attribute_GetValue attr) code of
             (highlighted, code) \<Rightarrow> (case attribute_parts E width attrs code of
               (parts, code) \<Rightarrow> ((R labelStyle (label @ '':'') @ [newline] @ highlighted) # parts, code)))
         else (case attribute_parts E width attrs code of
             (parts, code) \<Rightarrow> (R [Width width] (R labelStyle (label @ '': '') @ Attribute_GetValue attr) # parts, code)))"

definition renderAttributes :: "tui_env \<Rightarrow> attribute option list \<Rightarrow> int \<Rightarrow> code_cache \<Rightarrow> string \<times> code_cache" where
  "renderAttributes E attrs width code =
    (case attribute_parts E width attrs code of (parts, code) \<Rightarrow> (join [newline] parts, code))"

definition indentLines :: "string \<Rightarrow> string \<Rightarrow> string" where
  "indentLines val lead =
    (if val = [] then [] else join [newline] (map (\<lambda>line. lead @ line) (split_at newline val)))"

definition tui_formatDuration :: "go_duration \<Rightarrow> string" where
  "tui_formatDuration d =
    (let d = (if d < 0 then 0 else d)
     in if d < Second then Duration_String (Round d (10 * Millisecond))
        else if d < Minute then Duration_String (Round d (100 * Millisecond))
        else Duration_String (Round d Second))"

definition eventOffset :: "go_time \<Rightarrow> go_time \<Rightarrow> string" where
  "eventOffset startedAt eventAt =
    (if IsZero startedAt \<or> IsZero eventAt then [] else ''+'' @ tui_formatDuration (time_Sub eventAt startedAt))"

definition event_header :: "tui_env \<Rightarrow> int \<Rightarrow> go_time \<Rightarrow> event_state \<Rightarrow> string" where
  "event_header E width startedAt event =
    (let R = Style_Render (tui_lip E); W = lipgloss_Width (tui_lip E);
         headerLeft = (if ev_Severity event = SEVERITY_WARN then R warnStyle ''* '' @ R warnStyle (ev_Name event)
           else if ev_Severity event = SEVERITY_ERROR then R errStyle ''* '' @ R errStyle (ev_Name event)
           else R dimStyle ''* '' @ ev_Name event);
         offset = eventOffset startedAt (ev_At event)
     in if offset \<noteq> []
        then let headerRight = R dimStyle offset
             in headerLeft @ Repeat '' '' (max 1 (width - W headerLeft - W headerRight)) @ headerRight
        else headerLeft)"

fun event_parts :: "tui_env \<Rightarrow> int \<Rightarrow> go_time \<Rightarrow> event_state list \<Rightarrow> code_cache \<Rightarrow> string list \<times> code_cache" where
  "event_parts E width startedAt [] code = ([], code)"
| "event_parts E width startedAt (event # events) code =
     (let eventParts = [Style_Render (tui_lip E) [Width width] (event_header E width startedAt event)]
      in case renderAttributes E (ev_Attributes event) (max 1 (width - 2)) code of
           (attrs, code) \<Rightarrow> (let eventParts = (if attrs \<noteq> [] then eventParts @ [indentLines attrs ''  ''] else eventParts)
             in case event_parts E width startedAt events code of
                  (parts, code) \<Rightarrow> (join [newline] eventParts # parts, code)))"

definition renderEvents :: "tui_env \<Rightarrow> event_state list \<Rightarrow> int \<Rightarrow> go_time \<Rightarrow> code_cache \<Rightarrow> string \<times> code_cache" where
  "renderEvents E events width startedAt code =
    (case event_parts E width startedAt events code of (parts, code) \<Rightarrow> (join [newline] parts, code))"

section \<open>Status and times of a span\<close>

definition statusView :: "tui_env \<Rightarrow> span_state \<Rightarrow> string \<Rightarrow> (string \<rightharpoonup> go_time) \<Rightarrow> string" where
  "statusView E sp spin marks =
    (let R = Style_Render (tui_lip E)
     in if \<not> Ended sp then (if marks (SpanID sp) \<noteq> None then R errStyle cross_mark else spin)
        else if ErrorMessage sp \<noteq> [] then R errStyle cross_mark
        else R okStyle check_mark)"

definition spanTimerView :: "tui_env \<Rightarrow> go_duration \<Rightarrow> string" where
  "spanTimerView E d =
    (let d = (if d < 0 then 0 else d) in timer_View (tui_lip E) (Truncate d Millisecond) Millisecond)"

definition tui_timingView :: "tui_env \<Rightarrow> span_state \<Rightarrow> go_time \<Rightarrow> (string \<rightharpoonup> go_time) \<Rightarrow> string" where
  "tui_timingView E sp now marks =
    (if IsZero (StartedAt sp) then []
     else if Ended sp \<and> \<not> IsZero (EndedAt sp) then spanTimerView E (time_Sub (EndedAt sp) (StartedAt sp))
     else (case marks (SpanID sp) of
         Some staleAt \<Rightarrow> spanTimerView E (time_Sub staleAt (StartedAt sp))
       | None \<Rightarrow> spanTimerView E (time_Sub now (StartedAt sp))))"

definition renderError :: "tui_env \<Rightarrow> string \<Rightarrow> int \<Rightarrow> string" where
  "renderError E message width =
    Style_Render (tui_lip E) [Width width] (Style_Render (tui_lip E) errStyle ''error: '' @ message)"

section \<open>Spans\<close>

fun isClosedSpanTree :: "nat \<Rightarrow> span_heap \<Rightarrow> addr \<Rightarrow> bool option"
  and isClosedSpanTree_loop :: "nat \<Rightarrow> span_heap \<Rightarrow> addr list \<Rightarrow> bool option" where
  "isClosedSpanTree 0 h p = None"
| "isClosedSpanTree (Suc fuel) h p =
     (case h p of
        None \<Rightarrow> Some False
      | Some span \<Rightarrow> if \<not> Ended span then Some False else isClosedSpanTree_loop fuel h (Children span))"
| "isClosedSpanTree_loop fuel h [] = Some True"
| "isClosedSpanTree_loop fuel h (c # cs) =
     (case isClosedSpanTree fuel h c of
        None \<Rightarrow> None
      | Some False \<Rightarrow> Some False
      | Some True \<Rightarrow> isClosedSpanTree_loop fuel h cs)"

record spanRenderCacheKey =
  key_spanID :: string
  key_depth :: nat
  key_width :: int

text \<open>The caches: of rendered spans, a map or nil, and of highlighted code.\<close>

record tui_caches =
  tc_spans :: "(spanRenderCacheKey \<rightharpoonup> string) option"
  tc_code :: code_cache

text \<open>\<open>flushEvents\<close>: the parts it appends.\<close>

definition separator_line :: "tui_env \<Rightarrow> int \<Rightarrow> string" where
  "separator_line E inner = Style_Render (tui_lip E) dimStyle (Repeat rule_mark inner)"

definition flushEvents :: "tui_env \<Rightarrow> int \<Rightarrow> go_time \<Rightarrow> event_state list \<Rightarrow> tui_caches \<Rightarrow> string list \<times> tui_caches" where
  "flushEvents E inner startedAt eventGroup w =
    (if length eventGroup = 0 then ([], w)
     else case renderEvents E eventGroup inner startedAt (tc_code w) of
       (events, code) \<Rightarrow> ([separator_line E inner, events], w\<lparr>tc_code := code\<rparr>))"

text \<open>The loop over the timeline: \<open>render\<close> renders a child.\<close>

fun timeline_parts :: "tui_env \<Rightarrow> (addr \<Rightarrow> tui_caches \<Rightarrow> (string \<times> tui_caches) option) \<Rightarrow> int \<Rightarrow> go_time \<Rightarrow> timeline_item list
    \<Rightarrow> event_state list \<Rightarrow> tui_caches \<Rightarrow> (string list \<times> tui_caches) option" where
  "timeline_parts E render inner startedAt [] eventGroup w = Some (flushEvents E inner startedAt eventGroup w)"
| "timeline_parts E render inner startedAt (item # items) eventGroup w =
     (case item_Event item of
        Some event \<Rightarrow> timeline_parts E render inner startedAt items (eventGroup @ [event]) w
      | None \<Rightarrow> (case flushEvents E inner startedAt eventGroup w of
          (flushed, w) \<Rightarrow> (case item_Span item of
            None \<Rightarrow> None
          | Some q \<Rightarrow> (case render q w of
              None \<Rightarrow> None
            | Some (child, w) \<Rightarrow> (case timeline_parts E render inner startedAt items [] w of
                None \<Rightarrow> None
              | Some (parts, w) \<Rightarrow> Some (flushed @ [child] @ parts, w))))))"

definition span_color :: "nat \<Rightarrow> string" where
  "span_color depth = [''213'', ''141'', ''117'', ''220'', ''78'', ''209''] ! (depth mod 6)"

definition span_header :: "tui_env \<Rightarrow> span_state \<Rightarrow> nat \<Rightarrow> int \<Rightarrow> string \<Rightarrow> go_time \<Rightarrow> (string \<rightharpoonup> go_time) \<Rightarrow> string" where
  "span_header E sp depth inner spin now marks =
    (let R = Style_Render (tui_lip E); W = lipgloss_Width (tui_lip E);
         headerLeft = R [Foreground (span_color depth), Bold] (Name sp);
         headerRight = statusView E sp spin marks;
         timing = tui_timingView E sp now marks;
         headerRight = (if timing \<noteq> [] then R dimStyle timing @ '' '' @ headerRight else headerRight)
     in headerLeft @ Repeat '' '' (max 1 (inner - W headerLeft - W headerRight)) @ headerRight)"

text \<open>The body of \<open>renderSpan\<close> past the lookup in the cache.\<close>

definition span_body :: "tui_env \<Rightarrow> (addr \<Rightarrow> nat \<Rightarrow> int \<Rightarrow> tui_caches \<Rightarrow> (string \<times> tui_caches) option) \<Rightarrow> span_heap \<Rightarrow> string
    \<Rightarrow> go_time \<Rightarrow> (string \<rightharpoonup> go_time) \<Rightarrow> addr \<Rightarrow> span_state \<Rightarrow> nat \<Rightarrow> int \<Rightarrow> tui_caches \<Rightarrow> (string \<times> tui_caches) option" where
  "span_body E render h spin now marks p sp depth width w =
    (let inner = width - 4;
         inner = (if inner < 24 then 24 else inner);
         parts = [span_header E sp depth inner spin now marks];
         parts = (if ErrorMessage sp \<noteq> [] then parts @ [separator_line E inner, renderError E (ErrorMessage sp) inner] else parts)
     in case renderAttributes E (Attributes sp) inner (tc_code w) of
          (attrs, code) \<Rightarrow>
            (let w = w\<lparr>tc_code := code\<rparr>;
                 parts = (if attrs \<noteq> [] then parts @ [separator_line E inner, attrs] else parts)
             in case timeline_parts E (\<lambda>q. render q (depth + 1) inner) inner (StartedAt sp) (TimelineItems h p) [] w of
                  None \<Rightarrow> None
                | Some (rest, w) \<Rightarrow> Some (Style_Render (tui_lip E)
                    [RoundedBorder, BorderForeground (span_color depth), Padding 0 1, Width (width - 2)]
                    (join [newline] (parts @ rest)), w)))"

primrec renderSpan :: "tui_env \<Rightarrow> nat \<Rightarrow> span_heap \<Rightarrow> string \<Rightarrow> go_time \<Rightarrow> (string \<rightharpoonup> go_time) \<Rightarrow> addr \<Rightarrow> nat \<Rightarrow> int \<Rightarrow> tui_caches
    \<Rightarrow> (string \<times> tui_caches) option" where
  "renderSpan E 0 h spin now marks p depth width w = None"
| "renderSpan E (Suc fuel) h spin now marks p depth width w =
    (case isClosedSpanTree (Suc fuel) h p of
       None \<Rightarrow> None
     | Some cacheable \<Rightarrow> (case h p of
         None \<Rightarrow> None
       | Some sp \<Rightarrow>
           (let cache_key = \<lparr>key_spanID = SpanID sp, key_depth = depth, key_width = width\<rparr>;
                hit = (if cacheable then Option.bind (tc_spans w) (\<lambda>cache. cache cache_key) else None)
            in case hit of
                 Some rendered \<Rightarrow> Some (rendered, w)
               | None \<Rightarrow> (case span_body E (\<lambda>q d wd. renderSpan E fuel h spin now marks q d wd) h spin now marks p sp depth width w of
                   None \<Rightarrow> None
                 | Some (rendered, w) \<Rightarrow> Some (rendered,
                     if cacheable then w\<lparr>tc_spans := map_option (\<lambda>cache. cache(cache_key \<mapsto> rendered)) (tc_spans w)\<rparr> else w)))))"

text \<open>The roots, one below the other.\<close>

fun root_parts :: "tui_env \<Rightarrow> nat \<Rightarrow> span_heap \<Rightarrow> string \<Rightarrow> go_time \<Rightarrow> (string \<rightharpoonup> go_time) \<Rightarrow> addr list \<Rightarrow> int \<Rightarrow> tui_caches
    \<Rightarrow> (string list \<times> tui_caches) option" where
  "root_parts E fuel h spin now marks [] width w = Some ([], w)"
| "root_parts E fuel h spin now marks (root # rest) width w =
     (case renderSpan E fuel h spin now marks root 0 width w of
        None \<Rightarrow> None
      | Some (rendered, w) \<Rightarrow> map_option (\<lambda>(parts, w). (rendered # parts, w)) (root_parts E fuel h spin now marks rest width w))"

definition tui_renderRoots :: "tui_env \<Rightarrow> nat \<Rightarrow> span_heap \<Rightarrow> addr list \<Rightarrow> int \<Rightarrow> string \<Rightarrow> go_time \<Rightarrow> (string \<rightharpoonup> go_time) \<Rightarrow> tui_caches
    \<Rightarrow> (string \<times> tui_caches) option" where
  "tui_renderRoots E fuel h tops width spin now marks w =
    map_option (\<lambda>(parts, w). (join [newline] parts, w)) (root_parts E fuel h spin now marks tops width w)"

end
