(* ===== verification/Tui.thy ===== *)
theory Tui
  imports Tui_Render
begin

text \<open>
  The terminal viewer, \<open>viewer/sap-tui/tui.go\<close>: a bubbletea model, its reactions to messages and
  its view. The components of bubbles (viewport, spinner, timer, help) are parameters; the
  state of one is opaque. \<open>Update\<close> is \<open>None\<close> where the code would panic or not return. The
  window's size and the clock are read from messages and from the environment.
\<close>

section \<open>Keys\<close>

text \<open>A binding: the keys pressed for it, and the key and text its help shows.\<close>

record key_binding =
  key_Keys :: "string list"
  key_HelpKey :: string
  key_HelpDesc :: string

definition up_down_arrows :: string where
  "up_down_arrows = [CHR 0xE2, CHR 0x86, CHR 0x91] @ ''/'' @ [CHR 0xE2, CHR 0x86, CHR 0x93]"

definition key_Quit :: key_binding where
  "key_Quit = \<lparr>key_Keys = [''q'', ''ctrl+c''], key_HelpKey = ''q'', key_HelpDesc = ''quit''\<rparr>"
definition key_Up :: key_binding where
  "key_Up = \<lparr>key_Keys = [''up'', ''k''], key_HelpKey = up_down_arrows, key_HelpDesc = ''scroll''\<rparr>"
definition key_Down :: key_binding where
  "key_Down = \<lparr>key_Keys = [''down'', ''j''], key_HelpKey = [], key_HelpDesc = []\<rparr>"
definition key_Top :: key_binding where
  "key_Top = \<lparr>key_Keys = [''g'', ''home''], key_HelpKey = ''g'', key_HelpDesc = ''top''\<rparr>"
definition key_Bottom :: key_binding where
  "key_Bottom = \<lparr>key_Keys = [''G'', ''end''], key_HelpKey = ''G'', key_HelpDesc = ''bottom''\<rparr>"
definition key_Pause :: key_binding where
  "key_Pause = \<lparr>key_Keys = [''p''], key_HelpKey = ''p'', key_HelpDesc = ''pause''\<rparr>"
definition key_Clear :: key_binding where
  "key_Clear = \<lparr>key_Keys = [''c''], key_HelpKey = ''c'', key_HelpDesc = ''clear''\<rparr>"
definition key_Help :: key_binding where
  "key_Help = \<lparr>key_Keys = [''?''], key_HelpKey = ''?'', key_HelpDesc = ''help''\<rparr>"

definition key_Matches :: "string \<Rightarrow> key_binding \<Rightarrow> bool" where
  "key_Matches pressed binding \<longleftrightarrow> pressed \<in> set (key_Keys binding)"

text \<open>What the help shows in one line, and by columns.\<close>

definition ShortHelp :: "key_binding list" where
  "ShortHelp = [key_Up, key_Top, key_Bottom, key_Pause, key_Clear, key_Help, key_Quit]"

definition FullHelp :: "key_binding list list" where
  "FullHelp = [[key_Up, key_Down], [key_Top, key_Bottom], [key_Pause, key_Clear], [key_Help, key_Quit]]"

section \<open>Messages and commands\<close>

datatype tui_msg =
    WindowSizeMsg int int
  | KeyMsg string
  | SpinnerTickMsg string
  | EventMsg "sap_record option"
  | RepaintMsg
  | StateMsg ConnectionState
  | TimerMsg string
  | OtherMsg string

datatype tui_cmd = NoCmd | QuitCmd | RepaintTick | LibCmd string

type_synonym widget = string

record bubbles =
  viewport_New :: "int \<Rightarrow> int \<Rightarrow> widget"
  vp_SetWidth :: "int \<Rightarrow> widget \<Rightarrow> widget"
  vp_SetHeight :: "int \<Rightarrow> widget \<Rightarrow> widget"
  vp_GotoTop :: "widget \<Rightarrow> widget"
  vp_GotoBottom :: "widget \<Rightarrow> widget"
  vp_AtBottom :: "widget \<Rightarrow> bool"
  vp_SetContent :: "string \<Rightarrow> widget \<Rightarrow> widget"
  vp_Update :: "tui_msg \<Rightarrow> widget \<Rightarrow> widget \<times> tui_cmd"
  vp_View :: "widget \<Rightarrow> string"
  spinner_New :: "go_duration \<Rightarrow> style \<Rightarrow> widget"
  spinner_Tick :: "widget \<Rightarrow> tui_cmd"
  spinner_Update :: "tui_msg \<Rightarrow> widget \<Rightarrow> widget \<times> tui_cmd"
  spinner_View :: "widget \<Rightarrow> string"
  help_New :: "string \<Rightarrow> widget"
  help_SetWidth :: "int \<Rightarrow> widget \<Rightarrow> widget"
  help_ToggleAll :: "widget \<Rightarrow> widget"
  help_View :: "key_binding list \<Rightarrow> key_binding list list \<Rightarrow> widget \<Rightarrow> string"
  timer_New :: "go_duration \<Rightarrow> go_duration \<Rightarrow> widget"
  timer_Init :: "widget \<Rightarrow> tui_cmd"
  timer_Stop :: "widget \<Rightarrow> tui_cmd"
  timer_Update :: "tui_msg \<Rightarrow> widget \<Rightarrow> widget \<times> tui_cmd"
  timer_Model_View :: "widget \<Rightarrow> string"

record tui_world =
  tw_env :: tui_env
  tw_lib :: bubbles
  tw_rt :: pb_runtime
  tw_now :: "nat \<Rightarrow> go_time"

section \<open>Model\<close>

definition tui_maxRoots :: int where
  "tui_maxRoots = 25"

record tui_model =
  m_vp :: widget
  m_help :: widget
  m_spinner :: widget
  m_retryTimer :: widget
  m_store :: store
  m_renderCache :: "spanRenderCacheKey \<rightharpoonup> string"
  m_code :: code_cache
  m_conn :: ConnectionState
  m_paused :: "bool option"
  m_width :: int
  m_height :: int
  m_ready :: bool
  m_repaintPending :: bool
  m_stickToBottom :: bool
  m_now :: go_time
  m_ticks :: nat

text \<open>The cache of highlighted code is a variable of the package; the viewport is its zero value
  until the first size arrives.\<close>

definition newModel :: "tui_world \<Rightarrow> bool option \<Rightarrow> StoreOptions \<Rightarrow> tui_model" where
  "newModel W paused storeOptions =
    \<lparr>m_vp = [], m_help = help_New (tw_lib W) ('' '' @ middle_dot @ '' ''),
     m_spinner = spinner_New (tw_lib W) (100 * Millisecond) runStyle,
     m_retryTimer = timer_New (tw_lib W) 0 (100 * Millisecond),
     m_store = NewStoreWithOptions storeOptions, m_renderCache = Map.empty, m_code = Map.empty,
     m_conn = connection [] 0, m_paused = paused, m_width = 0, m_height = 0, m_ready = False,
     m_repaintPending = False, m_stickToBottom = False, m_now = tw_now W 0, m_ticks = 1\<rparr>"

definition tui_Init :: "tui_world \<Rightarrow> tui_model \<Rightarrow> tui_cmd" where
  "tui_Init W m = spinner_Tick (tw_lib W) (m_spinner m)"

definition isPaused :: "tui_model \<Rightarrow> bool" where
  "isPaused m \<longleftrightarrow> m_paused m = Some True"

text \<open>A reading of the clock.\<close>

definition tui_now :: "tui_world \<Rightarrow> tui_model \<Rightarrow> go_time \<times> tui_model" where
  "tui_now W m = (tw_now W (m_ticks m), m\<lparr>m_ticks := Suc (m_ticks m)\<rparr>)"

definition repaint :: "tui_world \<Rightarrow> tui_model \<Rightarrow> tui_model option" where
  "repaint W m =
    (if \<not> m_ready m then Some m
     else case tui_renderRoots (tw_env W) (walk_fuel (m_store m)) (heap (m_store m)) (Roots (m_store m)) (max 40 (m_width m - 2))
         (spinner_View (tw_lib W) (m_spinner m)) (m_now m) (StaleOpenSpanIDs (m_store m))
         \<lparr>tc_spans = Some (m_renderCache m), tc_code = m_code m\<rparr> of
       None \<Rightarrow> None
     | Some (content, w) \<Rightarrow> Some (m\<lparr>m_vp := vp_SetContent (tw_lib W) content (m_vp m),
         m_renderCache := (case tc_spans w of None \<Rightarrow> Map.empty | Some cache \<Rightarrow> cache), m_code := tc_code w\<rparr>))"

text \<open>With a nil flag \<open>togglePaused\<close> would panic.\<close>

definition tui_togglePaused :: "tui_model \<Rightarrow> tui_model option" where
  "tui_togglePaused m =
    (if m_paused m = None then None
     else if \<not> isPaused m
     then map_option (\<lambda>st. m\<lparr>m_paused := Some True, m_store := st, m_renderCache := Map.empty\<rparr>) (ClearOpenSpans (m_store m))
     else Some (m\<lparr>m_paused := Some False\<rparr>))"

definition scheduleRepaint :: "tui_model \<Rightarrow> tui_model \<times> tui_cmd" where
  "scheduleRepaint m =
    (if m_repaintPending m then (m, NoCmd) else (m\<lparr>m_repaintPending := True\<rparr>, RepaintTick))"

section \<open>Update\<close>

definition with_cmd :: "tui_cmd \<Rightarrow> tui_model option \<Rightarrow> (tui_model \<times> tui_cmd) option" where
  "with_cmd cmd m = map_option (\<lambda>m. (m, cmd)) m"

definition update_window :: "tui_world \<Rightarrow> int \<Rightarrow> int \<Rightarrow> tui_model \<Rightarrow> (tui_model \<times> tui_cmd) option" where
  "update_window W width height m =
    (let L = tw_lib W;
         m = (if \<not> m_ready m then m\<lparr>m_vp := viewport_New L width (height - 2), m_ready := True\<rparr>
              else m\<lparr>m_vp := vp_SetHeight L (height - 2) (vp_SetWidth L width (m_vp m))\<rparr>);
         m = (if m_width m \<noteq> width then m\<lparr>m_renderCache := Map.empty\<rparr> else m)
     in with_cmd NoCmd (repaint W (m\<lparr>m_help := help_SetWidth L width (m_help m), m_width := width, m_height := height\<rparr>)))"

definition update_key :: "tui_world \<Rightarrow> string \<Rightarrow> tui_model \<Rightarrow> (tui_model \<times> tui_cmd) option" where
  "update_key W pressed m =
    (let L = tw_lib W;
         scroll = (\<lambda>m. case vp_Update L (KeyMsg pressed) (m_vp m) of (vp, cmd) \<Rightarrow> Some (m\<lparr>m_vp := vp\<rparr>, cmd))
     in if key_Matches pressed key_Quit then Some (m, QuitCmd)
        else if key_Matches pressed key_Top then scroll (m\<lparr>m_vp := vp_GotoTop L (m_vp m)\<rparr>)
        else if key_Matches pressed key_Bottom then scroll (m\<lparr>m_vp := vp_GotoBottom L (m_vp m)\<rparr>)
        else if key_Matches pressed key_Pause then with_cmd NoCmd (Option.bind (tui_togglePaused m) (repaint W))
        else if key_Matches pressed key_Clear
        then with_cmd NoCmd (repaint W (m\<lparr>m_store := Clear (m_store m), m_renderCache := Map.empty\<rparr>))
        else if key_Matches pressed key_Help then with_cmd NoCmd (repaint W (m\<lparr>m_help := help_ToggleAll L (m_help m)\<rparr>))
        else scroll m)"

definition update_spinner :: "tui_world \<Rightarrow> tui_msg \<Rightarrow> tui_model \<Rightarrow> (tui_model \<times> tui_cmd) option" where
  "update_spinner W msg m =
    (case spinner_Update (tw_lib W) msg (m_spinner m) of (sp, cmd) \<Rightarrow>
      (let (now, m) = tui_now W (m\<lparr>m_spinner := sp\<rparr>); m = m\<lparr>m_now := now\<rparr>
       in case HasOpenSpans (m_store m) of
            None \<Rightarrow> None
          | Some openSpans \<Rightarrow> with_cmd cmd (if openSpans then repaint W m else Some m)))"

definition update_event :: "tui_world \<Rightarrow> sap_record option \<Rightarrow> tui_model \<Rightarrow> (tui_model \<times> tui_cmd) option" where
  "update_event W record m =
    (if isPaused m then Some (m, NoCmd)
     else if record \<noteq> None
     then let m = (if vp_AtBottom (tw_lib W) (m_vp m) then m\<lparr>m_stickToBottom := True\<rparr> else m)
          in case Apply (tw_rt W) (m_store m) record of
               None \<Rightarrow> None
             | Some st \<Rightarrow> (case LimitRoots st tui_maxRoots of
                 None \<Rightarrow> None
               | Some st \<Rightarrow> Some (scheduleRepaint (m\<lparr>m_store := st\<rparr>)))
     else Some (m, NoCmd))"

definition update_repaint :: "tui_world \<Rightarrow> tui_model \<Rightarrow> (tui_model \<times> tui_cmd) option" where
  "update_repaint W m = with_cmd NoCmd (map_option
     (\<lambda>m. if m_stickToBottom m then m\<lparr>m_vp := vp_GotoBottom (tw_lib W) (m_vp m), m_stickToBottom := False\<rparr> else m)
     (repaint W (m\<lparr>m_repaintPending := False\<rparr>)))"

definition update_state :: "tui_world \<Rightarrow> ConnectionState \<Rightarrow> tui_model \<Rightarrow> (tui_model \<times> tui_cmd) option" where
  "update_state W conn m =
    (let L = tw_lib W; (now, m) = tui_now W (m\<lparr>m_conn := conn\<rparr>)
     in if cs_State conn = StateConnected
        then Option.bind (repaint W (m\<lparr>m_conn := conn\<lparr>cs_Err := []\<rparr>\<rparr>)) (\<lambda>m. Some (m, timer_Stop L (m_retryTimer m)))
        else if cs_State conn = StateRetrying
        then (case MarkOpenSpansStale (m_store m) now of
            None \<Rightarrow> None
          | Some st \<Rightarrow>
              (let (now, m) = tui_now W (m\<lparr>m_store := st\<rparr>);
                   remaining = time_Sub (cs_RetryAt conn) now;
                   remaining = (if remaining < 0 then 0 else remaining)
               in Option.bind (repaint W (m\<lparr>m_retryTimer := timer_New L (Truncate remaining Second) Second\<rparr>))
                    (\<lambda>m. Some (m, timer_Init L (m_retryTimer m)))))
        else if cs_State conn = StateDisconnected
        then (case MarkOpenSpansStale (m_store m) now of
            None \<Rightarrow> None
          | Some st \<Rightarrow> Option.bind (repaint W (m\<lparr>m_store := st\<rparr>)) (\<lambda>m. Some (m, timer_Stop L (m_retryTimer m))))
        else with_cmd NoCmd (repaint W m))"

definition update_timer :: "tui_world \<Rightarrow> tui_msg \<Rightarrow> tui_model \<Rightarrow> (tui_model \<times> tui_cmd) option" where
  "update_timer W msg m =
    (case timer_Update (tw_lib W) msg (m_retryTimer m) of (tm, cmd) \<Rightarrow>
      (let (now, m) = tui_now W (m\<lparr>m_retryTimer := tm\<rparr>) in with_cmd cmd (repaint W (m\<lparr>m_now := now\<rparr>))))"

definition Update :: "tui_world \<Rightarrow> tui_msg \<Rightarrow> tui_model \<Rightarrow> (tui_model \<times> tui_cmd) option" where
  "Update W msg m = (case msg of
     WindowSizeMsg width height \<Rightarrow> update_window W width height m
   | KeyMsg pressed \<Rightarrow> update_key W pressed m
   | SpinnerTickMsg _ \<Rightarrow> update_spinner W msg m
   | EventMsg record \<Rightarrow> update_event W record m
   | RepaintMsg \<Rightarrow> update_repaint W m
   | StateMsg conn \<Rightarrow> update_state W conn m
   | TimerMsg _ \<Rightarrow> update_timer W msg m
   | OtherMsg _ \<Rightarrow> Some (m, NoCmd))"

definition tui_View :: "tui_world \<Rightarrow> tui_model \<Rightarrow> string" where
  "tui_View W m =
    (if \<not> m_ready m then []
     else let E = tw_env W; L = tw_lib W;
       footer = renderFooter E (m_width m) (length (Roots (m_store m))) (m_conn m) (timer_Model_View L (m_retryTimer m))
         (isPaused m) (help_View L ShortHelp FullHelp (m_help m))
     in JoinVertical_Left (tui_lip E) [renderHeader E (m_width m), vp_View L (m_vp m), footer])"

section \<open>Feeding the program\<close>

text \<open>
  The goroutine of \<open>run\<close> that reads the records. An event is one turn of its loop: the context
  ends, a wait while paused, the end of the records, or a record with the flag as it is read
  after the receive. The result is what is sent to the program and whether the loop returned.
\<close>

datatype feed_event = FeedDone | FeedWaited | FeedClosed | FeedRecord "sap_record option" bool

fun feed_loop :: "feed_event list \<Rightarrow> tui_msg list \<times> bool" where
  "feed_loop [] = ([], False)"
| "feed_loop (FeedDone # es) = ([], True)"
| "feed_loop (FeedWaited # es) = feed_loop es"
| "feed_loop (FeedClosed # es) = ([], True)"
| "feed_loop (FeedRecord record paused # es) =
     (if paused then feed_loop es
      else case feed_loop es of (msgs, returned) \<Rightarrow> (EventMsg record # msgs, returned))"

text \<open>The goroutine that reads the connection states.\<close>

fun state_loop :: "ConnectionState list \<Rightarrow> tui_msg list" where
  "state_loop [] = []"
| "state_loop (conn # conns) = StateMsg conn # state_loop conns"

end
