(* ===== verification/Tui_Props.thy ===== *)
theory Tui_Props
  imports Tui Span_Walks
begin

text \<open>
  The properties of the terminal viewer: rendering and the reactions to messages return on
  every store, and what a repaint shows.
\<close>

section \<open>Rendering returns\<close>

lemma closed_loop_total:
  "(\<And>c. c \<in> set cs \<Longrightarrow> \<exists>b. isClosedSpanTree fuel h c = Some b) \<Longrightarrow> \<exists>b. isClosedSpanTree_loop fuel h cs = Some b"
proof (induction cs)
  case (Cons c cs)
  obtain b where b: "isClosedSpanTree fuel h c = Some b" using Cons.prems [of c] by auto
  obtain b' where "isClosedSpanTree_loop fuel h cs = Some b'" using Cons by fastforce
  with b show ?case by (cases b) auto
qed auto

lemma isClosedSpanTree_total: "renderable fuel h p \<Longrightarrow> \<exists>b. isClosedSpanTree fuel h p = Some b"
proof (induction fuel arbitrary: p)
  case 0
  then show ?case by (simp add: renderable_def)
next
  case (Suc fuel)
  obtain sp where sp: "h p = Some sp" using renderable_alloc [OF Suc.prems] by auto
  obtain b where "isClosedSpanTree_loop fuel h (Children sp) = Some b"
    using closed_loop_total [of "Children sp" fuel h] Suc.IH [OF renderable_child [OF Suc.prems sp]] by blast
  with sp show ?case by (cases "Ended sp") auto
qed

lemma TimelineItems_kinds:
  assumes "item \<in> set (TimelineItems h p)" and "item_Event item = None"
  obtains q where "item_Span item = Some q"
proof -
  obtain sp where sp: "h p = Some sp"
    using assms(1) by (cases "h p") (simp_all add: TimelineItems_def)
  then have "item \<in> set (number_from 0 (event_items (Events sp) @ child_items h (Children sp)))"
    using assms(1) by (simp add: TimelineItems_def timeline_base flip: set_mset_mset)
  then obtain item' i where "item' \<in> set (event_items (Events sp) @ child_items h (Children sp))"
      "item = item'\<lparr>item_Index := i\<rparr>"
    using number_from_member by blast
  with assms(2) have "item_Span item \<noteq> None"
    by (fastforce simp: event_items_def child_items_def split: option.splits)
  with that show thesis by auto
qed

lemma timeline_parts_total:
  assumes "\<And>item. item \<in> set items \<Longrightarrow> item_Event item = None \<Longrightarrow> \<exists>q. item_Span item = Some q \<and> (\<forall>w. \<exists>x. render q w = Some x)"
  shows "\<exists>x. timeline_parts E render inner startedAt items eventGroup w = Some x"
  using assms
proof (induction items arbitrary: eventGroup w)
  case (Cons item items)
  have IH: "\<exists>x. timeline_parts E render inner startedAt items g v = Some x" for g v
    by (rule Cons.IH) (rule Cons.prems, simp_all)
  show ?case
  proof (cases "item_Event item")
    case None
    then obtain q where q: "item_Span item = Some q" "\<And>w. \<exists>x. render q w = Some x"
      using Cons.prems [of item] by auto
    obtain flushed v where f: "flushEvents E inner startedAt eventGroup w = (flushed, v)" by fastforce
    obtain child u where r: "render q v = Some (child, u)" using q(2) by fastforce
    obtain parts t where "timeline_parts E render inner startedAt items [] u = Some (parts, t)" using IH by fastforce
    with None q(1) f r show ?thesis by simp
  qed (use IH in simp)
qed simp

lemma span_body_total:
  assumes "\<And>w. \<exists>x. timeline_parts E (\<lambda>q. render q (depth + 1) (if width - 4 < 24 then 24 else width - 4))
      (if width - 4 < 24 then 24 else width - 4) (StartedAt sp) (TimelineItems h p) [] w = Some x"
  shows "\<exists>out w'. span_body E render h spin now marks p sp depth width w = Some (out, w')"
proof -
  let ?inner = "if width - 4 < 24 then 24 else width - 4"
  obtain attrs code where attrs: "renderAttributes E (Attributes sp) ?inner (tc_code w) = (attrs, code)" by fastforce
  obtain rest v where "timeline_parts E (\<lambda>q. render q (depth + 1) ?inner) ?inner (StartedAt sp) (TimelineItems h p) []
      (w\<lparr>tc_code := code\<rparr>) = Some (rest, v)"
    using assms by fastforce
  with attrs show ?thesis by (simp only: span_body_def Let_def prod.case option.case) blast
qed

lemma renderSpan_total:
  "renderable fuel h p \<Longrightarrow> \<exists>out w'. renderSpan E fuel h spin now marks p depth width w = Some (out, w')"
proof (induction fuel arbitrary: p depth width w)
  case 0
  then show ?case by (simp add: renderable_def)
next
  case (Suc fuel)
  obtain sp where sp: "h p = Some sp" using renderable_alloc [OF Suc.prems] by auto
  obtain b where b: "isClosedSpanTree (Suc fuel) h p = Some b" using isClosedSpanTree_total [OF Suc.prems] by auto
  have child: "\<exists>x. renderSpan E fuel h spin now marks q d wd v = Some x"
    if "item \<in> set (TimelineItems h p)" "item_Span item = Some q" for item q d wd v
  proof -
    have "renderable fuel h q"
      using TimelineItems_child [OF that] renderable_child [OF Suc.prems sp] sp by auto
    then show ?thesis using Suc.IH by fastforce
  qed
  have parts: "\<exists>x. timeline_parts E (\<lambda>q. renderSpan E fuel h spin now marks q d wd) inner st (TimelineItems h p) g v = Some x"
    for d wd inner st g v
    by (rule timeline_parts_total) (metis TimelineItems_kinds child)
  obtain out v where "span_body E (\<lambda>q d wd. renderSpan E fuel h spin now marks q d wd) h spin now marks p sp depth width w = Some (out, v)"
    using span_body_total [of E "\<lambda>q d wd. renderSpan E fuel h spin now marks q d wd"] parts by metis
  with sp b show ?case by (simp add: Let_def split: option.split)
qed

lemma root_parts_total:
  "(\<And>p. p \<in> set tops \<Longrightarrow> renderable fuel h p) \<Longrightarrow> \<exists>x. root_parts E fuel h spin now marks tops width w = Some x"
proof (induction tops arbitrary: w)
  case (Cons p tops)
  obtain out v where r: "renderSpan E fuel h spin now marks p 0 width w = Some (out, v)"
    using renderSpan_total Cons.prems by (metis list.set_intros(1))
  obtain x where "root_parts E fuel h spin now marks tops width v = Some x"
    using Cons by (metis list.set_intros(2))
  with r show ?case by simp
qed simp

lemma tui_renderRoots_total:
  assumes "store_wf s"
  obtains content w' where
    "tui_renderRoots E (walk_fuel s) (heap s) (Roots s) width spin now marks w = Some (content, w')"
proof -
  obtain x where "root_parts E (walk_fuel s) (heap s) spin now marks (Roots s) width w = Some x"
    using root_parts_total [of "Roots s"] wf_renderable(1) [OF assms] by (metis Roots_def)
  with that show thesis by (cases x) (auto simp: tui_renderRoots_def)
qed

section \<open>Invariant\<close>

definition tui_inv :: "tui_model \<Rightarrow> bool" where
  "tui_inv m \<longleftrightarrow> store_ok (m_store m) \<and> int (length (roots (m_store m))) \<le> 25 \<and> m_paused m \<noteq> None"

lemma tui_invD:
  assumes "tui_inv m"
  shows "store_ok (m_store m)" and "int (length (roots (m_store m))) \<le> 25" and "m_paused m \<noteq> None"
  using assms by (simp_all add: tui_inv_def)

text \<open>A repaint changes the viewport and the caches only.\<close>

definition painted :: "tui_model \<Rightarrow> tui_model \<Rightarrow> bool" where
  "painted m m' \<longleftrightarrow> (\<exists>vp cache code. m' = m\<lparr>m_vp := vp, m_renderCache := cache, m_code := code\<rparr>)"

lemma painted_inv: "painted m m' \<Longrightarrow> tui_inv m \<Longrightarrow> tui_inv m'"
  by (auto simp: painted_def tui_inv_def)

lemma repaint_total:
  assumes "store_ok (m_store m)"
  obtains m' where "repaint W m = Some m'" and "painted m m'"
proof (cases "m_ready m")
  case True
  obtain content w where r: "tui_renderRoots (tw_env W) (walk_fuel (m_store m)) (heap (m_store m)) (Roots (m_store m)) (max 40 (m_width m - 2))
         (spinner_View (tw_lib W) (m_spinner m)) (m_now m) (StaleOpenSpanIDs (m_store m))
         \<lparr>tc_spans = Some (m_renderCache m), tc_code = m_code m\<rparr> = Some (content, w)"
    using tui_renderRoots_total [OF store_ok_wf [OF assms]] by metis
  let ?m = "m\<lparr>m_vp := vp_SetContent (tw_lib W) content (m_vp m),
         m_renderCache := (case tc_spans w of None \<Rightarrow> Map.empty | Some cache \<Rightarrow> cache), m_code := tc_code w\<rparr>"
  have "repaint W m = Some ?m" using True r by (simp add: repaint_def)
  moreover have "painted m ?m" unfolding painted_def by blast
  ultimately show thesis by (rule that)
next
  case False
  then have "repaint W m = Some m" by (simp add: repaint_def)
  moreover have "painted m m"
    by (cases m) (auto simp: painted_def)
  ultimately show thesis by (rule that)
qed


lemma HasOpenSpans_total: "store_ok s \<Longrightarrow> \<exists>b. HasOpenSpans s = Some b"
  using HasOpenSpans_refines by (auto simp: store_ok_def)

section \<open>Messages\<close>

text \<open>
  An invariant of the viewer: what repaints, the operations of the store and the admitted
  records keep, and what does not depend on the widgets, every reaction keeps.
\<close>

locale viewer_invariant =
  fixes W :: tui_world and I :: "tui_model \<Rightarrow> bool" and admits :: "tui_model \<Rightarrow> sap_record \<Rightarrow> bool"
  assumes I_inv: "I m \<Longrightarrow> tui_inv m"
    and I_frame: "I m \<Longrightarrow> m_store m' = m_store m \<Longrightarrow> m_paused m' = m_paused m \<Longrightarrow> m_code m' = m_code m
      \<Longrightarrow> m_renderCache m' = m_renderCache m \<or> m_renderCache m' = Map.empty \<Longrightarrow> I m'"
    and I_repaint: "I m \<Longrightarrow> \<exists>m'. repaint W m = Some m' \<and> I m'"
    and I_pause: "I m \<Longrightarrow> I (m\<lparr>m_paused := Some b\<rparr>)"
    and I_mark: "I m \<Longrightarrow> MarkOpenSpansStale (m_store m) now = Some st \<Longrightarrow> I (m\<lparr>m_store := st\<rparr>)"
    and I_clear_open: "I m \<Longrightarrow> ClearOpenSpans (m_store m) = Some st \<Longrightarrow> I (m\<lparr>m_store := st, m_renderCache := Map.empty\<rparr>)"
    and I_clear: "I m \<Longrightarrow> I (m\<lparr>m_store := Clear (m_store m), m_renderCache := Map.empty\<rparr>)"
    and I_event: "I m \<Longrightarrow> admits m r \<Longrightarrow> Apply (tw_rt W) (m_store m) (Some r) = Some s1 \<Longrightarrow> LimitRoots s1 25 = Some s2
      \<Longrightarrow> I (m\<lparr>m_store := s2\<rparr>)"
begin

lemma repaint_after:
  assumes "I m"
  shows "\<exists>m'. with_cmd cmd (repaint W m) = Some (m', cmd) \<and> I m'"
  using I_repaint [OF assms] by (auto simp: with_cmd_def)

lemma repaint_then:
  assumes "I m"
  shows "\<exists>m' cmd. Option.bind (repaint W m) (\<lambda>m. Some (m, f m)) = Some (m', cmd) \<and> I m'"
  using I_repaint [OF assms] by auto

text \<open>Fields the invariant does not depend on.\<close>

lemma I_update:
  assumes "I m"
  shows "I (m\<lparr>m_vp := vp\<rparr>)" "I (m\<lparr>m_help := hp\<rparr>)" "I (m\<lparr>m_conn := conn\<rparr>)" "I (m\<lparr>m_repaintPending := b\<rparr>)" "I (m\<lparr>m_stickToBottom := b\<rparr>)"
    "I (m\<lparr>m_spinner := sp, m_ticks := n\<rparr>)" "I (m\<lparr>m_spinner := sp, m_ticks := n, m_now := now\<rparr>)"
    "I (m\<lparr>m_retryTimer := sp, m_ticks := n, m_now := now\<rparr>)"
    "I (m\<lparr>m_vp := vp, m_stickToBottom := b\<rparr>)" "I (m\<lparr>m_retryTimer := tm\<rparr>)"
    "I (m\<lparr>m_ticks := n\<rparr>)" "I (m\<lparr>m_conn := conn, m_ticks := n\<rparr>)"
  by (rule I_frame [OF assms]; simp)+

lemma update_window_keeps:
  assumes "I m"
  shows "\<exists>m' cmd. update_window W width height m = Some (m', cmd) \<and> I m'"
proof -
  have "\<exists>m'. with_cmd NoCmd (repaint W x) = Some (m', NoCmd) \<and> I m'"
    if "m_store x = m_store m" "m_paused x = m_paused m" "m_code x = m_code m"
      "m_renderCache x = m_renderCache m \<or> m_renderCache x = Map.empty" for x
    by (rule repaint_after) (rule I_frame [OF assms that])
  note r = this
  show ?thesis
    unfolding update_window_def Let_def by (rule ex_comm [THEN iffD1], rule exI [of _ NoCmd], rule r) simp_all
qed

lemma togglePaused_keeps:
  assumes "I m"
  obtains m' where "tui_togglePaused m = Some m'" and "I m'" and "isPaused m' = (\<not> isPaused m)"
proof (cases "isPaused m")
  case True
  then have "tui_togglePaused m = Some (m\<lparr>m_paused := Some False\<rparr>)"
    by (simp add: tui_togglePaused_def isPaused_def)
  with I_pause [OF assms] show thesis using that True by (simp add: isPaused_def)
next
  case False
  note inv = I_inv [OF assms]
  obtain st where st: "ClearOpenSpans (m_store m) = Some st"
    using ClearOpenSpans_ok [OF tui_invD(1) [OF inv]] by blast
  let ?m = "m\<lparr>m_store := st, m_renderCache := Map.empty\<rparr>"
  have "tui_togglePaused m = Some (?m\<lparr>m_paused := Some True\<rparr>)"
    using False st tui_invD(3) [OF inv] by (simp add: tui_togglePaused_def isPaused_def)
  moreover have "I (?m\<lparr>m_paused := Some True\<rparr>)" by (intro I_pause I_clear_open assms st)
  ultimately show thesis using that False by (simp add: isPaused_def)
qed

lemma update_key_keeps:
  assumes "I m"
  shows "\<exists>m' cmd. update_key W pressed m = Some (m', cmd) \<and> I m'"
proof -
  obtain m1 where m1: "tui_togglePaused m = Some m1" "I m1"
    using togglePaused_keeps [OF assms] by blast
  note after = repaint_after [OF m1(2), of NoCmd] repaint_after [OF I_clear [OF assms], of NoCmd]
    repaint_after [OF I_update(2) [OF assms], of NoCmd "help_ToggleAll (tw_lib W) (m_help m)"]
  show ?thesis
    unfolding update_key_def Let_def using after m1(1) I_update(1) [OF assms] assms by (auto split: prod.split)
qed

lemma update_spinner_keeps:
  assumes "I m"
  shows "\<exists>m' cmd. update_spinner W msg m = Some (m', cmd) \<and> I m'"
proof -
  obtain sp cmd where sp: "spinner_Update (tw_lib W) msg (m_spinner m) = (sp, cmd)" by fastforce
  let ?m = "m\<lparr>m_spinner := sp, m_ticks := Suc (m_ticks m), m_now := tw_now W (m_ticks m)\<rparr>"
  have m: "I ?m" using assms by (rule I_update)
  obtain b where b: "HasOpenSpans (m_store m) = Some b"
    using HasOpenSpans_total [OF tui_invD(1) [OF I_inv [OF assms]]] by blast
  show ?thesis
    using repaint_after [OF m, of cmd] m
    by (cases b) (auto simp: update_spinner_def sp tui_now_def b with_cmd_def)
qed

lemma update_event_keeps:
  assumes "I m" and "\<And>r. record = Some r \<Longrightarrow> \<not> isPaused m \<Longrightarrow> admits m r"
  shows "\<exists>m' cmd. update_event W record m = Some (m', cmd) \<and> I m'"
proof (cases "isPaused m \<or> record = None")
  case True
  then show ?thesis using assms(1) by (auto simp: update_event_def)
next
  case False
  then obtain r where r: "record = Some r" "admits m r" using assms(2) by auto
  obtain s1 s2 where st: "Apply (tw_rt W) (m_store m) (Some r) = Some s1" "LimitRoots s1 25 = Some s2"
    by (rule apply_limited_ok [of "m_store m" 25 "tw_rt W" "Some r"]) (use tui_invD(1) [OF I_inv [OF assms(1)]] in auto)
  let ?m = "if vp_AtBottom (tw_lib W) (m_vp m) then m\<lparr>m_stickToBottom := True\<rparr> else m"
  let ?n = "?m\<lparr>m_store := s2\<rparr>"
  have "I (m\<lparr>m_store := s2\<rparr>)" using assms(1) r(2) st by (rule I_event)
  then have "I ?n" "I (?n\<lparr>m_repaintPending := True\<rparr>)" by (rule I_frame; simp)+
  moreover have "update_event W record m = Some (scheduleRepaint ?n)"
    using False st r(1) by (simp add: update_event_def tui_maxRoots_def Let_def)
  ultimately show ?thesis by (cases "m_repaintPending ?n") (auto simp: scheduleRepaint_def)
qed

lemma update_repaint_keeps:
  assumes "I m"
  shows "\<exists>m' cmd. update_repaint W m = Some (m', cmd) \<and> I m'"
proof -
  obtain m1 where "repaint W (m\<lparr>m_repaintPending := False\<rparr>) = Some m1" "I m1"
    using I_repaint [OF I_update(4) [OF assms]] by blast
  then show ?thesis using I_update(9) by (auto simp: update_repaint_def with_cmd_def)
qed

lemma update_state_keeps:
  assumes "I m"
  shows "\<exists>m' cmd. update_state W conn m = Some (m', cmd) \<and> I m'"
proof -
  let ?m = "m\<lparr>m_conn := conn, m_ticks := Suc (m_ticks m)\<rparr>"
  obtain st where st: "MarkOpenSpansStale (m_store m) (tw_now W (m_ticks m)) = Some st"
    using MarkOpenSpansStale_ok [OF tui_invD(1) [OF I_inv [OF assms]]] by blast
  have m: "I ?m" using assms by (rule I_update)
  have s: "I (?m\<lparr>m_store := st\<rparr>)" using I_mark [OF m, of "tw_now W (m_ticks m)"] st by simp
  have connected: "I (?m\<lparr>m_conn := conn\<lparr>cs_Err := []\<rparr>\<rparr>)" using m by (rule I_update)
  have retrying: "I (?m\<lparr>m_store := st, m_ticks := Suc (Suc (m_ticks m)), m_retryTimer := tm\<rparr>)" for tm
    using s by (rule I_frame) simp_all
  have other: "\<exists>m' cmd. with_cmd NoCmd (repaint W ?m) = Some (m', cmd) \<and> I m'"
    using repaint_after [OF m, of NoCmd] by blast
  consider "cs_State conn = StateConnected" | "cs_State conn \<noteq> StateConnected" "cs_State conn = StateRetrying"
    | "cs_State conn \<noteq> StateConnected" "cs_State conn \<noteq> StateRetrying" "cs_State conn = StateDisconnected"
    | "cs_State conn \<noteq> StateConnected" "cs_State conn \<noteq> StateRetrying" "cs_State conn \<noteq> StateDisconnected"
    by blast
  then show ?thesis
  proof cases
    case 1
    then show ?thesis using repaint_then [OF connected] by (simp add: update_state_def tui_now_def)
  next
    case 2
    then show ?thesis using repaint_then [OF retrying, where f = "\<lambda>m. timer_Init (tw_lib W) (m_retryTimer m)"] st
      by (simp add: update_state_def tui_now_def Let_def)
  next
    case 3
    then show ?thesis using repaint_then [OF s] st by (simp add: update_state_def tui_now_def)
  next
    case 4
    then show ?thesis using other by (simp add: update_state_def tui_now_def)
  qed
qed

lemma update_timer_keeps:
  assumes "I m"
  shows "\<exists>m' cmd. update_timer W msg m = Some (m', cmd) \<and> I m'"
proof -
  obtain tm cmd where tm: "timer_Update (tw_lib W) msg (m_retryTimer m) = (tm, cmd)" by fastforce
  have "I (m\<lparr>m_retryTimer := tm, m_ticks := Suc (m_ticks m), m_now := tw_now W (m_ticks m)\<rparr>)"
    using assms by (rule I_update)
  from repaint_after [OF this, of cmd] show ?thesis
    by (auto simp: update_timer_def tm tui_now_def)
qed

lemma Update_keeps:
  assumes "I m" and "\<And>r. msg = EventMsg (Some r) \<Longrightarrow> \<not> isPaused m \<Longrightarrow> admits m r"
  shows "\<exists>m' cmd. Update W msg m = Some (m', cmd) \<and> I m'"
proof (cases msg)
  case (OtherMsg s)
  with assms(1) show ?thesis by (simp add: Update_def)
next
  case (EventMsg r)
  have "\<exists>m' cmd. update_event W r m = Some (m', cmd) \<and> I m'"
    by (rule update_event_keeps [OF assms(1)]) (simp add: assms(2) EventMsg)
  then show ?thesis by (simp only: Update_def EventMsg tui_msg.case)
qed (simp_all only: Update_def tui_msg.case update_window_keeps [OF assms(1)] update_key_keeps [OF assms(1)]
    update_spinner_keeps [OF assms(1)] update_repaint_keeps [OF assms(1)] update_state_keeps [OF assms(1)] update_timer_keeps [OF assms(1)])

end

lemma tui_inv_store:
  "tui_inv m \<Longrightarrow> store_ok st \<Longrightarrow> int (length (roots st)) \<le> 25 \<Longrightarrow> tui_inv (m\<lparr>m_store := st\<rparr>)"
  by (simp add: tui_inv_def)

lemma store_op_inv:
  assumes "tui_inv m"
  shows "MarkOpenSpansStale (m_store m) now = Some st \<Longrightarrow> tui_inv (m\<lparr>m_store := st\<rparr>)"
    and "ClearOpenSpans (m_store m) = Some st \<Longrightarrow> tui_inv (m\<lparr>m_store := st\<rparr>)"
    and "tui_inv (m\<lparr>m_store := Clear (m_store m)\<rparr>)"
    and "Apply rt (m_store m) (Some r) = Some s1 \<Longrightarrow> LimitRoots s1 25 = Some s2 \<Longrightarrow> tui_inv (m\<lparr>m_store := s2\<rparr>)"
proof -
  note ok = tui_invD(1,2) [OF assms]
  show "tui_inv (m\<lparr>m_store := st\<rparr>)" if "MarkOpenSpansStale (m_store m) now = Some st"
  proof -
    obtain t where "MarkOpenSpansStale (m_store m) now = Some t" "store_ok t" "roots t = roots (m_store m)"
      using MarkOpenSpansStale_ok [OF ok(1), of now] by blast
    with that ok(2) show ?thesis by (intro tui_inv_store assms) simp_all
  qed
  show "tui_inv (m\<lparr>m_store := st\<rparr>)" if "ClearOpenSpans (m_store m) = Some st"
  proof -
    obtain t where "ClearOpenSpans (m_store m) = Some t" "store_ok t" "length (roots t) \<le> length (roots (m_store m))"
      using ClearOpenSpans_ok [OF ok(1)] by blast
    with that ok(2) show ?thesis by (intro tui_inv_store assms) simp_all
  qed
  show "tui_inv (m\<lparr>m_store := Clear (m_store m)\<rparr>)"
    using Clear_ok [OF ok(1)] by (intro tui_inv_store assms) simp_all
  show "tui_inv (m\<lparr>m_store := s2\<rparr>)" if "Apply rt (m_store m) (Some r) = Some s1" "LimitRoots s1 25 = Some s2"
  proof -
    obtain t1 t2 where "Apply rt (m_store m) (Some r) = Some t1" "LimitRoots t1 25 = Some t2" "store_ok t2" "int (length (roots t2)) \<le> 25"
      by (rule apply_limited_ok [OF ok(1), of 25 rt "Some r"]) simp_all
    with that show ?thesis by (intro tui_inv_store assms) simp_all
  qed
qed

interpretation viewer: viewer_invariant W tui_inv "\<lambda>_ _. True" for W
proof
  fix m m' :: tui_model and b now st r s1 s2
  assume inv: "tui_inv m"
  show "tui_inv m" by (rule inv)
  show "tui_inv m'" if "m_store m' = m_store m" "m_paused m' = m_paused m"
    using inv that by (simp add: tui_inv_def)
  show "\<exists>m'. repaint W m = Some m' \<and> tui_inv m'"
    using repaint_total [OF tui_invD(1) [OF inv]] painted_inv [OF _ inv] by metis
  show "tui_inv (m\<lparr>m_paused := Some b\<rparr>)" using inv by (simp add: tui_inv_def)
  show "tui_inv (m\<lparr>m_store := st\<rparr>)" if "MarkOpenSpansStale (m_store m) now = Some st"
    using inv that by (rule store_op_inv)
  show "tui_inv (m\<lparr>m_store := st, m_renderCache := Map.empty\<rparr>)" if "ClearOpenSpans (m_store m) = Some st"
    using store_op_inv(2) [OF inv that] by (simp add: tui_inv_def)
  show "tui_inv (m\<lparr>m_store := Clear (m_store m), m_renderCache := Map.empty\<rparr>)"
    using store_op_inv(3) [OF inv] by (simp add: tui_inv_def)
  show "tui_inv (m\<lparr>m_store := s2\<rparr>)" if "Apply (tw_rt W) (m_store m) (Some r) = Some s1" "LimitRoots s1 25 = Some s2"
    using inv that by (rule store_op_inv)
qed

text \<open>The program: the state and the commands returned so far.\<close>

definition tui_step :: "tui_world \<Rightarrow> tui_model \<times> tui_cmd list \<Rightarrow> tui_msg \<Rightarrow> (tui_model \<times> tui_cmd list) option" where
  "tui_step W s msg = map_option (\<lambda>(m, cmd). (m, snd s @ [cmd])) (Update W msg (fst s))"

interpretation tui_run: total_steps "\<lambda>s. tui_inv (fst s)" "tui_step W" for W
proof
  fix s :: "tui_model \<times> tui_cmd list" and msg
  assume "tui_inv (fst s)"
  from viewer.Update_keeps [OF this, of msg W] show "\<exists>s'. tui_step W s msg = Some s' \<and> tui_inv (fst s')"
    by (auto simp: tui_step_def)
qed

lemma tui_step_commands:
  "run_steps (tui_step W) s msgs = Some s' \<Longrightarrow> length (snd s') = length (snd s) + length msgs"
proof (induction msgs arbitrary: s)
  case (Cons msg msgs)
  then obtain s1 where "tui_step W s msg = Some s1" and "length (snd s') = length (snd s1) + length msgs"
    by (auto split: option.splits)
  then show ?case by (auto simp: tui_step_def)
qed simp

lemma newModel_inv: "tui_inv (newModel W (Some paused) opts)"
  using store_ok_new by (simp add: tui_inv_def newModel_def) (simp add: NewStoreWithOptions_def)

end
