(* ===== verification/Tui_Cache.thy ===== *)
theory Tui_Cache
  imports Tui_Props
begin

text \<open>
  The caches of the terminal viewer. A reference rendering without caches; caches that agree
  with it are an invariant of the viewer as long as no record adds to a closed tree, and then
  what the viewer shows is the reference rendering of its store.
\<close>

section \<open>Rendering without caches\<close>

definition plain_part :: "tui_env \<Rightarrow> int \<Rightarrow> attribute option \<Rightarrow> string" where
  "plain_part E width attr =
    (let R = Style_Render (tui_lip E); label = Attribute_GetKey attr; lang = tui_codeLanguage (Attribute_GetDisplayHints attr)
     in if lang \<noteq> [] \<or> tui_hasHint (Attribute_GetDisplayHints attr) ''code''
        then R labelStyle (label @ '':'') @ [newline] @ fst (tui_highlight (tui_chroma E) lang (Attribute_GetValue attr))
        else R [Width width] (R labelStyle (label @ '': '') @ Attribute_GetValue attr))"

definition plain_attributes :: "tui_env \<Rightarrow> attribute option list \<Rightarrow> int \<Rightarrow> string" where
  "plain_attributes E attrs width = join [newline] (map (plain_part E width) (filter (\<lambda>attr. attr \<noteq> None) attrs))"

definition plain_event :: "tui_env \<Rightarrow> int \<Rightarrow> go_time \<Rightarrow> event_state \<Rightarrow> string" where
  "plain_event E width startedAt event =
    (let attrs = plain_attributes E (ev_Attributes event) (max 1 (width - 2))
     in join [newline] (Style_Render (tui_lip E) [Width width] (event_header E width startedAt event)
          # (if attrs \<noteq> [] then [indentLines attrs ''  ''] else [])))"

definition plain_flush :: "tui_env \<Rightarrow> int \<Rightarrow> go_time \<Rightarrow> event_state list \<Rightarrow> string list" where
  "plain_flush E inner startedAt events =
    (if events = [] then [] else [separator_line E inner, join [newline] (map (plain_event E inner startedAt) events)])"

fun plain_timeline :: "tui_env \<Rightarrow> (addr \<Rightarrow> string) \<Rightarrow> int \<Rightarrow> go_time \<Rightarrow> timeline_item list \<Rightarrow> event_state list \<Rightarrow> string list" where
  "plain_timeline E render inner startedAt [] eventGroup = plain_flush E inner startedAt eventGroup"
| "plain_timeline E render inner startedAt (item # items) eventGroup =
     (case item_Event item of
        Some event \<Rightarrow> plain_timeline E render inner startedAt items (eventGroup @ [event])
      | None \<Rightarrow> plain_flush E inner startedAt eventGroup @ render (the (item_Span item)) # plain_timeline E render inner startedAt items [])"

definition plain_body :: "tui_env \<Rightarrow> (addr \<Rightarrow> nat \<Rightarrow> int \<Rightarrow> string) \<Rightarrow> span_heap \<Rightarrow> string \<Rightarrow> go_time \<Rightarrow> (string \<rightharpoonup> go_time)
    \<Rightarrow> addr \<Rightarrow> span_state \<Rightarrow> nat \<Rightarrow> int \<Rightarrow> string" where
  "plain_body E render h spin now marks p sp depth width =
    (let inner = (if width - 4 < 24 then 24 else width - 4); attrs = plain_attributes E (Attributes sp) inner
     in Style_Render (tui_lip E) [RoundedBorder, BorderForeground (span_color depth), Padding 0 1, Width (width - 2)]
          (join [newline] (span_header E sp depth inner spin now marks
             # (if ErrorMessage sp \<noteq> [] then [separator_line E inner, renderError E (ErrorMessage sp) inner] else [])
             @ (if attrs \<noteq> [] then [separator_line E inner, attrs] else [])
             @ plain_timeline E (\<lambda>q. render q (depth + 1) inner) inner (StartedAt sp) (TimelineItems h p) [])))"

primrec plain_span :: "tui_env \<Rightarrow> nat \<Rightarrow> span_heap \<Rightarrow> string \<Rightarrow> go_time \<Rightarrow> (string \<rightharpoonup> go_time) \<Rightarrow> addr \<Rightarrow> nat \<Rightarrow> int \<Rightarrow> string" where
  "plain_span E 0 h spin now marks p depth width = []"
| "plain_span E (Suc fuel) h spin now marks p depth width =
    plain_body E (plain_span E fuel h spin now marks) h spin now marks p (the (h p)) depth width"

definition plain_roots :: "tui_env \<Rightarrow> store \<Rightarrow> int \<Rightarrow> string \<Rightarrow> go_time \<Rightarrow> string" where
  "plain_roots E s width spin now = join [newline]
    (map (\<lambda>p. plain_span E (walk_fuel s) (heap s) spin now (StaleOpenSpanIDs s) p 0 width) (Roots s))"

section \<open>Highlighted code\<close>

text \<open>Languages without a NUL byte keep the keys of the cache apart.\<close>

definition code_ok :: "terminal_chroma \<Rightarrow> code_cache \<Rightarrow> bool" where
  "code_ok C code \<longleftrightarrow> (\<forall>lang src out. CHR 0x00 \<notin> set lang \<longrightarrow> code (lang @ CHR 0x00 # src) = Some out \<longrightarrow> tui_highlight C lang src = (out, True))"

lemma code_ok_empty [simp]: "code_ok C Map.empty"
  by (simp add: code_ok_def)

lemma key_unique:
  assumes "lang @ CHR 0x00 # src = lang' @ CHR 0x00 # src'" and "CHR 0x00 \<notin> set lang" and "CHR 0x00 \<notin> set lang'"
  shows "lang = lang' \<and> src = src'"
  using assms
proof (induction lang arbitrary: lang')
  case Nil
  then show ?case by (cases lang') auto
next
  case (Cons c lang)
  then show ?case by (cases lang') auto
qed

lemma highlightCode_plain:
  assumes "code_ok C code" and "CHR 0x00 \<notin> set lang"
  obtains code' where "highlightCode C lang src code = (fst (tui_highlight C lang src), code')" and "code_ok C code'"
proof (cases "code (lang @ CHR 0x00 # src)")
  case (Some out)
  then have "tui_highlight C lang src = (out, True)"
    using assms by (simp add: code_ok_def)
  with Some that assms(1) show thesis by (simp add: highlightCode_def)
next
  case None
  obtain out keep where out: "tui_highlight C lang src = (out, keep)" by fastforce
  have "code_ok C (code(lang @ CHR 0x00 # src \<mapsto> out))" if keep
    unfolding code_ok_def
  proof (intro allI impI)
    fix lang' src' out'
    assume "CHR 0x00 \<notin> set lang'" and "(code(lang @ CHR 0x00 # src \<mapsto> out)) (lang' @ CHR 0x00 # src') = Some out'"
    then show "tui_highlight C lang' src' = (out', True)"
      using assms out that key_unique [of lang' src' lang src]
      by (cases "lang' @ CHR 0x00 # src' = lang @ CHR 0x00 # src") (auto simp: code_ok_def)
  qed
  with None out that assms(1) show thesis by (cases keep) (simp_all add: highlightCode_def)
qed

definition plain_attr :: "attribute option \<Rightarrow> bool" where
  "plain_attr attr \<longleftrightarrow> CHR 0x00 \<notin> set (tui_codeLanguage (Attribute_GetDisplayHints attr))"

lemma attribute_parts_plain:
  assumes "code_ok (tui_chroma E) code" and "\<And>a. a \<in> set attrs \<Longrightarrow> plain_attr a"
  shows "\<exists>code'. attribute_parts E width attrs code = (map (plain_part E width) (filter (\<lambda>attr. attr \<noteq> None) attrs), code')
    \<and> code_ok (tui_chroma E) code'"
  using assms
proof (induction attrs arbitrary: code)
  case (Cons a attrs)
  let ?lang = "tui_codeLanguage (Attribute_GetDisplayHints a)"
  obtain code1 where c: "highlightCode (tui_chroma E) ?lang (Attribute_GetValue a) code
        = (fst (tui_highlight (tui_chroma E) ?lang (Attribute_GetValue a)), code1)" "code_ok (tui_chroma E) code1"
    using highlightCode_plain [OF Cons.prems(1), of ?lang "Attribute_GetValue a"] Cons.prems(2) [of a] by (auto simp: plain_attr_def)
  have IH: "\<exists>code'. attribute_parts E width attrs c = (map (plain_part E width) (filter (\<lambda>attr. attr \<noteq> None) attrs), code')
    \<and> code_ok (tui_chroma E) code'" if "code_ok (tui_chroma E) c" for c
    using Cons.IH [OF that] Cons.prems(2) by simp
  obtain code2 where 2: "attribute_parts E width attrs code1 = (map (plain_part E width) (filter (\<lambda>attr. attr \<noteq> None) attrs), code2)"
      "code_ok (tui_chroma E) code2"
    using IH [OF c(2)] by blast
  obtain code3 where 3: "attribute_parts E width attrs code = (map (plain_part E width) (filter (\<lambda>attr. attr \<noteq> None) attrs), code3)"
      "code_ok (tui_chroma E) code3"
    using IH [OF Cons.prems(1)] by blast
  show ?case
    using c 2 3 by (simp add: plain_part_def Let_def)
qed simp

lemma renderAttributes_plain:
  assumes "code_ok (tui_chroma E) code" and "\<And>a. a \<in> set attrs \<Longrightarrow> plain_attr a"
  obtains code' where "renderAttributes E attrs width code = (plain_attributes E attrs width, code')" and "code_ok (tui_chroma E) code'"
proof -
  have "\<exists>code'. attribute_parts E width attrs code = (map (plain_part E width) (filter (\<lambda>attr. attr \<noteq> None) attrs), code')
      \<and> code_ok (tui_chroma E) code'"
    using assms by (rule attribute_parts_plain)
  then show thesis using that unfolding renderAttributes_def plain_attributes_def by fastforce
qed

lemma event_parts_plain:
  assumes "code_ok (tui_chroma E) code" and "\<And>ev a. ev \<in> set events \<Longrightarrow> a \<in> set (ev_Attributes ev) \<Longrightarrow> plain_attr a"
  shows "\<exists>code'. event_parts E width startedAt events code = (map (plain_event E width startedAt) events, code')
    \<and> code_ok (tui_chroma E) code'"
  using assms
proof (induction events arbitrary: code)
  case (Cons ev events)
  obtain code1 where c: "renderAttributes E (ev_Attributes ev) (max 1 (width - 2)) code
      = (plain_attributes E (ev_Attributes ev) (max 1 (width - 2)), code1)" "code_ok (tui_chroma E) code1"
    using renderAttributes_plain [OF Cons.prems(1), of "ev_Attributes ev"] Cons.prems(2) [of ev] by (metis list.set_intros(1))
  obtain code2 where "event_parts E width startedAt events code1 = (map (plain_event E width startedAt) events, code2)"
      "code_ok (tui_chroma E) code2"
    using Cons.IH [OF c(2)] Cons.prems(2) by auto
  with c show ?case
    by (simp add: plain_event_def Let_def)
qed simp

definition plain_events :: "event_state list \<Rightarrow> bool" where
  "plain_events events \<longleftrightarrow> (\<forall>ev \<in> set events. \<forall>a \<in> set (ev_Attributes ev). plain_attr a)"

lemma flushEvents_plain:
  assumes "code_ok (tui_chroma E) (tc_code w)" and "plain_events events"
  obtains code' where "flushEvents E inner startedAt events w = (plain_flush E inner startedAt events, w\<lparr>tc_code := code'\<rparr>)"
    and "code_ok (tui_chroma E) code'"
proof -
  obtain code' where "event_parts E inner startedAt events (tc_code w) = (map (plain_event E inner startedAt) events, code')"
      "code_ok (tui_chroma E) code'"
    using event_parts_plain [OF assms(1), of events] assms(2) unfolding plain_events_def by blast
  then show thesis
    using that [of code'] that [of "tc_code w"] assms(1)
    by (cases events) (simp_all add: flushEvents_def plain_flush_def renderEvents_def)
qed

section \<open>Closed trees\<close>

inductive closed_tree :: "span_heap \<Rightarrow> addr \<Rightarrow> bool" for h where
  closed: "h p = Some sp \<Longrightarrow> Ended sp \<Longrightarrow> (\<And>c. c \<in> set (Children sp) \<Longrightarrow> closed_tree h c) \<Longrightarrow> closed_tree h p"

inductive_cases closed_treeE: "closed_tree h p"

lemma closed_tree_iff:
  "h p = Some sp \<Longrightarrow> closed_tree h p \<longleftrightarrow> Ended sp \<and> (\<forall>c \<in> set (Children sp). closed_tree h c)"
  by (auto elim: closed_treeE intro: closed)

lemma closed_loop_all:
  "(\<And>c b. c \<in> set cs \<Longrightarrow> isClosedSpanTree fuel h c = Some b \<Longrightarrow> b = closed_tree h c) \<Longrightarrow>
   isClosedSpanTree_loop fuel h cs = Some b \<Longrightarrow> b = (\<forall>c \<in> set cs. closed_tree h c)"
proof (induction cs arbitrary: b)
  case (Cons c cs)
  then show ?case by (fastforce split: option.splits bool.splits)
qed simp

lemma isClosedSpanTree_iff: "isClosedSpanTree fuel h p = Some b \<Longrightarrow> b = closed_tree h p"
proof (induction fuel arbitrary: p b)
  case (Suc fuel)
  show ?case
  proof (cases "h p")
    case None
    with Suc.prems show ?thesis by (auto elim: closed_treeE)
  next
    case sp: (Some sp)
    show ?thesis
    proof (cases "Ended sp")
      case True
      with Suc.prems sp have "isClosedSpanTree_loop fuel h (Children sp) = Some b" by simp
      with closed_loop_all [of "Children sp", OF Suc.IH] True closed_tree_iff [where h = h and p = p, OF sp] show ?thesis by blast
    next
      case False
      with Suc.prems sp closed_tree_iff [where h = h and p = p, OF sp] show ?thesis by simp
    qed
  qed
qed simp

text \<open>Two heaps with the same ended spans.\<close>

definition keeps_ended :: "span_heap \<Rightarrow> span_heap \<Rightarrow> bool" where
  "keeps_ended h h' \<longleftrightarrow> (\<forall>p sp. h p = Some sp \<longrightarrow> Ended sp \<longrightarrow> h' p = Some sp)"

lemma closed_tree_keeps: "closed_tree h p \<Longrightarrow> keeps_ended h h' \<Longrightarrow> closed_tree h' p \<and> h' p = h p"
proof (induction rule: closed_tree.induct)
  case (closed p sp)
  then have "h' p = Some sp" by (simp add: keeps_ended_def)
  with closed show ?case by (auto intro: closed_tree.closed)
qed

lemma closed_renderable:
  assumes "closed_tree h p" and "keeps_ended h h'" and "renderable fuel h' p"
  shows "renderable fuel h p"
proof -
  obtain t where t: "shape_addr t = p" "repr h' t" "fits fuel t"
    using assms(3) by (auto simp: renderable_def)
  have "repr h t" if "closed_tree h (shape_addr t)" "repr h' t" for t
    using that
  proof (induction t)
    case (Shape p ts)
    from Shape.prems(1) obtain sp where sp: "h p = Some sp" "\<forall>c \<in> set (Children sp). closed_tree h c"
      by (auto elim: closed_treeE)
    have "h' p = Some sp" using closed_tree_keeps [OF _ assms(2)] Shape.prems(1) sp(1) by fastforce
    with Shape.prems(2) have ts: "Children sp = map shape_addr ts" "\<forall>u \<in> set ts. repr h' u" by simp_all
    with sp Shape.IH show ?case by simp
  qed
  with t assms(1) show ?thesis by (auto simp: renderable_def)
qed

lemma TimelineItems_cong:
  assumes "h' p = h p" and "\<And>sp c. h p = Some sp \<Longrightarrow> c \<in> set (Children sp) \<Longrightarrow> h' c = h c"
  shows "TimelineItems h' p = TimelineItems h p"
proof (cases "h p")
  case (Some sp)
  have "child_items h' (Children sp) = child_items h (Children sp)"
    using assms(2) [OF Some] unfolding child_items_def by (auto intro!: arg_cong [where f = concat] split: option.splits)
  with assms(1) Some show ?thesis by (simp add: TimelineItems_def timeline_base)
qed (use assms(1) in \<open>simp add: TimelineItems_def\<close>)

lemma plain_timeline_cong:
  assumes "\<And>item q. item \<in> set items \<Longrightarrow> item_Span item = Some q \<Longrightarrow> render q = render' q"
    and "\<And>item. item \<in> set items \<Longrightarrow> item_Event item = None \<Longrightarrow> item_Span item \<noteq> None"
  shows "plain_timeline E render inner startedAt items events = plain_timeline E render' inner startedAt items events"
  using assms
proof (induction items arbitrary: events)
  case (Cons item items)
  have "plain_timeline E render inner startedAt items g = plain_timeline E render' inner startedAt items g" for g
    by (rule Cons.IH) (rule Cons.prems, simp_all add: Cons.prems(2) del: not_None_eq)
  moreover have "render (the (item_Span item)) = render' (the (item_Span item))" if "item_Event item = None"
    using Cons.prems(1) [of item] Cons.prems(2) [of item] that by auto
  ultimately show ?case by (simp split: option.split)
qed simp

lemma TimelineItems_event:
  assumes "item \<in> set (TimelineItems h p)" and "item_Event item = Some ev" and "h p = Some sp"
  shows "Some ev \<in> set (Events sp)"
proof -
  have "item \<in> set (number_from 0 (event_items (Events sp) @ child_items h (Children sp)))"
    using assms(1,3) by (simp add: TimelineItems_def timeline_base flip: set_mset_mset)
  then obtain item' i where "item' \<in> set (event_items (Events sp) @ child_items h (Children sp))"
      "item = item'\<lparr>item_Index := i\<rparr>"
    using number_from_member by blast
  with assms(2) show ?thesis
    by (fastforce simp: event_items_def child_items_def split: option.splits)
qed

lemma plain_span_fuel:
  "renderable fuel h p \<Longrightarrow> renderable fuel' h p \<Longrightarrow>
   plain_span E fuel h spin now marks p depth width = plain_span E fuel' h spin now marks p depth width"
proof (induction fuel arbitrary: fuel' p depth width)
  case 0
  then show ?case by (simp add: renderable_def)
next
  case (Suc fuel)
  obtain f where f: "fuel' = Suc f" using Suc.prems(2) by (cases fuel') (auto simp: renderable_def)
  have child: "plain_span E fuel h spin now marks q d wd = plain_span E f h spin now marks q d wd"
    if "item \<in> set (TimelineItems h p)" "item_Span item = Some q" for item q d wd
    using TimelineItems_child [OF that] renderable_child [of _ h p] Suc f by metis
  have "plain_timeline E (\<lambda>q. plain_span E fuel h spin now marks q d wd) inner st (TimelineItems h p) []
      = plain_timeline E (\<lambda>q. plain_span E f h spin now marks q d wd) inner st (TimelineItems h p) []" for d wd inner st
    by (rule plain_timeline_cong) (erule (1) child, metis TimelineItems_kinds option.distinct(1))
  then show ?case by (simp add: f plain_body_def)
qed

section \<open>Data that can be cached\<close>

text \<open>A span whose highlighted code has keys of its own and whose end has a time.\<close>

definition plain_data :: "span_state \<Rightarrow> bool" where
  "plain_data sp \<longleftrightarrow> (\<forall>a \<in> set (Attributes sp). plain_attr a) \<and>
     (\<forall>ev. Some ev \<in> set (Events sp) \<longrightarrow> (\<forall>a \<in> set (ev_Attributes ev). plain_attr a)) \<and>
     (Ended sp \<longrightarrow> \<not> IsZero (EndedAt sp))"

definition plain_heap :: "addr set \<Rightarrow> span_heap \<Rightarrow> (string \<rightharpoonup> addr) \<Rightarrow> bool" where
  "plain_heap T h ids \<longleftrightarrow> (\<forall>p \<in> T. \<exists>sp. h p = Some sp \<and> set (Children sp) \<subseteq> T \<and> ids (SpanID sp) = Some p \<and> plain_data sp)"

lemma plain_heapD:
  assumes "plain_heap T h ids" and "p \<in> T"
  obtains sp where "h p = Some sp" and "set (Children sp) \<subseteq> T" and "ids (SpanID sp) = Some p" and "plain_data sp"
  using assms by (auto simp: plain_heap_def)

lemma span_header_closed:
  "Ended sp \<Longrightarrow> plain_data sp \<Longrightarrow> span_header E sp depth inner spin now marks = span_header E sp depth inner spin' now' marks'"
  by (simp add: span_header_def statusView_def tui_timingView_def plain_data_def)

text \<open>A closed tree looks the same whatever the spinner, the clock and the marks are.\<close>

lemma plain_span_closed:
  "closed_tree h p \<Longrightarrow> keeps_ended h h' \<Longrightarrow> plain_heap T h ids \<Longrightarrow> p \<in> T \<Longrightarrow>
   plain_span E fuel h' spin' now' marks' p depth width = plain_span E fuel h spin now marks p depth width"
proof (induction arbitrary: fuel depth width rule: closed_tree.induct)
  case (closed p sp)
  obtain f where f: "fuel = 0 \<or> fuel = Suc f" by (cases fuel) auto
  obtain sp' where "h p = Some sp'" "set (Children sp') \<subseteq> T" "plain_data sp'"
    using closed.prems(2,3) by (rule plain_heapD)
  then have sp: "h' p = Some sp" "plain_data sp" "set (Children sp) \<subseteq> T"
    using closed(1,2) closed.prems(1) by (simp_all add: keeps_ended_def)
  have items: "TimelineItems h' p = TimelineItems h p"
    using closed sp(1) closed_tree_keeps [OF _ closed.prems(1)] by (intro TimelineItems_cong) auto
  have child: "plain_span E f h' spin' now' marks' q d wd = plain_span E f h spin now marks q d wd"
    if "item \<in> set (TimelineItems h p)" "item_Span item = Some q" for item q d wd
    using TimelineItems_child [OF that] closed sp(3) by auto
  have "plain_timeline E (\<lambda>q. plain_span E f h' spin' now' marks' q d wd) inner st (TimelineItems h p) []
      = plain_timeline E (\<lambda>q. plain_span E f h spin now marks q d wd) inner st (TimelineItems h p) []" for d wd inner st
    by (rule plain_timeline_cong) (erule (1) child, metis TimelineItems_kinds option.distinct(1))
  with f show ?case
    using closed(1) sp(1) span_header_closed [OF closed(2) sp(2), of E depth _ spin' now' marks' spin now marks]
    by (auto simp: plain_body_def items)
qed

section \<open>Caches that agree with the reference\<close>

definition spans_ok :: "tui_env \<Rightarrow> span_heap \<Rightarrow> (string \<rightharpoonup> addr) \<Rightarrow> (spanRenderCacheKey \<rightharpoonup> string) \<Rightarrow> bool" where
  "spans_ok E h ids cache \<longleftrightarrow> (\<forall>i d wd out p. cache \<lparr>key_spanID = i, key_depth = d, key_width = wd\<rparr> = Some out \<longrightarrow> ids i = Some p \<longrightarrow>
     closed_tree h p \<and> (\<forall>fuel spin now marks. renderable fuel h p \<longrightarrow> plain_span E fuel h spin now marks p d wd = out))"

lemma spans_ok_empty [simp]: "spans_ok E h ids Map.empty"
  by (simp add: spans_ok_def)

lemma spans_okD:
  assumes "spans_ok E h ids cache" and "cache \<lparr>key_spanID = i, key_depth = d, key_width = wd\<rparr> = Some out" and "ids i = Some p"
  shows "closed_tree h p" and "renderable fuel h p \<Longrightarrow> plain_span E fuel h spin now marks p d wd = out"
  using assms unfolding spans_ok_def by blast+

lemma spans_ok_insert:
  assumes "spans_ok E h ids cache" and "plain_heap T h ids" and "p \<in> T" and "h p = Some sp" and "closed_tree h p" and "renderable fuel h p"
  shows "spans_ok E h ids (cache(\<lparr>key_spanID = SpanID sp, key_depth = d, key_width = wd\<rparr> \<mapsto> plain_span E fuel h spin now marks p d wd))"
  unfolding spans_ok_def
proof (intro allI impI)
  fix i d' wd' out q
  assume new: "(cache(\<lparr>key_spanID = SpanID sp, key_depth = d, key_width = wd\<rparr> \<mapsto> plain_span E fuel h spin now marks p d wd))
      \<lparr>key_spanID = i, key_depth = d', key_width = wd'\<rparr> = Some out" and q: "ids i = Some q"
  have keeps: "keeps_ended h h" by (simp add: keeps_ended_def)
  have ids: "ids (SpanID sp) = Some p" using plain_heapD [OF assms(2,3)] assms(4) by auto
  show "closed_tree h q \<and> (\<forall>fuel spin now marks. renderable fuel h q \<longrightarrow> plain_span E fuel h spin now marks q d' wd' = out)"
  proof (cases "i = SpanID sp \<and> d' = d \<and> wd' = wd")
    case True
    with q ids have "q = p" by simp
    moreover have "plain_span E f h spin' now' marks' p d wd = out" if "renderable f h p" for f spin' now' marks'
    proof -
      have "plain_span E f h spin' now' marks' p d wd = plain_span E fuel h spin' now' marks' p d wd"
        using that assms(6) by (rule plain_span_fuel)
      also have "\<dots> = plain_span E fuel h spin now marks p d wd"
        using assms(5) keeps assms(2,3) by (rule plain_span_closed)
      finally show ?thesis using True new by simp
    qed
    ultimately show ?thesis using True assms(5) by simp
  next
    case False
    with new have "cache \<lparr>key_spanID = i, key_depth = d', key_width = wd'\<rparr> = Some out" by (auto split: if_splits)
    from spans_okD [OF assms(1) this q] show ?thesis by blast
  qed
qed

definition caches_ok :: "tui_env \<Rightarrow> span_heap \<Rightarrow> (string \<rightharpoonup> addr) \<Rightarrow> tui_caches \<Rightarrow> bool" where
  "caches_ok E h ids w \<longleftrightarrow> code_ok (tui_chroma E) (tc_code w) \<and> (\<forall>cache. tc_spans w = Some cache \<longrightarrow> spans_ok E h ids cache)"

lemma caches_ok_code [simp]:
  "caches_ok E h ids w \<Longrightarrow> code_ok (tui_chroma E) code \<Longrightarrow> caches_ok E h ids (w\<lparr>tc_code := code\<rparr>)"
  by (simp add: caches_ok_def)

section \<open>Cached rendering\<close>

lemma timeline_parts_plain:
  assumes "caches_ok E h ids w" and "plain_events eventGroup"
    and "\<And>item ev. item \<in> set items \<Longrightarrow> item_Event item = Some ev \<Longrightarrow> plain_events [ev]"
    and "\<And>item. item \<in> set items \<Longrightarrow> item_Event item = None \<Longrightarrow> \<exists>q. item_Span item = Some q \<and>
      (\<forall>v. caches_ok E h ids v \<longrightarrow> (\<exists>v'. render q v = Some (plain q, v') \<and> caches_ok E h ids v'))"
  shows "\<exists>w'. timeline_parts E render inner startedAt items eventGroup w = Some (plain_timeline E plain inner startedAt items eventGroup, w')
    \<and> caches_ok E h ids w'"
  using assms
proof (induction items arbitrary: eventGroup w)
  case Nil
  then obtain code where "flushEvents E inner startedAt eventGroup w = (plain_flush E inner startedAt eventGroup, w\<lparr>tc_code := code\<rparr>)"
      "code_ok (tui_chroma E) code"
    using flushEvents_plain [of E w eventGroup] unfolding caches_ok_def by metis
  with Nil.prems(1) show ?case by simp
next
  case (Cons item items)
  have IH: "\<exists>w'. timeline_parts E render inner startedAt items g v = Some (plain_timeline E plain inner startedAt items g, w')
      \<and> caches_ok E h ids w'" if "caches_ok E h ids v" "plain_events g" for g v
    by (rule Cons.IH [OF that]) (rule Cons.prems(3), simp_all, rule Cons.prems(4), simp_all)
  show ?case
  proof (cases "item_Event item")
    case (Some ev)
    have "plain_events (eventGroup @ [ev])"
      using Cons.prems(2) Cons.prems(3) [of item ev] Some by (auto simp: plain_events_def)
    from IH [OF Cons.prems(1) this] Some show ?thesis by simp
  next
    case None
    obtain q where q: "item_Span item = Some q"
        "\<And>v. caches_ok E h ids v \<Longrightarrow> \<exists>v'. render q v = Some (plain q, v') \<and> caches_ok E h ids v'"
      using Cons.prems(4) [of item] None by auto
    obtain code where f: "flushEvents E inner startedAt eventGroup w = (plain_flush E inner startedAt eventGroup, w\<lparr>tc_code := code\<rparr>)"
        "code_ok (tui_chroma E) code"
      using flushEvents_plain [OF _ Cons.prems(2), of E w] Cons.prems(1) unfolding caches_ok_def by metis
    obtain v where v: "render q (w\<lparr>tc_code := code\<rparr>) = Some (plain q, v)" "caches_ok E h ids v"
      using q(2) [of "w\<lparr>tc_code := code\<rparr>"] Cons.prems(1) f(2) by auto
    obtain u where "timeline_parts E render inner startedAt items [] v = Some (plain_timeline E plain inner startedAt items [], u)"
        "caches_ok E h ids u"
      using IH [OF v(2), of "[]"] by (auto simp: plain_events_def)
    with None q(1) f(1) v(1) show ?thesis by simp
  qed
qed

lemma span_body_plain:
  assumes "caches_ok E h ids w" and "h p = Some sp" and "plain_data sp"
    and "\<And>q d wd v. q \<in> set (Children sp) \<Longrightarrow> caches_ok E h ids v \<Longrightarrow> \<exists>v'. render q d wd v = Some (plain q d wd, v') \<and> caches_ok E h ids v'"
  shows "\<exists>w'. span_body E render h spin now marks p sp depth width w = Some (plain_body E plain h spin now marks p sp depth width, w')
    \<and> caches_ok E h ids w'"
proof -
  let ?inner = "if width - 4 < 24 then 24 else width - 4"
  have "code_ok (tui_chroma E) (tc_code w)" "\<And>a. a \<in> set (Attributes sp) \<Longrightarrow> plain_attr a"
    using assms(1,3) by (simp_all add: caches_ok_def plain_data_def)
  then obtain code where a: "renderAttributes E (Attributes sp) ?inner (tc_code w) = (plain_attributes E (Attributes sp) ?inner, code)"
      "code_ok (tui_chroma E) code"
    by (rule renderAttributes_plain)
  have "\<exists>w'. timeline_parts E (\<lambda>q. render q (depth + 1) ?inner) ?inner (StartedAt sp) (TimelineItems h p) [] (w\<lparr>tc_code := code\<rparr>)
      = Some (plain_timeline E (\<lambda>q. plain q (depth + 1) ?inner) ?inner (StartedAt sp) (TimelineItems h p) [], w') \<and> caches_ok E h ids w'"
  proof (rule timeline_parts_plain)
    show "caches_ok E h ids (w\<lparr>tc_code := code\<rparr>)" using assms(1) a(2) by simp
    show "plain_events [ev]" if "item \<in> set (TimelineItems h p)" "item_Event item = Some ev" for item ev
      using TimelineItems_event [OF that assms(2)] assms(3) by (simp add: plain_events_def plain_data_def)
    show "\<exists>q. item_Span item = Some q \<and> (\<forall>v. caches_ok E h ids v \<longrightarrow>
        (\<exists>v'. render q (depth + 1) ?inner v = Some (plain q (depth + 1) ?inner, v') \<and> caches_ok E h ids v'))"
      if "item \<in> set (TimelineItems h p)" "item_Event item = None" for item
    proof -
      obtain q where q: "item_Span item = Some q" by (rule TimelineItems_kinds [OF \<open>item \<in> set _\<close> \<open>item_Event item = None\<close>])
      with TimelineItems_child [OF that(1)] assms(2) have "q \<in> set (Children sp)" by auto
      from q assms(4) [OF this] show ?thesis by blast
    qed
  qed (simp add: plain_events_def)
  then obtain u where "timeline_parts E (\<lambda>q. render q (depth + 1) ?inner) ?inner (StartedAt sp) (TimelineItems h p) [] (w\<lparr>tc_code := code\<rparr>)
      = Some (plain_timeline E (\<lambda>q. plain q (depth + 1) ?inner) ?inner (StartedAt sp) (TimelineItems h p) [], u)" "caches_ok E h ids u"
    by blast
  with a(1) show ?thesis
    by (auto simp: span_body_def plain_body_def Let_def)
qed

lemma renderSpan_plain:
  "renderable fuel h p \<Longrightarrow> p \<in> T \<Longrightarrow> plain_heap T h ids \<Longrightarrow> caches_ok E h ids w \<Longrightarrow>
   \<exists>w'. renderSpan E fuel h spin now marks p depth width w = Some (plain_span E fuel h spin now marks p depth width, w')
     \<and> caches_ok E h ids w'"
proof (induction fuel arbitrary: p depth width w)
  case 0
  then show ?case by (simp add: renderable_def)
next
  case (Suc fuel)
  obtain sp where sp: "h p = Some sp" "set (Children sp) \<subseteq> T" "ids (SpanID sp) = Some p" "plain_data sp"
    using plain_heapD [OF Suc.prems(3,2)] by blast
  obtain b where b: "isClosedSpanTree (Suc fuel) h p = Some b" using isClosedSpanTree_total [OF Suc.prems(1)] by auto
  then have closed: "b = closed_tree h p" by (rule isClosedSpanTree_iff)
  let ?key = "\<lparr>key_spanID = SpanID sp, key_depth = depth, key_width = width\<rparr>"
  let ?hit = "if b then Option.bind (tc_spans w) (\<lambda>cache. cache ?key) else None"
  show ?case
  proof (cases ?hit)
    case (Some out)
    then obtain cache where "tc_spans w = Some cache" "cache ?key = Some out" by (auto split: if_splits bind_splits)
    with Suc.prems(4) have "spans_ok E h ids cache" by (simp add: caches_ok_def)
    with \<open>cache ?key = Some out\<close> sp(3) Suc.prems(1) have "plain_span E (Suc fuel) h spin now marks p depth width = out"
      by (intro spans_okD(2))
    with Some b sp(1) Suc.prems(4) show ?thesis by (simp add: Let_def del: plain_span.simps isClosedSpanTree.simps)
  next
    case None
    have "\<exists>w'. span_body E (\<lambda>q d wd. renderSpan E fuel h spin now marks q d wd) h spin now marks p sp depth width w
        = Some (plain_body E (\<lambda>q d wd. plain_span E fuel h spin now marks q d wd) h spin now marks p sp depth width, w') \<and> caches_ok E h ids w'"
    proof (rule span_body_plain [OF Suc.prems(4) sp(1,4)])
      fix q d wd v
      assume "q \<in> set (Children sp)" and "caches_ok E h ids v"
      with Suc.prems(3) sp(2) renderable_child [OF Suc.prems(1) sp(1)]
      show "\<exists>v'. renderSpan E fuel h spin now marks q d wd v = Some (plain_span E fuel h spin now marks q d wd, v') \<and> caches_ok E h ids v'"
        by (intro Suc.IH) auto
    qed
    then obtain u where u: "span_body E (\<lambda>q d wd. renderSpan E fuel h spin now marks q d wd) h spin now marks p sp depth width w
        = Some (plain_span E (Suc fuel) h spin now marks p depth width, u)" "caches_ok E h ids u"
      using sp(1) by auto
    let ?u = "if b then u\<lparr>tc_spans := map_option (\<lambda>cache. cache(?key \<mapsto> plain_span E (Suc fuel) h spin now marks p depth width)) (tc_spans u)\<rparr> else u"
    have "caches_ok E h ids ?u"
      using u(2) spans_ok_insert [OF _ Suc.prems(3,2) sp(1) _ Suc.prems(1)] closed
      by (auto simp: caches_ok_def simp del: plain_span.simps)
    with None b sp(1) u(1) show ?thesis
      by (simp add: Let_def del: plain_span.simps isClosedSpanTree.simps)
  qed
qed

lemma root_parts_plain:
  assumes "plain_heap T h ids"
  shows "(\<And>p. p \<in> set tops \<Longrightarrow> renderable fuel h p \<and> p \<in> T) \<Longrightarrow> caches_ok E h ids w \<Longrightarrow>
    \<exists>w'. root_parts E fuel h spin now marks tops width w = Some (map (\<lambda>p. plain_span E fuel h spin now marks p 0 width) tops, w')
      \<and> caches_ok E h ids w'"
proof (induction tops arbitrary: w)
  case (Cons p tops)
  obtain v where v: "renderSpan E fuel h spin now marks p 0 width w = Some (plain_span E fuel h spin now marks p 0 width, v)" "caches_ok E h ids v"
    using renderSpan_plain [OF _ _ assms Cons.prems(2)] Cons.prems(1) by (metis list.set_intros(1))
  obtain u where "root_parts E fuel h spin now marks tops width v = Some (map (\<lambda>p. plain_span E fuel h spin now marks p 0 width) tops, u)" "caches_ok E h ids u"
    using Cons.IH [OF _ v(2)] Cons.prems(1) by (metis list.set_intros(2))
  with v(1) show ?case by simp
qed simp

section \<open>Stores that can be cached\<close>

definition plain_store :: "store \<Rightarrow> bool" where
  "plain_store s \<longleftrightarrow> (\<exists>a. refines s a \<and> forest_all plain_data a)"

lemma plain_data_children [simp]: "plain_data (sp\<lparr>Children := cs\<rparr>) = plain_data sp"
  by (simp add: plain_data_def)

lemma shape_children:
  assumes "store_shape s ts" and "byID s i = Some p"
  obtains sp where "heap s p = Some sp" and "SpanID sp = i" and "set (Children sp) \<subseteq> ran (byID s)"
proof -
  have p: "p \<in> set (forest_addrs ts)" "sid (heap s) p = i"
    using assms store_shapeD(4) [OF assms(1)] by auto
  then obtain t where t: "t \<in> set ts" "p \<in> set (addrs t)" by auto
  obtain u where u: "shape_addr u = p" "repr (heap s) u" "set (addrs u) \<subseteq> set (addrs t)"
    using sub_shape_within [OF store_shapeD(2) [OF assms(1) t(1)] t(2)] by blast
  obtain sp where sp: "heap s p = Some sp" "Children sp = map shape_addr (shape_kids u)"
    using repr_shape_addr [OF u(2)] u(1) by auto
  have "c \<in> ran (byID s)" if "c \<in> set (Children sp)" for c
  proof -
    obtain v where "v \<in> set (shape_kids u)" "shape_addr v = c" using \<open>c \<in> set (Children sp)\<close> sp(2) by auto
    then have "c \<in> set (addrs u)" by (subst addrs_eq) (use shape_addr_in [of v] in auto)
    with u(3) t(1) have "c \<in> set (forest_addrs ts)" by auto
    then have "byID s (sid (heap s) c) = Some c" using store_shapeD(4) [OF assms(1)] by blast
    then show ?thesis by (rule ranI)
  qed
  with sp(1) p(2) that show thesis by (auto simp: sid_def)
qed

lemma plain_store_heap:
  assumes "plain_store s"
  shows "plain_heap (ran (byID s)) (heap s) (byID s)"
proof -
  obtain a ts where a: "refines s a" "forest_all plain_data a" "store_shape s ts"
    using assms by (auto simp: plain_store_def refines_def)
  show ?thesis
    unfolding plain_heap_def
  proof
    fix p
    assume "p \<in> ran (byID s)"
    then obtain i where i: "byID s i = Some p" by (auto simp: ran_def)
    obtain sp where sp: "heap s p = Some sp" "SpanID sp = i" "set (Children sp) \<subseteq> ran (byID s)"
      using a(3) i by (rule shape_children)
    have "plain_data (span_data (heap s) p)" using a(1,2) i by (rule forest_all_data)
    with sp i show "\<exists>sp. heap s p = Some sp \<and> set (Children sp) \<subseteq> ran (byID s) \<and> byID s (SpanID sp) = Some p \<and> plain_data sp"
      by (simp add: span_data_def)
  qed
qed

lemma roots_tracked: "store_wf s \<Longrightarrow> p \<in> set (roots s) \<Longrightarrow> p \<in> ran (byID s)"
proof -
  assume "store_wf s" and "p \<in> set (roots s)"
  then obtain ts where ts: "store_shape s ts" "p \<in> set (roots s)" by (auto simp: store_wf_def)
  then obtain t where "t \<in> set ts" "p \<in> set (addrs t)" using store_shapeD(1) [OF ts(1)] by auto
  then have "p \<in> set (forest_addrs ts)" by auto
  then have "byID s (sid (heap s) p) = Some p" using store_shapeD(4) [OF ts(1)] by blast
  then show ?thesis by (rule ranI)
qed

text \<open>What the operations do to the ended spans and to the index.\<close>

lemma deleteSpan_sub:
  "deleteSpan fuel h p m = Some m' \<Longrightarrow> fst m' \<subseteq>\<^sub>m fst m"
  "deleteSpan_loop fuel h cs m = Some m' \<Longrightarrow> fst m' \<subseteq>\<^sub>m fst m"
proof (induction fuel h p m and fuel h cs m arbitrary: m' and m' rule: deleteSpan_deleteSpan_loop.induct)
  case (2 fuel h p m)
  show ?case
  proof (cases "h p")
    case (Some sp)
    with "2.prems" have "deleteSpan_loop fuel h (Children sp) ((fst m)(SpanID sp := None), (snd m)(SpanID sp := None)) = Some m'"
      by simp
    from "2.IH" [OF Some this] have "fst m' \<subseteq>\<^sub>m (fst m)(SpanID sp := None)" by (simp only: fst_conv)
    then show ?thesis by (auto simp: map_le_def split: if_splits)
  qed (use 2 in simp)
next
  case (4 fuel h c cs m)
  then obtain m1 where m1: "deleteSpan fuel h c m = Some m1" "deleteSpan_loop fuel h cs m1 = Some m'"
    by (auto split: option.splits)
  from "4.IH"(2) [OF m1] "4.IH"(1) [OF m1(1)] show ?case by (rule map_le_trans)
qed auto

lemma LimitRoots_reads:
  assumes "LimitRoots s n = Some s'"
  shows "heap s' = heap s" and "byID s' \<subseteq>\<^sub>m byID s" and "next_addr s' = next_addr s"
  using assms deleteSpan_sub(2) by (fastforce simp: LimitRoots_def Clear_def Let_def split: if_splits)+

text \<open>A record that adds to no ended span.\<close>

definition orderly :: "store \<Rightarrow> sap_record option \<Rightarrow> bool" where
  "orderly s r \<longleftrightarrow> (case byID s (SpanStarted_GetParentSpanId (Record_GetSpanStarted r)) of
     None \<Rightarrow> True | Some q \<Rightarrow> (case heap s q of None \<Rightarrow> True | Some sp \<Rightarrow> \<not> Ended sp))"

definition started_id :: "sap_record option \<Rightarrow> string option" where
  "started_id r = (if Record_GetSpanStarted r = None then None else Some (SpanStarted_GetSpanId (Record_GetSpanStarted r)))"

lemma applyStarted_keeps:
  assumes "applyStarted rt s started = Some s'" and "heap s (next_addr s) = None"
    and "case byID s (SpanStarted_GetParentSpanId started) of
     None \<Rightarrow> True | Some q \<Rightarrow> (case heap s q of None \<Rightarrow> True | Some sp \<Rightarrow> \<not> Ended sp)"
  shows "keeps_ended (heap s) (heap s')" and "byID s' i = Some p \<Longrightarrow> byID s i = Some p \<or> started \<noteq> None \<and> i = SpanStarted_GetSpanId started"
  using assms by (auto simp: applyStarted_def Let_def keeps_ended_def assign_def split: if_splits option.splits)

lemma apply_open_keeps:
  assumes "apply_open s i f = Some s'"
  shows "keeps_ended (heap s) (heap s')" and "byID s' = byID s"
  using assms by (auto simp: apply_open_def keeps_ended_def assign_def split: if_splits option.splits)

lemma Apply_keeps:
  assumes "Apply rt s r = Some s'" and "heap s (next_addr s) = None" and "orderly s r"
  shows "keeps_ended (heap s) (heap s')" and "byID s' i = Some p \<Longrightarrow> byID s i = Some p \<or> started_id r = Some i"
proof -
  have refl: "keeps_ended h h" for h by (simp add: keeps_ended_def)
  show "keeps_ended (heap s) (heap s')"
    using assms applyStarted_keeps(1) [of rt s "Record_GetSpanStarted r" s'] apply_open_keeps(1) refl
    unfolding Apply_def apply_open_updates orderly_def
    by (auto split: if_splits case_Record_Kind.splits)
  show "byID s i = Some p \<or> started_id r = Some i" if "byID s' i = Some p"
    using assms applyStarted_keeps(2) [of rt s "Record_GetSpanStarted r" s' i p] apply_open_keeps(2) that
    unfolding Apply_def apply_open_updates orderly_def started_id_def
    by (auto split: if_splits case_Record_Kind.splits)
qed

lemma spans_ok_step:
  assumes "spans_ok E h ids cache" and "keeps_ended h h'" and "plain_heap T h ids" and "ran ids \<subseteq> T"
    and "\<And>i p d wd. ids' i = Some p \<Longrightarrow> cache \<lparr>key_spanID = i, key_depth = d, key_width = wd\<rparr> \<noteq> None \<Longrightarrow> ids i = Some p"
  shows "spans_ok E h' ids' cache"
  unfolding spans_ok_def
proof (intro allI impI)
  fix i d wd out p
  assume out: "cache \<lparr>key_spanID = i, key_depth = d, key_width = wd\<rparr> = Some out" and "ids' i = Some p"
  then have i: "ids i = Some p" using assms(5) by blast
  then have p: "p \<in> T" using assms(4) by (auto simp: ran_def)
  note ok = spans_okD [OF assms(1) out i]
  have "plain_span E fuel h' spin now marks p d wd = out" if "renderable fuel h' p" for fuel spin now marks
    using plain_span_closed [OF ok(1) assms(2,3) p] ok(2) [OF closed_renderable [OF ok(1) assms(2) that]] by metis
  then show "closed_tree h' p \<and> (\<forall>fuel spin now marks. renderable fuel h' p \<longrightarrow> plain_span E fuel h' spin now marks p d wd = out)"
    using closed_tree_keeps [OF ok(1) assms(2)] by blast
qed

section \<open>Records that can be cached\<close>

definition plain_attrs :: "attribute option list \<Rightarrow> bool" where
  "plain_attrs attrs \<longleftrightarrow> (\<forall>a \<in> set attrs. plain_attr a)"

definition plain_record :: "pb_runtime \<Rightarrow> sap_record option \<Rightarrow> bool" where
  "plain_record rt r \<longleftrightarrow> plain_attrs (SpanStarted_GetAttributes (Record_GetSpanStarted r))
     \<and> plain_attrs (SpanUpdated_GetAttributes (Record_GetSpanUpdated r))
     \<and> plain_attrs (SpanEvent_GetAttributes (Record_GetSpanEvent r))
     \<and> (Record_GetSpanEnded r \<noteq> None \<longrightarrow> \<not> IsZero (AsTime rt (SpanEnded_GetEndedAt (Record_GetSpanEnded r))))"

lemma plain_clone:
  assumes "pb_laws rt" and "plain_attrs attrs"
  shows "plain_attrs (state_cloneAttributes rt attrs)"
  using assms(2) by (auto simp: plain_attrs_def state_cloneAttributes_eq cloneAttributes_laws [OF assms(1)])

lemma plain_clone_one:
  assumes "pb_laws rt" and "plain_attr a" and "a \<noteq> None"
  shows "plain_attr (state_cloneAttributes rt [a] ! 0)"
  using assms by (auto simp: state_cloneAttributes_eq cloneAttributes_laws [OF assms(1)])

lemma plain_replace:
  assumes "pb_laws rt" and "plain_attr a" and "a \<noteq> None"
  shows "plain_attrs attrs \<Longrightarrow> replace_attr rt a attrs = Some attrs' \<Longrightarrow> plain_attrs attrs'"
proof (induction attrs arbitrary: attrs')
  case (Cons b attrs)
  then show ?case
    using plain_clone_one [OF assms] by (auto simp: plain_attrs_def split: if_splits)
qed simp

lemma plain_update:
  assumes "pb_laws rt"
  shows "plain_attrs incoming \<Longrightarrow> plain_attrs attrs \<Longrightarrow> plain_attrs (update_attrs rt incoming attrs)"
proof (induction incoming arbitrary: attrs)
  case (Cons a incoming)
  have a: "plain_attr a" and rest: "plain_attrs incoming" using Cons.prems(1) by (simp_all add: plain_attrs_def)
  show ?case
  proof (cases "a = None \<or> Attribute_GetKey a = []")
    case True
    then show ?thesis using Cons.IH [OF rest Cons.prems(2)] by auto
  next
    case False
    then have "plain_attrs (case replace_attr rt a attrs of Some attrs' \<Rightarrow> attrs' | None \<Rightarrow> attrs @ [state_cloneAttributes rt [a] ! 0])"
      using plain_replace [OF assms a _ Cons.prems(2)] plain_clone_one [OF assms a] Cons.prems(2)
      by (auto simp: plain_attrs_def split: option.split)
    from Cons.IH [OF rest this] False show ?thesis by (simp only: update_attrs.simps if_False)
  qed
qed simp

interpretation plain: span_predicate plain_data "\<lambda>r. pb_laws rt \<and> plain_record rt r" rt for rt
proof
  fix r d
  assume r: "pb_laws rt \<and> plain_record rt r"
  show "plain_data (started_span rt (Record_GetSpanStarted r))"
    using r plain_clone [of rt "SpanStarted_GetAttributes (Record_GetSpanStarted r)"]
    by (simp add: plain_data_def started_span_def plain_record_def plain_attrs_def)
  assume d: "plain_data d"
  show "plain_data (updated_span rt (Record_GetSpanUpdated r) d)"
    using r d plain_update [of rt "SpanUpdated_GetAttributes (Record_GetSpanUpdated r)" "Attributes d"]
    by (simp add: plain_data_def updated_span_def plain_record_def plain_attrs_def)
  show "plain_data (event_span rt (Record_GetSpanEvent r) d)"
    using r d plain_clone [of rt "SpanEvent_GetAttributes (Record_GetSpanEvent r)"]
    by (auto simp: plain_data_def event_span_def event_entry_def plain_record_def plain_attrs_def)
  assume "Record_GetSpanEnded r \<noteq> None"
  then show "plain_data (ended_span rt (Record_GetSpanEnded r) d)"
    using r d by (simp add: plain_data_def ended_span_def plain_record_def)
qed

lemma plain_store_step:
  assumes "plain_store s" and "store_step rt s op = Some s'" and "\<And>r. op = OpApply r \<Longrightarrow> pb_laws rt \<and> plain_record rt r"
  shows "plain_store s'"
proof -
  obtain a where a: "refines s a" "forest_all plain_data a" using assms(1) by (auto simp: plain_store_def)
  with span_store.step_rel [OF a(1) assms(2)] plain.all_step [OF a(2), of op rt] assms(3) show ?thesis
    by (auto simp: plain_store_def)
qed

lemma plain_store_new: "plain_store (NewStoreWithOptions opts)"
  using refines_new forest_all_new by (auto simp: plain_store_def)

section \<open>The viewer shows its store\<close>

definition faithful :: "tui_world \<Rightarrow> tui_model \<Rightarrow> bool" where
  "faithful W m \<longleftrightarrow> tui_inv m \<and> plain_store (m_store m) \<and> code_ok (tui_chroma (tw_env W)) (m_code m)
     \<and> spans_ok (tw_env W) (heap (m_store m)) (byID (m_store m)) (m_renderCache m)"

definition admissible :: "tui_world \<Rightarrow> tui_model \<Rightarrow> sap_record \<Rightarrow> bool" where
  "admissible W m r \<longleftrightarrow> plain_record (tw_rt W) (Some r) \<and> orderly (m_store m) (Some r)
     \<and> (\<forall>i d wd. started_id (Some r) = Some i \<longrightarrow> m_renderCache m \<lparr>key_spanID = i, key_depth = d, key_width = wd\<rparr> = None)"

lemma repaint_faithful:
  assumes "faithful W m"
  shows "\<exists>m'. repaint W m = Some m' \<and> faithful W m' \<and> (m_ready m \<longrightarrow>
    m_vp m' = vp_SetContent (tw_lib W) (plain_roots (tw_env W) (m_store m) (max 40 (m_width m - 2)) (spinner_View (tw_lib W) (m_spinner m)) (m_now m)) (m_vp m))"
proof (cases "m_ready m")
  case False
  with assms show ?thesis by (simp add: repaint_def)
next
  case True
  let ?s = "m_store m" and ?E = "tw_env W" and ?spin = "spinner_View (tw_lib W) (m_spinner m)"
  let ?w = "\<lparr>tc_spans = Some (m_renderCache m), tc_code = m_code m\<rparr>"
  have inv: "tui_inv m" and plain: "plain_store ?s" using assms by (simp_all add: faithful_def)
  have wf: "store_wf ?s" using tui_invD(1) [OF inv] by (rule store_ok_wf)
  have "caches_ok ?E (heap ?s) (byID ?s) ?w" using assms by (simp add: faithful_def caches_ok_def)
  moreover have "renderable (walk_fuel ?s) (heap ?s) p \<and> p \<in> ran (byID ?s)" if "p \<in> set (Roots ?s)" for p
    using that wf_renderable(1) [OF wf] roots_tracked [OF wf] by (simp add: Roots_def)
  ultimately obtain w where w: "root_parts ?E (walk_fuel ?s) (heap ?s) ?spin (m_now m) (StaleOpenSpanIDs ?s) (Roots ?s) (max 40 (m_width m - 2)) ?w
      = Some (map (\<lambda>p. plain_span ?E (walk_fuel ?s) (heap ?s) ?spin (m_now m) (StaleOpenSpanIDs ?s) p 0 (max 40 (m_width m - 2))) (Roots ?s), w)"
      "caches_ok ?E (heap ?s) (byID ?s) w"
    using root_parts_plain [OF plain_store_heap [OF plain]] by blast
  let ?cache = "case tc_spans w of None \<Rightarrow> Map.empty | Some cache \<Rightarrow> cache"
  let ?m = "m\<lparr>m_vp := vp_SetContent (tw_lib W) (plain_roots ?E ?s (max 40 (m_width m - 2)) ?spin (m_now m)) (m_vp m),
    m_renderCache := ?cache, m_code := tc_code w\<rparr>"
  have "repaint W m = Some ?m"
    using True w(1) by (simp add: repaint_def tui_renderRoots_def plain_roots_def)
  moreover have "faithful W ?m"
    using inv plain w(2) by (cases "tc_spans w") (simp_all add: faithful_def caches_ok_def tui_inv_def)
  ultimately show ?thesis by simp
qed

interpretation faithful_viewer: viewer_invariant W "faithful W" "\<lambda>m r. pb_laws (tw_rt W) \<and> admissible W m r" for W
proof
  fix m m' :: tui_model and b now st r s1 s2
  assume f: "faithful W m"
  then have inv: "tui_inv m" and plain: "plain_store (m_store m)" and code: "code_ok (tui_chroma (tw_env W)) (m_code m)"
    and spans: "spans_ok (tw_env W) (heap (m_store m)) (byID (m_store m)) (m_renderCache m)" by (simp_all add: faithful_def)
  show "tui_inv m" by (rule inv)
  show "faithful W m'" if "m_store m' = m_store m" "m_paused m' = m_paused m" "m_code m' = m_code m"
      "m_renderCache m' = m_renderCache m \<or> m_renderCache m' = Map.empty"
    using that(4) by (rule disjE) (use f that in \<open>simp_all add: faithful_def tui_inv_def\<close>)
  show "\<exists>m'. repaint W m = Some m' \<and> faithful W m'" using repaint_faithful [OF f] by blast
  show "faithful W (m\<lparr>m_paused := Some b\<rparr>)" using f by (simp add: faithful_def tui_inv_def)
  show "faithful W (m\<lparr>m_store := st\<rparr>)" if st: "MarkOpenSpansStale (m_store m) now = Some st"
  proof -
    have "plain_store st" by (rule plain_store_step [OF plain, of undefined "OpMarkStale now"]) (simp_all add: st)
    moreover have "heap st = heap (m_store m)" "byID st = byID (m_store m)" using st by (auto simp: MarkOpenSpansStale_def)
    ultimately show ?thesis using store_op_inv(1) [OF inv st] code spans by (simp add: faithful_def)
  qed
  show "faithful W (m\<lparr>m_store := st, m_renderCache := Map.empty\<rparr>)" if st: "ClearOpenSpans (m_store m) = Some st"
  proof -
    have "plain_store st" by (rule plain_store_step [OF plain, of undefined "OpClearOpen"]) (simp_all add: st)
    with store_op_inv(2) [OF inv st] code show ?thesis by (simp add: faithful_def tui_inv_def)
  qed
  show "faithful W (m\<lparr>m_store := Clear (m_store m), m_renderCache := Map.empty\<rparr>)"
  proof -
    have "plain_store (Clear (m_store m))" by (rule plain_store_step [OF plain, of undefined "OpClear"]) simp_all
    with store_op_inv(3) [OF inv] code show ?thesis by (simp add: faithful_def tui_inv_def)
  qed
  show "faithful W (m\<lparr>m_store := s2\<rparr>)"
    if adm: "pb_laws (tw_rt W) \<and> admissible W m r" and st: "Apply (tw_rt W) (m_store m) (Some r) = Some s1" "LimitRoots s1 25 = Some s2"
  proof -
    note limit = LimitRoots_reads [OF st(2)]
    have "plain_store s1"
      by (rule plain_store_step [OF plain, of "tw_rt W" "OpApply (Some r)"]) (use st adm in \<open>simp_all add: admissible_def\<close>)
    then have "plain_store s2" by (rule plain_store_step [of s1 undefined "OpLimit 25"]) (simp_all add: st)
    moreover have "heap (m_store m) (next_addr (m_store m)) = None"
      using store_ok_wf [OF tui_invD(1) [OF inv]] alloc_fresh(2) by (auto simp: store_wf_def)
    note kept = Apply_keeps [OF st(1) this]
    have "spans_ok (tw_env W) (heap s2) (byID s2) (m_renderCache m)"
    proof (rule spans_ok_step [OF spans _ plain_store_heap [OF plain] order_refl])
      show "keeps_ended (heap (m_store m)) (heap s2)" using kept(1) adm limit(1) by (simp add: admissible_def)
      fix i p d wd
      assume "byID s2 i = Some p" and cached: "m_renderCache m \<lparr>key_spanID = i, key_depth = d, key_width = wd\<rparr> \<noteq> None"
      then have "byID s1 i = Some p" using limit(2) by (auto simp: map_le_def dom_def)
      with kept(2) [of i p] adm cached show "byID (m_store m) i = Some p" by (auto simp: admissible_def)
    qed
    ultimately show ?thesis using store_op_inv(4) [OF inv st] code by (simp add: faithful_def)
  qed
qed

lemma newModel_faithful: "faithful W (newModel W (Some paused) opts)"
  using newModel_inv [of W paused opts] plain_store_new by (simp add: faithful_def) (simp add: newModel_def)

end
