(* ===== verification/Tui_Closed.thy ===== *)
theory Tui_Closed
  imports Tui_Cache Store_Life
begin

text \<open>
  Repaints of a store without open spans: each root is a closed tree, so its rendering is in
  the cache after the first repaint, and later repaints show that rendering.
\<close>

section \<open>The cache of spans grows\<close>

definition caches_grow :: "tui_caches \<Rightarrow> tui_caches \<Rightarrow> bool" where
  "caches_grow w w' \<longleftrightarrow> (\<forall>c. tc_spans w = Some c \<longrightarrow> (\<exists>c'. tc_spans w' = Some c' \<and> map_le c c'))"

lemma caches_grow_same: "tc_spans w' = tc_spans w \<Longrightarrow> caches_grow w w'"
  by (simp add: caches_grow_def)

lemma caches_grow_trans: "caches_grow w v \<Longrightarrow> caches_grow v u \<Longrightarrow> caches_grow w u"
  unfolding caches_grow_def by (metis map_le_trans)

lemma flushEvents_grow: "flushEvents E inner startedAt eventGroup w = (parts, w') \<Longrightarrow> caches_grow w w'"
  by (rule caches_grow_same) (auto simp: flushEvents_def split: if_splits prod.splits)

lemma timeline_parts_grow:
  assumes "\<And>q w out w'. render q w = Some (out, w') \<Longrightarrow> caches_grow w w'"
  shows "timeline_parts E render inner startedAt items eventGroup w = Some (parts, w') \<Longrightarrow> caches_grow w w'"
proof (induction items arbitrary: eventGroup w parts w')
  case Nil
  then show ?case using flushEvents_grow by simp
next
  case (Cons item items)
  show ?case
  proof (cases "item_Event item")
    case None
    obtain flushed v where f: "flushEvents E inner startedAt eventGroup w = (flushed, v)" by fastforce
    obtain q child u ps where r: "render q v = Some (child, u)"
        "timeline_parts E render inner startedAt items [] u = Some (ps, w')"
      using Cons.prems None f by (auto split: option.splits)
    from flushEvents_grow [OF f] assms [OF r(1)] Cons.IH [OF r(2)] show ?thesis
      using caches_grow_trans by blast
  next
    case (Some event)
    with Cons show ?thesis by simp
  qed
qed

lemma span_body_grow:
  assumes "\<And>q d wd w out w'. render q d wd w = Some (out, w') \<Longrightarrow> caches_grow w w'"
    and "span_body E render h spin now marks p sp depth width w = Some (out, w')"
  shows "caches_grow w w'"
proof -
  let ?inner = "if width - 4 < 24 then 24 else width - 4"
  obtain attrs code where attrs: "renderAttributes E (Attributes sp) ?inner (tc_code w) = (attrs, code)" by fastforce
  obtain rest v where v: "timeline_parts E (\<lambda>q. render q (depth + 1) ?inner) ?inner (StartedAt sp) (TimelineItems h p) []
      (w\<lparr>tc_code := code\<rparr>) = Some (rest, w')"
    using assms(2) attrs by (auto simp: span_body_def Let_def split: option.splits)
  have "caches_grow (w\<lparr>tc_code := code\<rparr>) w'"
    by (rule timeline_parts_grow [OF _ v]) (rule assms(1))
  then show ?thesis by (simp add: caches_grow_def)
qed

abbreviation cache_key :: "span_state \<Rightarrow> nat \<Rightarrow> int \<Rightarrow> spanRenderCacheKey" where
  "cache_key sp depth width \<equiv> \<lparr>key_spanID = SpanID sp, key_depth = depth, key_width = width\<rparr>"

lemma renderSpan_grow: "renderSpan E fuel h spin now marks p depth width w = Some (out, w') \<Longrightarrow> caches_grow w w'"
proof (induction fuel arbitrary: p depth width w out w')
  case (Suc fuel)
  obtain b sp where sp: "isClosedSpanTree (Suc fuel) h p = Some b" "h p = Some sp"
    using Suc.prems by (auto simp del: isClosedSpanTree.simps split: option.splits)
  let ?hit = "if b then Option.bind (tc_spans w) (\<lambda>cache. cache (cache_key sp depth width)) else None"
  show ?case
  proof (cases ?hit)
    case None
    then obtain v where v: "span_body E (\<lambda>q d wd. renderSpan E fuel h spin now marks q d wd) h spin now marks p sp depth width w = Some (out, v)"
        "w' = (if b then v\<lparr>tc_spans := map_option (\<lambda>cache. cache(cache_key sp depth width \<mapsto> out)) (tc_spans v)\<rparr> else v)"
      using Suc.prems sp by (auto simp: Let_def simp del: isClosedSpanTree.simps split: option.splits)
    have grow: "caches_grow w v" by (rule span_body_grow [OF _ v(1)]) (rule Suc.IH)
    have "map_le c (c'(cache_key sp depth width \<mapsto> out))" if "b" "tc_spans w = Some c" "map_le c c'" for c c'
      using None that by (auto simp: map_le_def)
    with grow v(2) show ?thesis by (fastforce simp: caches_grow_def)
  next
    case (Some rendered)
    with Suc.prems sp have "w' = w" by (simp add: Let_def del: isClosedSpanTree.simps)
    then show ?thesis by (simp add: caches_grow_same)
  qed
qed simp

lemma renderSpan_cached:
  assumes "renderSpan E fuel h spin now marks p depth width w = Some (out, w')"
    and "isClosedSpanTree fuel h p = Some True" and "h p = Some sp" and "tc_spans w = Some c"
  shows "\<exists>c'. tc_spans w' = Some c' \<and> map_le c c' \<and> c' (cache_key sp depth width) = Some out"
proof -
  obtain c' where c': "tc_spans w' = Some c'" "map_le c c'"
    using renderSpan_grow [OF assms(1)] assms(4) by (auto simp: caches_grow_def)
  have "c' (cache_key sp depth width) = Some out"
    using assms c'(1) by (cases fuel) (auto simp: Let_def simp del: isClosedSpanTree.simps split: option.splits)
  with c' show ?thesis by blast
qed

lemma renderSpan_hit:
  assumes "isClosedSpanTree fuel h p = Some True" and "h p = Some sp" and "tc_spans w = Some c"
    and "c (cache_key sp depth width) = Some out"
  shows "renderSpan E fuel h spin now marks p depth width w = Some (out, w)"
  using assms by (cases fuel) (simp_all add: Let_def del: isClosedSpanTree.simps(2))

section \<open>Roots\<close>

definition closed_root :: "nat \<Rightarrow> span_heap \<Rightarrow> addr \<Rightarrow> bool" where
  "closed_root fuel h p \<longleftrightarrow> isClosedSpanTree fuel h p = Some True \<and> h p \<noteq> None"

definition roots_cached :: "(spanRenderCacheKey \<rightharpoonup> string) \<Rightarrow> span_heap \<Rightarrow> int \<Rightarrow> addr list \<Rightarrow> string list \<Rightarrow> bool" where
  "roots_cached c h width = list_all2 (\<lambda>p out. \<exists>sp. h p = Some sp \<and> c (cache_key sp 0 width) = Some out)"

lemma root_parts_cached:
  assumes "\<forall>p \<in> set tops. closed_root fuel h p" and "tc_spans w = Some c"
    and "root_parts E fuel h spin now marks tops width w = Some (parts, w')"
  shows "\<exists>c'. tc_spans w' = Some c' \<and> map_le c c' \<and> roots_cached c' h width tops parts"
  using assms
proof (induction tops arbitrary: w c parts)
  case (Cons p tops)
  obtain out v ps where r: "renderSpan E fuel h spin now marks p 0 width w = Some (out, v)"
      "root_parts E fuel h spin now marks tops width v = Some (ps, w')" "parts = out # ps"
    using Cons.prems(3) by (auto split: option.splits)
  obtain sp where sp: "isClosedSpanTree fuel h p = Some True" "h p = Some sp"
    using Cons.prems(1) by (auto simp: closed_root_def)
  obtain c1 where c1: "tc_spans v = Some c1" "map_le c c1" "c1 (cache_key sp 0 width) = Some out"
    using renderSpan_cached [OF r(1) sp Cons.prems(2)] by blast
  obtain c2 where c2: "tc_spans w' = Some c2" "map_le c1 c2" "roots_cached c2 h width tops ps"
    using Cons.IH [OF _ c1(1) r(2)] Cons.prems(1) by auto
  have "c2 (cache_key sp 0 width) = Some out"
    using c1(3) c2(2) by (metis domI map_le_def)
  then show ?case
    using c2 sp(2) r(3) map_le_trans [OF c1(2) c2(2)] by (auto simp: roots_cached_def)
qed (simp add: roots_cached_def)

lemma root_parts_hit:
  assumes "\<forall>p \<in> set tops. closed_root fuel h p" and "tc_spans w = Some c" and "roots_cached c h width tops parts"
  shows "root_parts E fuel h spin now marks tops width w = Some (parts, w)"
  using assms(1,3)
proof (induction tops arbitrary: parts)
  case (Cons p tops)
  then obtain out ps sp where ps: "parts = out # ps" "roots_cached c h width tops ps" "h p = Some sp"
      "c (cache_key sp 0 width) = Some out"
    by (auto simp: roots_cached_def list_all2_Cons1)
  have "isClosedSpanTree fuel h p = Some True" using Cons.prems(1) by (simp add: closed_root_def)
  from renderSpan_hit [OF this ps(3) assms(2) ps(4)] Cons.IH [OF _ ps(2)] Cons.prems(1) ps(1)
  show ?case by simp
qed (simp add: roots_cached_def)

text \<open>In a store without open spans every root is a closed tree.\<close>

lemma shape_closed:
  "repr h t \<Longrightarrow> (\<And>p sp. p \<in> set (addrs t) \<Longrightarrow> h p = Some sp \<Longrightarrow> Ended sp) \<Longrightarrow> closed_tree h (shape_addr t)"
proof (induction t)
  case (Shape p ts)
  obtain sp where sp: "h p = Some sp" "Children sp = map shape_addr ts"
    using Shape.prems(1) by (auto split: option.splits)
  have "closed_tree h (shape_addr u)" if "u \<in> set ts" for u
    using Shape.IH [OF that] Shape.prems that by (auto split: option.splits)
  moreover have "Ended sp" using Shape.prems(2) [of p sp] sp(1) by simp
  ultimately show ?case
    using sp closed_tree_iff [where h = h, OF sp(1)] by simp
qed

lemma closed_store_spans:
  assumes "store_wf s" and "HasOpenSpans s = Some False" and "store_shape s ts" and "p \<in> set (forest_addrs ts)" and "heap s p = Some sp"
  shows "Ended sp"
proof -
  obtain a where a: "refines s a" using assms(1) by (rule wf_refinesE)
  obtain us where us: "store_shape s us" "forest a = map (abs_shape (heap s)) us"
    using a by (auto simp: refines_def)
  have "p \<in> set (forest_addrs us)"
    using assms(4) store_shapeD(4) [OF assms(3)] store_shapeD(4) [OF us(1)] by blast
  then have "span_data (heap s) p \<in> set (forest_spans (forest a))"
    unfolding us(2) forest_spans_abs by simp
  moreover have "\<not> spec_open a" using HasOpenSpans_refines [OF a] assms(2) by simp
  ultimately have "Ended (span_data (heap s) p)" unfolding spec_open_def by blast
  then show ?thesis using assms(5) by (simp add: span_data_def)
qed

lemma closed_store_roots:
  assumes "store_wf s" and "HasOpenSpans s = Some False" and "p \<in> set (roots s)"
  shows "closed_root (walk_fuel s) (heap s) p" and "\<exists>sp. heap s p = Some sp \<and> Ended sp"
proof -
  obtain ts where ts: "store_shape s ts" using assms(1) by (auto simp: store_wf_def)
  obtain t where t: "t \<in> set ts" "p = shape_addr t" using assms(3) store_shapeD(1) [OF ts] by auto
  have sub: "set (addrs t) \<subseteq> set (forest_addrs ts)" using t(1) by auto
  have "closed_tree (heap s) p"
    unfolding t(2) by (rule shape_closed [OF store_shapeD(2) [OF ts t(1)]])
      (use closed_store_spans [OF assms(1,2) ts] sub in blast)
  moreover have r: "renderable (walk_fuel s) (heap s) p" using wf_renderable(1) [OF assms(1,3)] .
  ultimately have "isClosedSpanTree (walk_fuel s) (heap s) p = Some True"
    using isClosedSpanTree_total [OF r] isClosedSpanTree_iff by fastforce
  then show "closed_root (walk_fuel s) (heap s) p"
    using renderable_alloc [OF r] by (simp add: closed_root_def)
  have "p \<in> set (forest_addrs ts)" using sub t(2) by (cases t) auto
  then show "\<exists>sp. heap s p = Some sp \<and> Ended sp"
    using renderable_alloc [OF r] closed_store_spans [OF assms(1,2) ts] by auto
qed

section \<open>A child of an ended span\<close>

lemma spec_late_child:
  assumes "\<not> spec_open a" and "SpanStarted_GetSpanId x = SpanEnded_GetSpanId d"
  shows "\<not> spec_open (modify_open (SpanEnded_GetSpanId d) (ended_span rt d) (spec_started rt a x))"
proof -
  let ?a = "spec_started rt a x" and ?g = "unless_ended (ended_span rt d)"
  have "Ended e \<or> SpanID e = SpanEnded_GetSpanId d" if "e \<in> set (forest_spans (forest ?a))" for e
    using that spec_started_spans [of rt a x] assms by (auto simp: spec_open_def simp del: set_concat)
  moreover have "Ended (?g e)" for e by (simp add: unless_ended_def ended_span_def)
  moreover have "forest (modify_open (SpanEnded_GetSpanId d) (ended_span rt d) ?a)
      = map (modify_tree (SpanEnded_GetSpanId d) ?g) (forest ?a)" by (simp add: modify_open_def)
  ultimately show ?thesis
    unfolding spec_open_def by (simp only: forest_spans_modify set_map) (auto simp del: set_concat)
qed

text \<open>A child starts under a span of a store without open spans and ends.\<close>

lemma late_child_store:
  assumes wf: "store_wf s" and closed: "HasOpenSpans s = Some False"
    and start: "Record_GetSpanStarted r1 = Some x" "SpanStarted_GetSpanId (Some x) = i" "SpanStarted_GetParentSpanId (Some x) = q"
    and fresh: "i \<noteq> []" "byID s i = None" "byID s q = Some p"
    and ended: "Record_GetSpanEnded r2 = Some d" "SpanEnded_GetSpanId (Some d) = i"
  obtains s1 s2 where "Apply rt s r1 = Some s1" and "Apply rt s1 r2 = Some s2" and "store_wf s2"
    and "roots s1 = roots s" and "roots s2 = roots s" and "HasOpenSpans s2 = Some False"
    and "\<exists>c sp csp. byID s2 i = Some c \<and> heap s2 p = Some sp \<and> c \<in> set (Children sp) \<and> heap s2 c = Some csp \<and> Ended csp"
    and "\<forall>t sp. heap s t = Some sp \<longrightarrow> Ended sp \<longrightarrow> (\<exists>sp'. heap s2 t = Some sp' \<and> SpanID sp' = SpanID sp)"
proof -
  let ?c = "next_addr s" and ?new = "started_span rt (Some x)"
  obtain ts where ts: "store_shape s ts" using wf by (auto simp: store_wf_def)
  have "p \<in> set (forest_addrs ts)" using store_shapeD(4) [OF ts] fresh(3) by blast
  then obtain sp where sp: "heap s p = Some sp" "p < ?c"
    using shape_alloc(1,3) [OF ts] by blast
  obtain s1 where s1: "Apply rt s r1 = Some s1" "store_wf s1" "byID s1 = (byID s)(i \<mapsto> ?c)" "heap s1 ?c = Some ?new"
      "roots s1 = roots s" "heap s1 p = Some (sp\<lparr>Children := Children sp @ [?c]\<rparr>)"
    using Apply_start_new [OF wf start(1), of rt] start(2,3) fresh sp(1) by (metis option.distinct(1))
  let ?s2 = "s1\<lparr>heap := (heap s1)(?c \<mapsto> ended_span rt (Some d) ?new)\<rparr>"
  have s2: "Apply rt s1 r2 = Some ?s2"
    by (rule Apply_end_open [OF ended(1)]) (use ended(2) s1(3,4) in simp_all)
  obtain a where a: "refines s a" using wf by (rule wf_refinesE)
  have "spec_apply rt a r1 = spec_started rt a (Some x)" using start(1) by (simp add: spec_apply_def)
  then have "refines s1 (spec_started rt a (Some x))" using Apply_refines [OF a, of rt r1] s1(1) by simp
  moreover have "spec_apply rt b r2 = modify_open (SpanEnded_GetSpanId (Some d)) (ended_span rt (Some d)) b" for b
    using ended(1) Record_GetSpanEnded_kind [of r2] Record_GetSpanStarted_kind [of r2] Record_GetSpanUpdated_kind [of r2]
    by (auto simp add: spec_apply_def Let_def)
  ultimately have ref: "refines ?s2 (modify_open (SpanEnded_GetSpanId (Some d)) (ended_span rt (Some d)) (spec_started rt a (Some x)))"
    using Apply_refines [of s1 _ rt r2] s2 by fastforce
  have "\<not> spec_open a" using HasOpenSpans_refines [OF a] closed by simp
  then have "HasOpenSpans ?s2 = Some False"
    using HasOpenSpans_refines [OF ref] spec_late_child [of a "Some x" "Some d" rt] start(2) ended(2) by simp
  moreover have "\<exists>sp'. heap ?s2 t = Some sp' \<and> SpanID sp' = SpanID sp" if "heap s t = Some sp" "Ended sp" for t sp
  proof -
    have "run_steps (Apply rt) s [r1, r2] = Some ?s2" using s1(1) s2 by simp
    from Apply_run_frozen [OF wf that this] obtain sp' where "heap ?s2 t = Some sp'" "frozen_as sp sp'" by blast
    then show ?thesis unfolding frozen_as_def by (metis span_state.select_convs(2) span_state.surjective span_state.update_convs(9))
  qed
  ultimately show thesis
    using that [OF s1(1) s2 refines_wf [OF ref]] s1 sp(2) by (simp add: ended_span_def)
qed

section \<open>Repaints\<close>

abbreviation paint_width :: "tui_model \<Rightarrow> int" where
  "paint_width m \<equiv> max 40 (m_width m - 2)"

lemma closed_repaint:
  assumes "store_wf (m_store m)" and "HasOpenSpans (m_store m) = Some False" and "m_ready m"
  obtains parts w cache where
    "tui_renderRoots (tw_env W) (walk_fuel (m_store m)) (heap (m_store m)) (Roots (m_store m)) (paint_width m)
       (spinner_View (tw_lib W) (m_spinner m)) (m_now m) (StaleOpenSpanIDs (m_store m))
       \<lparr>tc_spans = Some (m_renderCache m), tc_code = m_code m\<rparr> = Some (join [newline] parts, w)"
    and "repaint W m = Some (m\<lparr>m_vp := vp_SetContent (tw_lib W) (join [newline] parts) (m_vp m), m_renderCache := cache, m_code := tc_code w\<rparr>)"
    and "roots_cached cache (heap (m_store m)) (paint_width m) (roots (m_store m)) parts"
proof -
  let ?w = "\<lparr>tc_spans = Some (m_renderCache m), tc_code = m_code m\<rparr>"
  obtain content w where r: "tui_renderRoots (tw_env W) (walk_fuel (m_store m)) (heap (m_store m)) (Roots (m_store m)) (paint_width m)
       (spinner_View (tw_lib W) (m_spinner m)) (m_now m) (StaleOpenSpanIDs (m_store m)) ?w = Some (content, w)"
    using tui_renderRoots_total [OF assms(1)] by metis
  then obtain parts where parts: "content = join [newline] parts" "root_parts (tw_env W) (walk_fuel (m_store m)) (heap (m_store m))
       (spinner_View (tw_lib W) (m_spinner m)) (m_now m) (StaleOpenSpanIDs (m_store m)) (roots (m_store m)) (paint_width m) ?w = Some (parts, w)"
    by (auto simp: tui_renderRoots_def Roots_def)
  obtain cache where cache: "tc_spans w = Some cache" "roots_cached cache (heap (m_store m)) (paint_width m) (roots (m_store m)) parts"
    using root_parts_cached [OF _ _ parts(2)] closed_store_roots(1) [OF assms(1,2)] by auto
  from r cache(1) assms(3) that [OF _ _ cache(2)] parts(1) show thesis by (simp add: repaint_def)
qed

lemma cached_repaint:
  assumes "store_wf (m_store m)" and "HasOpenSpans (m_store m) = Some False" and "m_ready m"
    and "roots_cached (m_renderCache m) (heap (m_store m)) (paint_width m) (roots (m_store m)) parts"
  shows "repaint W m = Some (m\<lparr>m_vp := vp_SetContent (tw_lib W) (join [newline] parts) (m_vp m)\<rparr>)"
proof -
  have "\<forall>p \<in> set (roots (m_store m)). closed_root (walk_fuel (m_store m)) (heap (m_store m)) p"
    using closed_store_roots(1) [OF assms(1,2)] by blast
  from root_parts_hit [OF this _ assms(4)] assms(3) show ?thesis
    by (simp add: repaint_def tui_renderRoots_def Roots_def)
qed

lemma closed_update:
  assumes "store_wf (m_store m)" and "HasOpenSpans (m_store m) = Some False" and "m_ready m"
  obtains parts w cache where
    "tui_renderRoots (tw_env W) (walk_fuel (m_store m)) (heap (m_store m)) (Roots (m_store m)) (paint_width m)
       (spinner_View (tw_lib W) (m_spinner m)) (m_now m) (StaleOpenSpanIDs (m_store m))
       \<lparr>tc_spans = Some (m_renderCache m), tc_code = m_code m\<rparr> = Some (join [newline] parts, w)"
    and "Update W RepaintMsg m = Some (m\<lparr>m_repaintPending := False, m_stickToBottom := False,
       m_vp := (let vp = vp_SetContent (tw_lib W) (join [newline] parts) (m_vp m) in if m_stickToBottom m then vp_GotoBottom (tw_lib W) vp else vp),
       m_renderCache := cache, m_code := tc_code w\<rparr>, NoCmd)"
    and "roots_cached cache (heap (m_store m)) (paint_width m) (roots (m_store m)) parts"
proof -
  let ?m = "m\<lparr>m_repaintPending := False\<rparr>"
  obtain parts w cache where paint:
      "tui_renderRoots (tw_env W) (walk_fuel (m_store m)) (heap (m_store m)) (Roots (m_store m)) (paint_width m)
         (spinner_View (tw_lib W) (m_spinner m)) (m_now m) (StaleOpenSpanIDs (m_store m))
         \<lparr>tc_spans = Some (m_renderCache m), tc_code = m_code m\<rparr> = Some (join [newline] parts, w)"
      "repaint W ?m = Some (?m\<lparr>m_vp := vp_SetContent (tw_lib W) (join [newline] parts) (m_vp m), m_renderCache := cache, m_code := tc_code w\<rparr>)"
      "roots_cached cache (heap (m_store m)) (paint_width m) (roots (m_store m)) parts"
    using closed_repaint [of ?m W] assms by auto
  from that [OF paint(1) _ paint(3)] paint(2) show thesis
    by (cases m) (auto simp: Update_def update_repaint_def with_cmd_def Let_def)
qed

lemma cached_update:
  assumes "store_wf (m_store m)" and "HasOpenSpans (m_store m) = Some False" and "m_ready m"
    and "roots_cached (m_renderCache m) (heap (m_store m)) (paint_width m) (roots (m_store m)) parts"
  obtains m' where "Update W RepaintMsg m = Some (m', NoCmd)" and "m_store m' = m_store m"
    and "m_vp m' = (let vp = vp_SetContent (tw_lib W) (join [newline] parts) (m_vp m) in if m_stickToBottom m then vp_GotoBottom (tw_lib W) vp else vp)"
  using cached_repaint [of "m\<lparr>m_repaintPending := False\<rparr>" parts W] assms that
  by (simp add: Update_def update_repaint_def with_cmd_def Let_def)

lemma roots_cached_same:
  assumes "roots_cached c h width tops parts"
    and "\<And>p sp. p \<in> set tops \<Longrightarrow> h p = Some sp \<Longrightarrow> \<exists>sp'. h' p = Some sp' \<and> SpanID sp' = SpanID sp"
  shows "roots_cached c h' width tops parts"
  unfolding roots_cached_def
proof (rule list.rel_mono_strong [OF assms(1) [unfolded roots_cached_def]])
  fix p out
  assume "p \<in> set tops" and "\<exists>sp. h p = Some sp \<and> c (cache_key sp 0 width) = Some out"
  then show "\<exists>sp. h' p = Some sp \<and> c (cache_key sp 0 width) = Some out" using assms(2) by fastforce
qed

end
