(* ===== verification/Tui_Views.thy ===== *)
theory Tui_Views
  imports Tui_Closed
begin

text \<open>
  What the terminal viewer shows: the properties of its message loop, and a concrete world to
  evaluate it in.
\<close>

section \<open>A concrete world\<close>

text \<open>
  Styles that leave a text as it is, one lexer and a formatter that gives the source back, and
  a viewport that is its content.
\<close>

definition ref_lip :: lipgloss where
  "ref_lip = \<lparr>Style_Render = (\<lambda>_ text. text), lipgloss_Width = (\<lambda>text. int (length text)),
     JoinVertical_Left = join [newline], timer_View = (\<lambda>timeout _. Itoa timeout)\<rparr>"

definition ref_terminal_chroma :: terminal_chroma where
  "ref_terminal_chroma = \<lparr>lexers_Get = (\<lambda>_. None), lexers_Analyse = (\<lambda>_. None), lexers_Fallback = 0, Coalesce = (\<lambda>l. l),
     styles_Get = (\<lambda>_. Some 1), styles_Fallback = 0, Tokenise = (\<lambda>_ src. if src = [] then Inl [] else Inr (length src)),
     html_Format = (\<lambda>_ _. Inl []), formatters_Get = (\<lambda>_. Some 2), formatters_Fallback = 0,
     formatter_Format = (\<lambda>_ _ tokens. Inr (Itoa (int tokens)))\<rparr>"

definition ref_bubbles :: bubbles where
  "ref_bubbles = \<lparr>viewport_New = (\<lambda>_ _. []), vp_SetWidth = (\<lambda>_ vp. vp), vp_SetHeight = (\<lambda>_ vp. vp), vp_GotoTop = (\<lambda>vp. vp),
     vp_GotoBottom = (\<lambda>vp. vp), vp_AtBottom = (\<lambda>_. True), vp_SetContent = (\<lambda>content _. content),
     vp_Update = (\<lambda>_ vp. (vp, NoCmd)), vp_View = (\<lambda>vp. vp), spinner_New = (\<lambda>_ _. []), spinner_Tick = (\<lambda>_. LibCmd ''spin''),
     spinner_Update = (\<lambda>_ sp. (sp, LibCmd ''spin'')), spinner_View = (\<lambda>_. ''~''), help_New = (\<lambda>_. []), help_SetWidth = (\<lambda>_ h. h),
     help_ToggleAll = (\<lambda>h. h), help_View = (\<lambda>_ _ h. h), timer_New = (\<lambda>_ _. []), timer_Init = (\<lambda>_. LibCmd ''init''),
     timer_Stop = (\<lambda>_. LibCmd ''stop''), timer_Update = (\<lambda>_ t. (t, NoCmd)), timer_Model_View = (\<lambda>t. t)\<rparr>"

definition ref_world :: tui_world where
  "ref_world = \<lparr>tw_env = \<lparr>tui_lip = ref_lip, tui_chroma = ref_terminal_chroma\<rparr>, tw_lib = ref_bubbles, tw_rt = ref_runtime,
     tw_now = (\<lambda>k. 10 + int k)\<rparr>"

definition fresh_viewer :: tui_model where
  "fresh_viewer = newModel ref_world (Some False) \<lparr>AllowUnknownParents = False\<rparr>"

section \<open>Every message sequence\<close>

text \<open>C27: Whatever messages arrive, in whatever order and with whatever behaviour of the terminal
  libraries, the viewer reacts to each of them: no reaction panics or loops, each returns one
  command, and at most 25 roots are kept.\<close>

theorem tui_never_fails:
  "\<exists>m cmds. run_steps (tui_step W) (newModel W (Some paused) opts, []) msgs = Some (m, cmds)
     \<and> length cmds = length msgs \<and> length (Roots (m_store m)) \<le> 25"
proof -
  have inv: "tui_inv (fst (newModel W (Some paused) opts, []))" by (simp add: newModel_inv)
  obtain s where s: "run_steps (tui_step W) (newModel W (Some paused) opts, []) msgs = Some s" "tui_inv (fst s)"
    using tui_run.run_total [OF inv] by blast
  have "length (snd s) = length (snd (newModel W (Some paused) opts, [] :: tui_cmd list)) + length msgs"
    using tui_step_commands [OF s(1)] .
  then show ?thesis
    using s tui_invD(2) [OF s(2)] by (intro exI [of _ "fst s"] exI [of _ "snd s"]) (simp add: Roots_def)
qed

section \<open>Records are painted\<close>

text \<open>The store after one record, as the viewer limits it.\<close>

definition viewed :: "tui_world \<Rightarrow> store \<Rightarrow> sap_record \<Rightarrow> store option" where
  "viewed W s r = Option.bind (Apply (tw_rt W) s (Some r)) (\<lambda>s. LimitRoots s tui_maxRoots)"

definition feed :: "sap_record list \<Rightarrow> tui_msg list" where
  "feed rs = map (\<lambda>r. EventMsg (Some r)) rs"

lemma feed_pending:
  assumes "tui_inv m" and "\<not> isPaused m" and "m_repaintPending m" and "vp_AtBottom (tw_lib W) (m_vp m) \<longrightarrow> m_stickToBottom m"
  shows "\<exists>st. run_steps (viewed W) (m_store m) rs = Some st \<and> store_ok st
    \<and> run_steps (tui_step W) (m, cmds) (feed rs) = Some (m\<lparr>m_store := st\<rparr>, cmds @ replicate (length rs) NoCmd)"
  using assms
proof (induction rs arbitrary: m cmds)
  case Nil
  then show ?case using tui_invD(1) [OF Nil.prems(1)] by (simp add: feed_def)
next
  case (Cons r rs)
  obtain s1 s2 where st: "Apply (tw_rt W) (m_store m) (Some r) = Some s1" "LimitRoots s1 25 = Some s2" "store_ok s2"
      "int (length (roots s2)) \<le> 25"
    by (rule apply_limited_ok [of "m_store m" 25 "tw_rt W" "Some r"]) (use tui_invD(1) [OF Cons.prems(1)] in auto)
  let ?m = "m\<lparr>m_store := s2\<rparr>"
  have keep: "(if vp_AtBottom (tw_lib W) (m_vp m) then m\<lparr>m_stickToBottom := True\<rparr> else m) = m"
    using Cons.prems(4) by (cases m) auto
  have step: "tui_step W (m, cmds) (EventMsg (Some r)) = Some (?m, cmds @ [NoCmd])"
    using Cons.prems(2,3) st(1,2)
    by (simp add: tui_step_def Update_def update_event_def keep tui_maxRoots_def scheduleRepaint_def)
  have inv: "tui_inv ?m" using Cons.prems(1) st(3,4) by (intro tui_inv_store) simp_all
  have "\<exists>st. run_steps (viewed W) (m_store ?m) rs = Some st \<and> store_ok st
    \<and> run_steps (tui_step W) (?m, cmds @ [NoCmd]) (feed rs) = Some (?m\<lparr>m_store := st\<rparr>, (cmds @ [NoCmd]) @ replicate (length rs) NoCmd)"
    by (rule Cons.IH [OF inv]) (use Cons.prems in \<open>simp_all add: isPaused_def\<close>)
  moreover have "viewed W (m_store m) r = Some s2" using st(1,2) by (simp add: viewed_def tui_maxRoots_def)
  ultimately show ?case
    using step by (simp add: feed_def)
qed

text \<open>C32: However many records arrive before the next repaint, only the first schedules one; when its tick
  comes, the viewport shows the rendering of the store with all of the records in it, scrolled to the
  end if the view was at the end.\<close>

theorem records_painted:
  assumes "tui_inv m" and "\<not> isPaused m" and "\<not> m_repaintPending m" and "m_ready m"
  shows "\<exists>st m1 content w m2. run_steps (viewed W) (m_store m) (r # rs) = Some st
    \<and> run_steps (tui_step W) (m, []) (feed (r # rs)) = Some (m1, RepaintTick # replicate (length rs) NoCmd)
    \<and> Update W RepaintMsg m1 = Some (m2, NoCmd) \<and> m_store m2 = st \<and> \<not> m_repaintPending m2
    \<and> tui_renderRoots (tw_env W) (walk_fuel st) (heap st) (Roots st) (max 40 (m_width m - 2))
         (spinner_View (tw_lib W) (m_spinner m)) (m_now m) (StaleOpenSpanIDs st)
         \<lparr>tc_spans = Some (m_renderCache m), tc_code = m_code m\<rparr> = Some (content, w)
    \<and> m_vp m2 = (let vp = vp_SetContent (tw_lib W) content (m_vp m)
         in if m_stickToBottom m \<or> vp_AtBottom (tw_lib W) (m_vp m) then vp_GotoBottom (tw_lib W) vp else vp)"
proof -
  obtain s1 s2 where s: "Apply (tw_rt W) (m_store m) (Some r) = Some s1" "LimitRoots s1 25 = Some s2" "store_ok s2"
      "int (length (roots s2)) \<le> 25"
    by (rule apply_limited_ok [of "m_store m" 25 "tw_rt W" "Some r"]) (use tui_invD(1) [OF assms(1)] in auto)
  let ?stick = "m_stickToBottom m \<or> vp_AtBottom (tw_lib W) (m_vp m)"
  let ?m = "m\<lparr>m_store := s2, m_repaintPending := True, m_stickToBottom := ?stick\<rparr>"
  have "tui_step W (m, []) (EventMsg (Some r)) = Some (?m, [RepaintTick])"
    using assms(2,3) s(1,2)
    by (cases m) (auto simp: tui_step_def Update_def update_event_def tui_maxRoots_def scheduleRepaint_def isPaused_def)
  moreover have "viewed W (m_store m) r = Some s2" using s(1,2) by (simp add: viewed_def tui_maxRoots_def)
  moreover have "tui_inv ?m" using assms(1) s(3,4) by (simp add: tui_inv_def)
  then obtain st where st: "run_steps (viewed W) s2 rs = Some st" "store_ok st"
      "run_steps (tui_step W) (?m, [RepaintTick]) (feed rs) = Some (?m\<lparr>m_store := st\<rparr>, [RepaintTick] @ replicate (length rs) NoCmd)"
    using feed_pending [of ?m W rs "[RepaintTick]"] assms(2) by (auto simp: isPaused_def)
  obtain content w where c: "tui_renderRoots (tw_env W) (walk_fuel st) (heap st) (Roots st) (max 40 (m_width m - 2))
         (spinner_View (tw_lib W) (m_spinner m)) (m_now m) (StaleOpenSpanIDs st)
         \<lparr>tc_spans = Some (m_renderCache m), tc_code = m_code m\<rparr> = Some (content, w)"
    using tui_renderRoots_total [OF store_ok_wf [OF st(2)]] by metis
  ultimately show ?thesis
    using st assms(4) c
    by (simp add: feed_def Update_def update_repaint_def repaint_def with_cmd_def Let_def)
qed

theorem records_painted_witness:
  "let m = fresh_viewer\<lparr>m_ready := True\<rparr>; r = the (start_record ''a'' [] 1); rs = [the (start_record ''b'' ''a'' 2), the (end_record ''b'' 3)]
   in \<exists>m1 m2. run_steps (tui_step ref_world) (m, []) (feed (r # rs)) = Some (m1, [RepaintTick, NoCmd, NoCmd])
     \<and> Update ref_world RepaintMsg m1 = Some (m2, NoCmd) \<and> \<not> m_repaintPending m2
     \<and> run_steps (viewed ref_world) (m_store m) (r # rs) = Some (m_store m2)"
proof -
  let ?m = "fresh_viewer\<lparr>m_ready := True\<rparr>"
  have "tui_inv fresh_viewer" unfolding fresh_viewer_def by (rule newModel_inv)
  then have "tui_inv ?m" "\<not> isPaused ?m" "\<not> m_repaintPending ?m" "m_ready ?m"
    by (simp_all add: tui_inv_def fresh_viewer_def isPaused_def newModel_def)
  from records_painted [OF this, of ref_world "the (start_record ''a'' [] 1)" "[the (start_record ''b'' ''a'' 2), the (end_record ''b'' 3)]"]
  show ?thesis by (auto simp: numeral_2_eq_2)
qed

section \<open>A closed tree that grows\<close>

text \<open>C34: The cache of rendered spans keys a closed tree by the ID of its span, and a closed tree can
  grow. In a viewer without open spans, let a repaint have filled the viewport; if then a child
  starts under any span of the store and ends before the next repaint, it is in the store as a
  child of its parent, but that repaint puts the very same content into the viewport again.\<close>

theorem late_child_hidden:
  assumes "tui_inv m" and "\<not> isPaused m" and "m_ready m" and "HasOpenSpans (m_store m) = Some False"
    and start: "Record_GetSpanStarted (Some r1) = Some x" "SpanStarted_GetSpanId (Some x) = i" "SpanStarted_GetParentSpanId (Some x) = q"
    and fresh: "i \<noteq> []" "byID (m_store m) i = None" "byID (m_store m) q = Some p"
    and ended: "Record_GetSpanEnded (Some r2) = Some d" "SpanEnded_GetSpanId (Some d) = i"
  shows "\<exists>content w m1 m2 cmds c sp csp.
      tui_renderRoots (tw_env W) (walk_fuel (m_store m)) (heap (m_store m)) (Roots (m_store m)) (max 40 (m_width m - 2))
        (spinner_View (tw_lib W) (m_spinner m)) (m_now m) (StaleOpenSpanIDs (m_store m))
        \<lparr>tc_spans = Some (m_renderCache m), tc_code = m_code m\<rparr> = Some (content, w)
    \<and> Update W RepaintMsg m = Some (m1, NoCmd)
    \<and> m_vp m1 = (let vp = vp_SetContent (tw_lib W) content (m_vp m) in if m_stickToBottom m then vp_GotoBottom (tw_lib W) vp else vp)
    \<and> run_steps (tui_step W) (m1, []) [EventMsg (Some r1), EventMsg (Some r2), RepaintMsg] = Some (m2, cmds)
    \<and> byID (m_store m2) i = Some c \<and> heap (m_store m2) p = Some sp \<and> c \<in> set (Children sp)
    \<and> heap (m_store m2) c = Some csp \<and> Ended csp
    \<and> m_vp m2 = (let vp = vp_SetContent (tw_lib W) content (m_vp m1)
         in if vp_AtBottom (tw_lib W) (m_vp m1) then vp_GotoBottom (tw_lib W) vp else vp)"
proof -
  let ?L = "tw_lib W" and ?s = "m_store m"
  have wf: "store_wf ?s" using tui_invD(1) [OF assms(1)] by (rule store_ok_wf)
  obtain parts w cache where paint:
      "tui_renderRoots (tw_env W) (walk_fuel ?s) (heap ?s) (Roots ?s) (paint_width m) (spinner_View ?L (m_spinner m)) (m_now m)
         (StaleOpenSpanIDs ?s) \<lparr>tc_spans = Some (m_renderCache m), tc_code = m_code m\<rparr> = Some (join [newline] parts, w)"
      "Update W RepaintMsg m = Some (m\<lparr>m_repaintPending := False, m_stickToBottom := False,
         m_vp := (let vp = vp_SetContent ?L (join [newline] parts) (m_vp m) in if m_stickToBottom m then vp_GotoBottom ?L vp else vp),
         m_renderCache := cache, m_code := tc_code w\<rparr>, NoCmd)"
      "roots_cached cache (heap ?s) (paint_width m) (roots ?s) parts"
    by (rule closed_update [OF wf assms(4,3)])
  let ?vp = "let vp = vp_SetContent ?L (join [newline] parts) (m_vp m) in if m_stickToBottom m then vp_GotoBottom ?L vp else vp"
  let ?m1 = "m\<lparr>m_repaintPending := False, m_stickToBottom := False, m_vp := ?vp, m_renderCache := cache, m_code := tc_code w\<rparr>"
  obtain s1 s2 where s: "Apply (tw_rt W) ?s (Some r1) = Some s1" "Apply (tw_rt W) s1 (Some r2) = Some s2" "store_wf s2"
      "roots s1 = roots ?s" "roots s2 = roots ?s" "HasOpenSpans s2 = Some False"
    and child: "\<exists>c sp csp. byID s2 i = Some c \<and> heap s2 p = Some sp \<and> c \<in> set (Children sp) \<and> heap s2 c = Some csp \<and> Ended csp"
    and same: "\<forall>t sp. heap ?s t = Some sp \<longrightarrow> Ended sp \<longrightarrow> (\<exists>sp'. heap s2 t = Some sp' \<and> SpanID sp' = SpanID sp)"
    by (rule late_child_store [OF wf assms(4) start fresh ended, of "tw_rt W"])
  have limit: "LimitRoots s1 tui_maxRoots = Some s1" "LimitRoots s2 tui_maxRoots = Some s2"
    using s(4,5) tui_invD(2) [OF assms(1)] by (simp_all add: LimitRoots_def tui_maxRoots_def)
  let ?m2 = "?m1\<lparr>m_store := s2, m_repaintPending := True, m_stickToBottom := vp_AtBottom ?L ?vp\<rparr>"
  have events: "run_steps (tui_step W) (?m1, []) [EventMsg (Some r1), EventMsg (Some r2)] = Some (?m2, [RepaintTick, NoCmd])"
    using assms(2) s(1,2) limit
    by (simp add: tui_step_def Update_def update_event_def scheduleRepaint_def isPaused_def)
  have "roots_cached cache (heap s2) (paint_width m) (roots s2) parts"
    unfolding s(5) by (rule roots_cached_same [OF paint(3)])
      (use closed_store_roots(2) [OF wf assms(4)] same in fastforce)
  then obtain m3 where m3: "Update W RepaintMsg ?m2 = Some (m3, NoCmd)" "m_store m3 = s2"
      "m_vp m3 = (let vp = vp_SetContent ?L (join [newline] parts) ?vp in if vp_AtBottom ?L ?vp then vp_GotoBottom ?L vp else vp)"
    using cached_update [of ?m2 parts W] s(3,6) assms(3) by auto
  have "run_steps (tui_step W) (?m1, []) [EventMsg (Some r1), EventMsg (Some r2), RepaintMsg]
      = Some (m3, [RepaintTick, NoCmd, NoCmd])"
    using events m3(1) by (auto simp: tui_step_def split: option.splits)
  with paint(1,2) child m3(2,3) show ?thesis by auto
qed

text \<open>A root ends and is painted; then a child starts under it and ends.\<close>

definition late_child :: "tui_msg list" where
  "late_child = [WindowSizeMsg 80 24, EventMsg (start_record ''a'' [] 1), EventMsg (end_record ''a'' 2), RepaintMsg,
     EventMsg (start_record ''b'' ''a'' 3), EventMsg (end_record ''b'' 4), RepaintMsg]"

definition viewer_after :: "tui_msg list \<Rightarrow> tui_model" where
  "viewer_after msgs = fst (the (run_steps (tui_step ref_world) (fresh_viewer, []) msgs))"

lemma viewer_after_inv: "tui_inv (viewer_after msgs)"
proof -
  have "tui_inv (fst (fresh_viewer, [] :: tui_cmd list))" by (simp add: fresh_viewer_def newModel_inv)
  from tui_run.run_total [OF this, of ref_world msgs] show ?thesis by (auto simp: viewer_after_def)
qed

lemma late_records:
  "start_record i q k = Some (the (start_record i q k))" "end_record i k = Some (the (end_record i k))"
  by (simp_all add: start_record_def end_record_def)

text \<open>The view does not change; a change of the window's width, which empties the cache, shows the child.\<close>

theorem late_child_hidden_witness:
  "(\<exists>m1 m2 cmds. Update ref_world RepaintMsg (viewer_after (take 3 late_child)) = Some (m1, NoCmd)
     \<and> run_steps (tui_step ref_world) (m1, []) [EventMsg (start_record ''b'' ''a'' 3), EventMsg (end_record ''b'' 4), RepaintMsg] = Some (m2, cmds)
     \<and> byID (m_store m2) ''b'' \<noteq> None \<and> m_vp m2 = m_vp m1)
   \<and> tui_View ref_world (viewer_after (late_child @ [WindowSizeMsg 81 24, WindowSizeMsg 80 24]))
     \<noteq> tui_View ref_world (viewer_after late_child)"
proof
  let ?m = "viewer_after (take 3 late_child)"
  have m: "\<not> isPaused ?m" "m_ready ?m" "HasOpenSpans (m_store ?m) = Some False" by code_simp+
  have ids: "''b'' \<noteq> []" "byID (m_store ?m) ''b'' = None" "byID (m_store ?m) ''a'' = Some 1" by code_simp+
  obtain x where x: "Record_GetSpanStarted (Some (the (start_record ''b'' ''a'' 3))) = Some x"
      "SpanStarted_GetSpanId (Some x) = ''b''" "SpanStarted_GetParentSpanId (Some x) = ''a''"
    by (simp add: start_record_def Record_getter_defs Record_Build_Kind empty_Record_builder_def getter_simps)
  obtain d where d: "Record_GetSpanEnded (Some (the (end_record ''b'' 4))) = Some d" "SpanEnded_GetSpanId (Some d) = ''b''"
    by (simp add: end_record_def Record_getter_defs Record_Build_Kind empty_Record_builder_def getter_simps)
  show "\<exists>m1 m2 cmds. Update ref_world RepaintMsg ?m = Some (m1, NoCmd)
     \<and> run_steps (tui_step ref_world) (m1, []) [EventMsg (start_record ''b'' ''a'' 3), EventMsg (end_record ''b'' 4), RepaintMsg] = Some (m2, cmds)
     \<and> byID (m_store m2) ''b'' \<noteq> None \<and> m_vp m2 = m_vp m1"
    using late_child_hidden [OF viewer_after_inv m x ids d, of ref_world, folded late_records]
    by (auto simp: ref_world_def ref_bubbles_def Let_def)
  show "tui_View ref_world (viewer_after (late_child @ [WindowSizeMsg 81 24, WindowSizeMsg 80 24]))
     \<noteq> tui_View ref_world (viewer_after late_child)" by code_simp
qed

section \<open>The caches do not show\<close>

text \<open>Runs in which each record that is applied starts no span under an ended one and no span whose ID
  has a cached rendering.\<close>

fun orderly_run :: "tui_world \<Rightarrow> tui_model \<Rightarrow> tui_msg list \<Rightarrow> bool" where
  "orderly_run W m [] = True"
| "orderly_run W m (msg # msgs) =
     ((case msg of EventMsg (Some r) \<Rightarrow> isPaused m \<or> admissible W m r | _ \<Rightarrow> True)
      \<and> (case Update W msg m of None \<Rightarrow> True | Some (m', _) \<Rightarrow> orderly_run W m' msgs))"

lemma orderly_run_faithful:
  assumes "pb_laws (tw_rt W)" and "faithful W m" and "orderly_run W m msgs"
  shows "\<exists>m' cmds'. run_steps (tui_step W) (m, cmds) msgs = Some (m', cmds') \<and> faithful W m'"
  using assms(2,3)
proof (induction msgs arbitrary: m cmds)
  case (Cons msg msgs)
  have "pb_laws (tw_rt W) \<and> admissible W m r" if "msg = EventMsg (Some r)" "\<not> isPaused m" for r
    using Cons.prems(2) that assms(1) by simp
  then obtain m' cmd where m': "Update W msg m = Some (m', cmd)" "faithful W m'"
    using faithful_viewer.Update_keeps [OF Cons.prems(1), of msg] by blast
  with Cons.prems(2) have "orderly_run W m' msgs" by simp
  from Cons.IH [OF m'(2) this] m'(1) show ?case by (simp add: tui_step_def)
qed simp

text \<open>C33: As long as no record starts a span under an ended one or reuses an ID with a cached rendering, no
  end has the zero time and no language of a code attribute has a NUL byte, the caches do not show:
  after any messages a repaint fills the viewport with the rendering of the store without caches.\<close>

theorem caches_transparent:
  assumes "pb_laws (tw_rt W)" and "orderly_run W (newModel W (Some paused) opts) msgs"
  shows "\<exists>m cmds m'. run_steps (tui_step W) (newModel W (Some paused) opts, []) msgs = Some (m, cmds) \<and> repaint W m = Some m'
    \<and> m_vp m' = (if m_ready m
         then vp_SetContent (tw_lib W) (plain_roots (tw_env W) (m_store m) (max 40 (m_width m - 2)) (spinner_View (tw_lib W) (m_spinner m)) (m_now m)) (m_vp m)
         else m_vp m)"
proof -
  obtain m cmds where m: "run_steps (tui_step W) (newModel W (Some paused) opts, []) msgs = Some (m, cmds)" "faithful W m"
    using orderly_run_faithful [OF assms(1) newModel_faithful assms(2)] by blast
  obtain m' where m': "repaint W m = Some m'" "m_ready m \<longrightarrow> m_vp m' = vp_SetContent (tw_lib W)
      (plain_roots (tw_env W) (m_store m) (max 40 (m_width m - 2)) (spinner_View (tw_lib W) (m_spinner m)) (m_now m)) (m_vp m)"
    using repaint_faithful [OF m(2)] by blast
  moreover have "\<not> m_ready m \<longrightarrow> m' = m" using m'(1) by (auto simp: repaint_def)
  ultimately show ?thesis using m(1) by auto
qed

lemma ref_lib: "vp_SetContent (tw_lib ref_world) content vp = content" "spinner_View (tw_lib ref_world) sp = ''~''"
  by (simp_all add: ref_world_def ref_bubbles_def)

definition family :: "sap_record list" where
  "family = map the [start_record ''a'' [] 1, start_record ''b'' ''a'' 2, end_record ''b'' 3, start_record ''c'' ''a'' 4]"

fun orderly_records :: "tui_world \<Rightarrow> store \<Rightarrow> sap_record list \<Rightarrow> bool" where
  "orderly_records W s [] = True"
| "orderly_records W s (r # rs) = (plain_record (tw_rt W) (Some r) \<and> orderly s (Some r)
     \<and> (case viewed W s r of None \<Rightarrow> True | Some s' \<Rightarrow> orderly_records W s' rs))"

lemma orderly_feed:
  "m_renderCache m = Map.empty \<Longrightarrow> \<not> isPaused m \<Longrightarrow> orderly_records W (m_store m) rs \<Longrightarrow> orderly_run W m (feed rs @ [WindowSizeMsg w h])"
proof (induction rs arbitrary: m)
  case (Cons r rs)
  then have "admissible W m r" by (simp add: admissible_def)
  moreover have "orderly_run W m' (feed rs @ [WindowSizeMsg w h])" if "Update W (EventMsg (Some r)) m = Some (m', cmd)" for m' cmd
    using that Cons
    by (intro Cons.IH) (auto simp: Update_def update_event_def scheduleRepaint_def viewed_def isPaused_def Let_def split: if_splits option.splits)
  ultimately show ?case by (auto simp: feed_def split: option.split)
qed (simp add: feed_def split: option.split)

lemma repaint_ready: "repaint W m = Some m' \<Longrightarrow> m_ready m' = m_ready m"
  by (auto simp: repaint_def split: if_splits option.splits)

lemma sized_ready:
  assumes "run_steps (tui_step W) s (msgs @ [WindowSizeMsg w h]) = Some (m, cmds)"
  shows "m_ready m"
proof -
  obtain s1 where "tui_step W s1 (WindowSizeMsg w h) = Some (m, cmds)"
    using assms by (auto simp: run_steps_append split: option.splits)
  then show ?thesis
    by (auto simp: tui_step_def Update_def update_window_def with_cmd_def Let_def dest!: repaint_ready split: if_splits)
qed

theorem caches_transparent_witness:
  "\<exists>m cmds m'. run_steps (tui_step ref_world) (fresh_viewer, []) (feed family @ [WindowSizeMsg 80 24]) = Some (m, cmds) \<and> repaint ref_world m = Some m'
    \<and> m_vp m' = plain_roots (tw_env ref_world) (m_store m) (max 40 (m_width m - 2)) ''~'' (m_now m)"
proof -
  have laws: "pb_laws (tw_rt ref_world)" by (simp add: ref_world_def)
  have "orderly_records ref_world (m_store fresh_viewer) family" by code_simp
  then have "orderly_run ref_world fresh_viewer (feed family @ [WindowSizeMsg 80 24])"
    by (intro orderly_feed) (simp_all add: fresh_viewer_def newModel_def isPaused_def)
  from caches_transparent [OF laws this [unfolded fresh_viewer_def], folded fresh_viewer_def, unfolded ref_lib]
  show ?thesis using sized_ready by (metis (no_types, lifting))
qed

end
