(* ===== verification/Live.thy ===== *)
theory Live
  imports Sdk_Protocol Sse Tui_Views Web_Props
begin

text \<open>
  The whole way of a record: from a call of the SDK through the hub, the handler of the SSE
  endpoint and the client into the stores of both viewers.
\<close>

section \<open>Limits that are not reached\<close>

lemma Apply_roots: "Apply rt s r = Some s' \<Longrightarrow> length (roots s) \<le> length (roots s')"
  by (auto simp: Apply_def applyStarted_def applyUpdated_def applyEnded_def applyEvent_def Let_def
      split: if_splits option.splits case_Record_Kind.splits)

lemma Apply_run_roots: "run_steps (Apply rt) s rs = Some s' \<Longrightarrow> length (roots s) \<le> length (roots s')"
  by (induction rs arbitrary: s) (fastforce dest: Apply_roots split: option.splits)+

definition apply_limited :: "pb_runtime \<Rightarrow> int \<Rightarrow> store \<Rightarrow> sap_record \<Rightarrow> store option" where
  "apply_limited rt n s r = Option.bind (Apply rt s (Some r)) (\<lambda>s. LimitRoots s n)"

text \<open>While the roots stay within the limit, the limit does not change anything.\<close>

lemma apply_unlimited:
  assumes "run_steps (Apply rt) s (map Some rs) = Some s'" and "int (length (roots s')) \<le> n" and "0 < n"
  shows "run_steps (apply_limited rt n) s rs = Some s'"
  using assms(1)
proof (induction rs arbitrary: s)
  case (Cons r rs)
  then obtain s1 where s1: "Apply rt s (Some r) = Some s1" "run_steps (Apply rt) s1 (map Some rs) = Some s'"
    by (auto split: option.splits)
  then have "LimitRoots s1 n = Some s1"
    using Apply_run_roots [OF s1(2)] assms(2,3) by (simp add: LimitRoots_def)
  with s1 Cons.IH show ?case by (simp add: apply_limited_def)
qed simp

section \<open>The viewers\<close>

lemma tui_feed:
  assumes "run_steps (apply_limited (tw_rt W) 25) (m_store m) rs = Some st" and "\<not> isPaused m"
  shows "\<exists>m' cmds'. run_steps (tui_step W) (m, cmds) (feed rs) = Some (m', cmds') \<and> m_store m' = st"
  using assms
proof (induction rs arbitrary: m cmds)
  case (Cons r rs)
  from Cons.prems(1) obtain s2 where "apply_limited (tw_rt W) 25 (m_store m) r = Some s2"
      and run: "run_steps (apply_limited (tw_rt W) 25) s2 rs = Some st"
    by (auto split: option.splits)
  then obtain s1 where st: "Apply (tw_rt W) (m_store m) (Some r) = Some s1" "LimitRoots s1 25 = Some s2"
    by (auto simp: apply_limited_def bind_eq_Some_conv)
  have "\<exists>m1 cmd. Update W (EventMsg (Some r)) m = Some (m1, cmd) \<and> m_store m1 = s2 \<and> \<not> isPaused m1"
    using st Cons.prems(2)
    by (cases "vp_AtBottom (tw_lib W) (m_vp m)"; cases "m_repaintPending m")
      (simp_all add: Update_def update_event_def tui_maxRoots_def scheduleRepaint_def isPaused_def)
  then obtain m1 cmd where m1: "Update W (EventMsg (Some r)) m = Some (m1, cmd)" "m_store m1 = s2" "\<not> isPaused m1"
    by blast
  with Cons.IH [of m1 "cmds @ [cmd]"] run show ?case by (simp add: feed_def tui_step_def)
qed (auto simp: feed_def)

lemma web_feed:
  assumes "server_env_ok env" and "server_inv k s" and "\<not> ws_paused s"
    and "run_steps (apply_limited (se_rt env) (ws_maxRoots s)) (ws_store s) rs = Some st"
  shows "\<exists>s'. run_steps (\<lambda>s r. applyRecord env (Some r) s) s rs = Some s' \<and> ws_store s' = st"
  using assms(2-4)
proof (induction rs arbitrary: s)
  case (Cons r rs)
  obtain s2 s1 where s1: "applyRecord env (Some r) s = Some s1" "server_inv k s1" "frame (s\<lparr>ws_store := s2\<rparr>) s1"
      "apply_limited (se_rt env) (ws_maxRoots s) (ws_store s) r = Some s2"
    using applyRecord_frame [OF assms(1) Cons.prems(1), of "Some r"] Cons.prems(2) unfolding apply_limited_def by blast
  then have "\<not> ws_paused s1" "ws_store s1 = s2" "ws_maxRoots s1 = ws_maxRoots s"
    using Cons.prems(2) by (simp_all add: frame_def)
  with s1 Cons.prems(3) Cons.IH [OF s1(2)] show ?case by simp
qed simp

section \<open>Over the wire\<close>

text \<open>What the client decodes of what the handler writes for the records of a subscription.\<close>

definition over_http :: "(sap_record option \<Rightarrow> string option) \<Rightarrow> (string \<Rightarrow> sap_record option) \<Rightarrow> sap_record option list \<Rightarrow> sap_record list" where
  "over_http marshal unmarshal records =
    (let (out, _) = handler_loop marshal (map (\<lambda>r. GotRecord r True) records);
         (lines, _) = scan_lines maxFrameBytes [] (connected_frame @ out)
     in decode_loop unmarshal False lines)"

lemma over_http_all:
  assumes "\<And>r. r \<in> set rs \<Longrightarrow> \<exists>p. marshal (Some r) = Some p \<and> line_safe p \<and> unmarshal p = Some r"
  shows "over_http marshal unmarshal (map Some rs) = rs"
proof -
  have "decode_loop unmarshal False ('': connected'' # [] # lines) = decode_loop unmarshal True lines" for lines
    by (simp add: HasPrefix_def)
  with frames_decode [OF assms, where b = True] show ?thesis
    by (simp add: over_http_def case_prod_unfold scan_connected_frame Let_def comp_def)
qed

lemma all_records:
  assumes "None \<notin> set log"
  obtains rs where "log = map Some rs"
  using assms by (metis ex_map_conv option.exhaust)

text \<open>C21: The live view is the program, where nothing is dropped. Let a subscriber of a hub be there before the
  first span, with a free buffer that has room for a record of every call, let all calls be on that
  hub, let the random source not repeat itself, and let the JSON codec be a round trip on the
  records that writes each on one line below the client's limit of 10 MiB. Then what the client
  decodes of the handler's frames, in a store, is a forest of exactly the spans of the SDK on that
  hub, each once with its trace and its ended state; and both viewers, unpaused from the start
  and fed with it, hold exactly this store as long as it has at most 25 roots.\<close>

theorem live_view:
  assumes "observed env h ch (length calls) s" and "list_all (on_hub h) calls"
    and "run_results (sdk_exec env) s calls = Inr s'" and "fresh_upto env (sdk_ticks s')"
    and codec: "\<And>r. Some r \<in> set (sdk_log ch s') \<Longrightarrow> \<exists>p. marshal (Some r) = Some p \<and> line_safe p \<and> unmarshal p = Some r"
    and "tw_rt W = env_rt env" and "se_rt E = env_rt env" and "server_env_ok E"
  shows "\<exists>store a. run_steps (Apply (env_rt env)) NewStore (map Some (over_http marshal unmarshal (sdk_log ch s'))) = Some store
    \<and> abs_store store = Some a \<and> distinct (forest_ids (forest a))
    \<and> (\<lambda>d. (SpanID d, TraceID d, Ended d)) ` set (forest_spans (forest a))
      = {(sp_spanID sp, sp_traceID sp, sp_ended sp) | p sp. sdk_spans s' p = Some sp \<and> sp_hub sp = Some h}
    \<and> (length (Roots store) \<le> 25 \<longrightarrow>
        (\<exists>m cmds. run_steps (tui_step W) (newModel W (Some False) \<lparr>AllowUnknownParents = False\<rparr>, [])
            (feed (over_http marshal unmarshal (sdk_log ch s'))) = Some (m, cmds) \<and> m_store m = store)
      \<and> (\<exists>server. run_steps (\<lambda>server r. applyRecord E (Some r) server) (newServer 0 \<lparr>AllowUnknownParents = False\<rparr>)
            (over_http marshal unmarshal (sdk_log ch s')) = Some server \<and> ws_store server = store))"
proof -
  obtain store a where st: "run_steps (Apply (env_rt env)) NewStore (sdk_log ch s') = Some store" "abs_store store = Some a"
      "distinct (forest_ids (forest a))"
      "(\<lambda>d. (SpanID d, TraceID d, Ended d)) ` set (forest_spans (forest a))
        = {(sp_spanID sp, sp_traceID sp, sp_ended sp) | p sp. sdk_spans s' p = Some sp \<and> sp_hub sp = Some h}"
      "None \<notin> set (sdk_log ch s')"
    using log_rebuilds [OF assms(1-4)] by blast
  obtain rs where rs: "sdk_log ch s' = map Some rs" using all_records [OF st(5)] by blast
  have wire: "over_http marshal unmarshal (sdk_log ch s') = rs"
    unfolding rs by (rule over_http_all) (use codec rs in auto)
  let ?opts = "\<lparr>AllowUnknownParents = False\<rparr>" and ?limited = "apply_limited (env_rt env)"
  have "(\<exists>m cmds. run_steps (tui_step W) (newModel W (Some False) ?opts, []) (feed rs) = Some (m, cmds) \<and> m_store m = store)
      \<and> (\<exists>server. run_steps (\<lambda>server r. applyRecord E (Some r) server) (newServer 0 ?opts) rs = Some server \<and> ws_store server = store)"
    if few: "length (Roots store) \<le> 25"
  proof
    have limit: "run_steps (?limited n) NewStore rs = Some store" if "25 \<le> n" for n
      using apply_unlimited [of "env_rt env" NewStore rs store n] st(1) few that by (simp add: rs Roots_def)
    show "\<exists>m cmds. run_steps (tui_step W) (newModel W (Some False) ?opts, []) (feed rs) = Some (m, cmds) \<and> m_store m = store"
      by (rule tui_feed) (use limit [of 25] assms(6) in \<open>simp_all add: newModel_def isPaused_def NewStore_def\<close>)
    show "\<exists>server. run_steps (\<lambda>server r. applyRecord E (Some r) server) (newServer 0 ?opts) rs = Some server \<and> ws_store server = store"
      by (rule web_feed [OF assms(8) newServer_inv]) (use limit [of 50] assms(7) in \<open>simp_all add: newServer_def NewStore_def\<close>)
  qed
  then show ?thesis using st(1-4) unfolding wire by (auto simp: rs)
qed

section \<open>A concrete run\<close>

text \<open>A codec for the records of the sample: the text of a record is as long as its place in the log.\<close>

definition sample_marshal :: "sap_record option \<Rightarrow> string option" where
  "sample_marshal r = Some (replicate (length (takeWhile (\<lambda>x. x \<noteq> r) (sdk_log 1 sample_end))) CHR ''a'')"

definition sample_unmarshal :: "string \<Rightarrow> sap_record option" where
  "sample_unmarshal p = sdk_log 1 sample_end ! length p"

lemma sample_codec:
  assumes "Some r \<in> set (sdk_log 1 sample_end)"
  shows "\<exists>p. sample_marshal (Some r) = Some p \<and> line_safe p \<and> sample_unmarshal p = Some r"
proof -
  let ?k = "length (takeWhile (\<lambda>x. x \<noteq> Some r) (sdk_log 1 sample_end))"
  have "?k < length (sdk_log 1 sample_end)"
    using assms takeWhile_eq_all_conv [of "\<lambda>x. x \<noteq> Some r" "sdk_log 1 sample_end"]
      length_takeWhile_le [of "\<lambda>x. x \<noteq> Some r" "sdk_log 1 sample_end"]
    by (metis le_neq_implies_less takeWhile_eq_take take_all_iff order_refl)
  then have "?k < 4" and "sdk_log 1 sample_end ! ?k = Some r"
    using sample_end_reads(2) nth_length_takeWhile [of "\<lambda>x. x \<noteq> Some r" "sdk_log 1 sample_end"] by auto
  then show ?thesis
    by (auto simp: sample_marshal_def sample_unmarshal_def line_safe_def maxFrameBytes_def)
qed

theorem live_view_witness:
  "\<exists>store a. run_steps (Apply ref_runtime) NewStore (map Some (over_http sample_marshal sample_unmarshal (sdk_log 1 sample_end))) = Some store
    \<and> abs_store store = Some a \<and> (\<exists>d \<in> set (forest_spans (forest a)). Ended d)"
proof -
  obtain sp where sp: "sdk_spans sample_end 2 = Some sp" "sp_ended sp" "sp_hub sp = Some 1"
    using sample_end_reads(3) by auto
  have env: "tw_rt ref_world = env_rt sample_env" "se_rt ref_env = env_rt sample_env"
    by (simp_all add: ref_world_def ref_env_def sample_env_def)
  obtain store a where st: "run_steps (Apply (env_rt sample_env)) NewStore
        (map Some (over_http sample_marshal sample_unmarshal (sdk_log 1 sample_end))) = Some store"
      "abs_store store = Some a"
      "(\<lambda>d. (SpanID d, TraceID d, Ended d)) ` set (forest_spans (forest a))
        = {(sp_spanID sp, sp_traceID sp, sp_ended sp) | p sp. sdk_spans sample_end p = Some sp \<and> sp_hub sp = Some 1}"
    using live_view [OF sample_observed sample_on_hub sample_run sample_fresh [OF sample_end_reads(1)] sample_codec env ref_env_ok]
    by blast
  have "(sp_spanID sp, sp_traceID sp, True) \<in> (\<lambda>d. (SpanID d, TraceID d, Ended d)) ` set (forest_spans (forest a))"
    unfolding st(3) using sp by auto
  then show ?thesis using st(1,2) by (auto simp: sample_env_def)
qed

end
