(* ===== verification/Example.thy ===== *)
theory Example
  imports Sdk_Methods Gostd_Time
begin

text \<open>
  The live example, \<open>example/live/main.go\<close>: goroutines that start, annotate and end spans on a
  hub. A function of the example is a function on the SDK's state. Sleeping is left out: it
  changes no state, and the clock is an arbitrary function. The random numbers and whether the
  context is done are read from the environment like the clock.
\<close>

section \<open>Environment\<close>

record demo_env =
  de_sdk :: go_env
  de_IntN :: "nat \<Rightarrow> int \<Rightarrow> int"
  de_done :: "nat \<Rightarrow> bool"
  de_Err :: string

type_synonym sdk_action = "sdk \<Rightarrow> sdk go_result"

fun in_sequence :: "sdk_action list \<Rightarrow> sdk_action" where
  "in_sequence [] s = Inr s"
| "in_sequence (f # fs) s = bind_result (f s) (\<lambda>s. in_sequence fs s)"

text \<open>A random number is drawn, also where only the length of a pause depends on it.\<close>

definition draw :: "demo_env \<Rightarrow> int \<Rightarrow> (int \<Rightarrow> sdk_action) \<Rightarrow> sdk_action" where
  "draw X n f s = f (de_IntN X (sdk_ticks s) n) (tick s)"

definition pause :: "demo_env \<Rightarrow> int \<Rightarrow> sdk_action" where
  "pause X n = draw X n (\<lambda>_ s. Inr s)"

definition started_on :: "demo_env \<Rightarrow> addr option \<Rightarrow> go_context \<Rightarrow> string \<Rightarrow> attribute option list
    \<Rightarrow> (go_context \<Rightarrow> addr option \<Rightarrow> sdk_action) \<Rightarrow> sdk_action" where
  "started_on X hub ctx name attrs body s =
    bind_result (Hub_Start (de_sdk X) hub ctx name attrs s) (\<lambda>(ctx, p, s). body ctx (Some p) s)"

definition str_attr :: "demo_env \<Rightarrow> string \<Rightarrow> string \<Rightarrow> string list \<Rightarrow> attribute option" where
  "str_attr X key val hints = Some (String_attr (env_rt (de_sdk X)) key val hints)"

definition int_attr :: "demo_env \<Rightarrow> string \<Rightarrow> nat \<Rightarrow> string list \<Rightarrow> attribute option" where
  "int_attr X key val hints = Some (Int_attr (env_rt (de_sdk X)) key (of_nat val) hints)"

definition duration_attr :: "demo_env \<Rightarrow> string \<Rightarrow> go_duration \<Rightarrow> string list \<Rightarrow> attribute option" where
  "duration_attr X key val hints = Some (Duration_attr (env_rt (de_sdk X)) key val hints)"

abbreviation with_attrs :: "attribute option list \<Rightarrow> event_option option" where
  "with_attrs attrs \<equiv> Some (WithAttributes attrs)"

abbreviation with_severity :: "Severity \<Rightarrow> event_option option" where
  "with_severity severity \<equiv> Some (WithSeverity severity)"

section \<open>A request\<close>

definition double_quote :: string where "double_quote = [CHR 0x22]"

definition quoted :: "string \<Rightarrow> string" where "quoted s = double_quote @ s @ double_quote"

definition line_end :: string where "line_end = [CHR 0x0A]"

definition request_input :: string where
  "request_input = ''{'' @ line_end @ ''  '' @ quoted ''project_id'' @ '': 42,'' @ line_end
    @ ''  '' @ quoted ''expand'' @ '': ['' @ quoted ''owner'' @ '', '' @ quoted ''members'' @ '']'' @ line_end @ ''}''"

definition payload_preview :: string where
  "payload_preview = ''{'' @ line_end @ ''  '' @ quoted ''id'' @ '': 42,'' @ line_end @ ''  '' @ quoted ''name'' @ '': '' @ quoted ''Sap''
    @ '','' @ line_end @ ''  '' @ quoted ''owner'' @ '': {'' @ line_end @ ''    '' @ quoted ''id'' @ '': 7'' @ line_end @ ''  }'' @ line_end @ ''}''"

text \<open>\<open>fail\<close> is read from the counter of requests before the trace starts.\<close>

definition request_trace :: "demo_env \<Rightarrow> addr option \<Rightarrow> bool \<Rightarrow> sdk_action" where
  "request_trace X hub fail =
    (let env = de_sdk X in started_on X hub [] ''serve request''
      [str_attr X ''method'' ''GET'' [''badge''], str_attr X ''route'' ''/projects/:id'' [''badge''],
       str_attr X ''query'' ''select * from projects where id = $1'' [''code:sql'']]
      (\<lambda>ctx root. in_sequence
        [AddEvent env root ''request.received'' [with_attrs [str_attr X ''remote_addr'' ''127.0.0.1'' [], str_attr X ''cache'' ''miss'' [''badge'']]],
         SetAttributes env root [str_attr X ''status'' ''authorizing'' [''badge''], str_attr X ''input'' request_input [''code:json'']],
         started_on X hub ctx ''load user'' [str_attr X ''query'' ''select id, role from users where id = $1'' [''code:sql'']]
           (\<lambda>_ loadUser. in_sequence
             [AddEvent env loadUser ''db.row'' [with_attrs [str_attr X ''user_id'' ''7'' [], str_attr X ''role'' ''admin'' [''badge'']]],
              Complete env loadUser]),
         started_on X hub ctx ''assemble response'' [str_attr X ''template'' ''project_detail'' [''badge'']]
           (\<lambda>_ assemble. in_sequence
             [AddEvent env assemble ''renderer.partial'' [with_attrs [str_attr X ''name'' ''header'' []]],
              AddEvent env assemble ''warning'' [with_severity SeverityWarn,
                with_attrs [str_attr X ''detail'' ''owner profile missing avatar'' [''text'']]],
              SetAttributes env assemble [str_attr X ''payload_preview'' payload_preview [''code:json'']],
              Complete env assemble]),
         AddEvent env root ''recoverable.error'' [with_severity SeverityError,
           with_attrs [str_attr X ''message'' ''cache backend timeout'' [''text'']]],
         if fail then Error env root (Some ''upstream dependency failed'') else Inr,
         Complete env root]))"

text \<open>With the counter of traces: the second of two traces fails.\<close>

definition emitTrace :: "demo_env \<Rightarrow> addr option \<Rightarrow> int \<times> sdk \<Rightarrow> (int \<times> sdk) go_result" where
  "emitTrace X hub w = (case w of (traces, s) \<Rightarrow>
    (let traces = traces + 1; fail = (go_rem traces 2 = 0)
     in bind_result (request_trace X hub fail s) (\<lambda>s. Inr (traces, s))))"

section \<open>Nested spans\<close>

definition nested_maxDepth :: nat where "nested_maxDepth = 5"
definition nested_fanout :: nat where "nested_fanout = 2"

text \<open>The body of the loop over the children: \<open>descend\<close> is the recursive call.\<close>

definition nested_child :: "demo_env \<Rightarrow> addr option \<Rightarrow> go_context \<Rightarrow> nat \<Rightarrow> nat \<Rightarrow> string
    \<Rightarrow> (go_context \<Rightarrow> string \<Rightarrow> sdk_action) \<Rightarrow> nat \<Rightarrow> sdk_action" where
  "nested_child X hub ctx level fanout path descend i =
    (let env = de_sdk X; childPath = path @ ''.'' @ Itoa (int (i + 1))
     in started_on X hub ctx (''nested level '' @ Itoa (int level) @ '' child '' @ Itoa (int (i + 1)))
       [int_attr X ''level'' level [''badge''], str_attr X ''path'' childPath [''text''],
        str_attr X ''work'' (''expand synthetic node '' @ childPath) [''text'']]
       (\<lambda>childCtx span. in_sequence
         [pause X 40,
          SetAttributes env span [str_attr X ''state'' ''expanding'' [''badge'']],
          AddEvent env span ''node.expanded'' [with_attrs [int_attr X ''children'' fanout [''badge'']]],
          descend childCtx childPath,
          draw X 12 (\<lambda>r. if r = 0 then AddEvent env span ''contrived.warning'' [with_severity SeverityWarn,
            with_attrs [str_attr X ''message'' ''synthetic nested-span warning'' [''text'']]] else Inr),
          pause X 20,
          Complete env span]))"

function emitNestedChildren :: "demo_env \<Rightarrow> addr option \<Rightarrow> go_context \<Rightarrow> nat \<Rightarrow> nat \<Rightarrow> nat \<Rightarrow> string \<Rightarrow> sdk_action" where
  "emitNestedChildren X hub ctx level maxDepth fanout path =
    (if level > maxDepth then Inr
     else in_sequence (map (nested_child X hub ctx level fanout path
       (\<lambda>childCtx childPath. emitNestedChildren X hub childCtx (level + 1) maxDepth fanout childPath)) [0..<fanout]))"
  by pat_completeness auto
termination
  by (relation "measure (\<lambda>(X, hub, ctx, level, maxDepth, fanout, path). Suc maxDepth - level)") auto

declare emitNestedChildren.simps [simp del]

definition emitNestedTrace :: "demo_env \<Rightarrow> addr option \<Rightarrow> sdk_action" where
  "emitNestedTrace X hub =
    (let env = de_sdk X in started_on X hub [] ''nested span stress demo''
      [int_attr X ''depth'' nested_maxDepth [''badge''], int_attr X ''fanout'' nested_fanout [''badge''],
       str_attr X ''shape'' ''intentionally noisy recursive demo'' [''text''],
       str_attr X ''sample_query'' (''select * from contrived_tree where path like '' @ [CHR 0x27] @ ''root.%'' @ [CHR 0x27]) [''code:sql'']]
      (\<lambda>ctx root. in_sequence
        [AddEvent env root ''demo.started'' [with_attrs [str_attr X ''note'' ''creates a deliberately deep span tree'' [''text'']]],
         emitNestedChildren X hub ctx 1 nested_maxDepth nested_fanout ''root'',
         AddEvent env root ''demo.finished'' [with_attrs [str_attr X ''note'' ''all generated children completed'' [''text'']]],
         Complete env root]))"

section \<open>Appended spans\<close>

definition append_spanCount :: nat where "append_spanCount = 20"

text \<open>The verb \<open>%02d\<close>.\<close>

definition two_digits :: "nat \<Rightarrow> string" where
  "two_digits i = (if i < 10 then ''0'' @ Itoa (int i) else Itoa (int i))"

definition out_of :: "nat \<Rightarrow> string" where
  "out_of i = Itoa (int i) @ ''/'' @ Itoa (int append_spanCount)"

text \<open>The loop with its early return, and what follows it.\<close>

fun append_loop :: "demo_env \<Rightarrow> addr option \<Rightarrow> go_context \<Rightarrow> addr option \<Rightarrow> nat list \<Rightarrow> sdk_action" where
  "append_loop X hub rootCtx root [] =
     AddEvent (de_sdk X) root ''demo.finished'' [with_attrs [str_attr X ''appended'' (out_of append_spanCount) [''badge'']]]"
| "append_loop X hub rootCtx root (i # is) =
     (let env = de_sdk X; position = with_attrs [str_attr X ''position'' (out_of i) [''badge'']]
      in started_on X hub rootCtx (''appended span '' @ two_digits i)
        [int_attr X ''index'' i [''badge''], duration_attr X ''duration'' Second [''badge'']]
        (\<lambda>_ span s. bind_result (AddEvent env span ''span.started'' [position] s) (\<lambda>s.
          if de_done X (sdk_ticks s)
          then in_sequence
            [AddEvent env span ''span.canceled'' [with_severity SeverityWarn, position],
             Error env span (Some (de_Err X)),
             AddEvent env root ''demo.canceled'' [with_severity SeverityWarn,
               with_attrs [str_attr X ''appended'' (out_of (i - 1)) [''badge'']]]] s
          else bind_result (Complete env span s) (append_loop X hub rootCtx root is))))"

definition emitAppendTrace :: "demo_env \<Rightarrow> go_context \<Rightarrow> addr option \<Rightarrow> sdk_action" where
  "emitAppendTrace X ctx hub =
    (let env = de_sdk X in started_on X hub ctx ''append cadence demo''
      [str_attr X ''mode'' ''append'' [''badge''], int_attr X ''span_count'' append_spanCount [''badge''],
       duration_attr X ''span_duration'' Second [''badge''],
       str_attr X ''description'' ''appends child spans to this root; each child takes one second'' [''text'']]
      (\<lambda>rootCtx root. in_sequence
        [AddEvent env root ''demo.started'' [with_attrs [str_attr X ''note'' ''each appended child span remains open for one second'' [''text'']]],
         append_loop X hub rootCtx root [1..<Suc append_spanCount],
         Complete env root]))"

section \<open>Modes\<close>

definition validMode :: "string \<Rightarrow> bool" where
  "validMode mode \<longleftrightarrow> mode = ''request'' \<or> mode = ''nested'' \<or> mode = ''append''"

definition emitMode :: "demo_env \<Rightarrow> go_context \<Rightarrow> addr option \<Rightarrow> string \<Rightarrow> int \<times> sdk \<Rightarrow> (int \<times> sdk) go_result" where
  "emitMode X ctx hub mode w =
    (let keep = (\<lambda>f. bind_result (f (snd w)) (\<lambda>s. Inr (fst w, s)))
     in if mode = ''request'' then emitTrace X hub w
        else if mode = ''nested'' then keep (emitNestedTrace X hub)
        else if mode = ''append'' then keep (emitAppendTrace X ctx hub)
        else Inr w)"

text \<open>The loop of \<open>emit\<close>: a tick of the ticker, or the end of the context.\<close>

datatype emit_event = EmitTick | EmitDone

fun emit :: "demo_env \<Rightarrow> go_context \<Rightarrow> addr option \<Rightarrow> string \<Rightarrow> emit_event list \<Rightarrow> int \<times> sdk \<Rightarrow> (int \<times> sdk) go_result" where
  "emit X ctx hub mode [] w = Inr w"
| "emit X ctx hub mode (EmitDone # es) w = Inr w"
| "emit X ctx hub mode (EmitTick # es) w = bind_result (emitMode X ctx hub mode w) (emit X ctx hub mode es)"

section \<open>Nothing is left open\<close>

definition open_spans :: "sdk \<Rightarrow> addr set" where
  "open_spans s = {p. \<exists>sp. sdk_spans s p = Some sp \<and> sp_hub sp \<noteq> None \<and> \<not> sp_ended sp}"

text \<open>
  An action that publishes at most \<open>k\<close> records, keeps what an observer of hub \<open>h\<close> reads a
  well-formed stream, and closes the spans in \<open>E\<close> and no others.
\<close>

definition settles :: "demo_env \<Rightarrow> addr \<Rightarrow> addr \<Rightarrow> addr set \<Rightarrow> nat \<Rightarrow> sdk_action \<Rightarrow> bool" where
  "settles X h ch E k f \<longleftrightarrow> (\<forall>n s. sdk_room (de_sdk X) h ch (k + n) s \<longrightarrow> followed (de_sdk X) ch s \<longrightarrow>
     (\<exists>s'. f s = Inr s' \<and> sdk_room (de_sdk X) h ch n s' \<and> followed (de_sdk X) ch s' \<and> open_spans s' = open_spans s - E))"

lemma settlesI:
  assumes "\<And>n s. sdk_room (de_sdk X) h ch (k + n) s \<Longrightarrow> followed (de_sdk X) ch s \<Longrightarrow>
     \<exists>s'. f s = Inr s' \<and> sdk_room (de_sdk X) h ch n s' \<and> followed (de_sdk X) ch s' \<and> open_spans s' = open_spans s - E"
  shows "settles X h ch E k f"
  using assms unfolding settles_def by blast

lemma settlesE:
  assumes "settles X h ch E k f" and "sdk_room (de_sdk X) h ch (k + n) s" and "followed (de_sdk X) ch s"
  obtains s' where "f s = Inr s'" and "sdk_room (de_sdk X) h ch n s'" and "followed (de_sdk X) ch s'" and "open_spans s' = open_spans s - E"
  using assms unfolding settles_def by blast

lemma sdk_room_less: "sdk_room env h ch (m + n) s \<Longrightarrow> sdk_room env h ch n s"
  using listens_less by (auto simp: sdk_room_def)

lemma settles_idle: "settles X h ch {} 0 Inr"
  by (simp add: settles_def)

lemma settles_more:
  assumes "settles X h ch E k f" and "k \<le> k'"
  shows "settles X h ch E k' f"
proof (rule settlesI)
  fix n s
  assume room: "sdk_room (de_sdk X) h ch (k' + n) s" and "followed (de_sdk X) ch s"
  moreover have "k' + n = k + ((k' - k) + n)" using assms(2) by simp
  ultimately obtain s' where "f s = Inr s'" "sdk_room (de_sdk X) h ch ((k' - k) + n) s'" "followed (de_sdk X) ch s'"
      "open_spans s' = open_spans s - E"
    using settlesE [OF assms(1), of "(k' - k) + n" s] by metis
  then show "\<exists>s'. f s = Inr s' \<and> sdk_room (de_sdk X) h ch n s' \<and> followed (de_sdk X) ch s' \<and> open_spans s' = open_spans s - E"
    using sdk_room_less by blast
qed

lemma settles_bind:
  assumes "settles X h ch E k f" and "settles X h ch E' k' g"
  shows "settles X h ch (E \<union> E') (k + k') (\<lambda>s. bind_result (f s) g)"
proof (rule settlesI)
  fix n s
  assume "sdk_room (de_sdk X) h ch (k + k' + n) s" and "followed (de_sdk X) ch s"
  then obtain s1 where s1: "f s = Inr s1" "sdk_room (de_sdk X) h ch (k' + n) s1" "followed (de_sdk X) ch s1" "open_spans s1 = open_spans s - E"
    using settlesE [OF assms(1), of "k' + n" s] by (metis add.assoc)
  obtain s2 where "g s1 = Inr s2" "sdk_room (de_sdk X) h ch n s2" "followed (de_sdk X) ch s2" "open_spans s2 = open_spans s1 - E'"
    using settlesE [OF assms(2) s1(2,3)] by blast
  with s1 show "\<exists>s'. bind_result (f s) g = Inr s' \<and> sdk_room (de_sdk X) h ch n s' \<and> followed (de_sdk X) ch s'
      \<and> open_spans s' = open_spans s - (E \<union> E')"
    by auto
qed

lemma settles_Nil: "settles X h ch {} 0 (in_sequence [])"
  by (simp add: settles_def)

lemma settles_Cons:
  assumes "settles X h ch E k f" and "settles X h ch E' k' (in_sequence fs)"
  shows "settles X h ch (E \<union> E') (k + k') (in_sequence (f # fs))"
  using settles_bind [OF assms] by (simp add: settles_def)

lemma settles_draw: "(\<And>r. settles X h ch E k (f r)) \<Longrightarrow> settles X h ch E k (draw X b f)"
proof (rule settlesI)
  fix n s
  assume f: "\<And>r. settles X h ch E k (f r)" and room: "sdk_room (de_sdk X) h ch (k + n) s" and fol: "followed (de_sdk X) ch s"
  have "sdk_room (de_sdk X) h ch (k + n) (tick s)" using room by (simp add: sdk_room_def)
  moreover have "followed (de_sdk X) ch (tick s)"
    using fol fresh_upto_mono tracks_same [of _ s _ "tick s"] unfolding followed_def by fastforce
  ultimately obtain s' where "f (de_IntN X (sdk_ticks s) b) (tick s) = Inr s'" "sdk_room (de_sdk X) h ch n s'"
      "followed (de_sdk X) ch s'" "open_spans s' = open_spans (tick s) - E"
    using settlesE [OF f] by blast
  then show "\<exists>s'. draw X b f s = Inr s' \<and> sdk_room (de_sdk X) h ch n s' \<and> followed (de_sdk X) ch s' \<and> open_spans s' = open_spans s - E"
    by (simp add: draw_def open_spans_def)
qed

text \<open>The calls of the SDK.\<close>

lemma sdk_publish_spans: "sdk_publish env hub r s = Inr s' \<Longrightarrow> sdk_spans s' = sdk_spans s"
  by (auto simp: sdk_publish_def bind_result_def split: option.splits sum.splits)

lemma call_settles:
  assumes "on_hub h call" and "\<And>s s'. sdk_exec (de_sdk X) s call = Inr s' \<Longrightarrow> open_spans s' = open_spans s - E"
  shows "settles X h ch E 1 (\<lambda>s. sdk_exec (de_sdk X) s call)"
proof (rule settlesI)
  fix n s
  assume room: "sdk_room (de_sdk X) h ch (1 + n) s" and fol: "followed (de_sdk X) ch s"
  then obtain s' rs where s': "sdk_exec (de_sdk X) s call = Inr s'" "sdk_room (de_sdk X) h ch n s'"
      "sdk_log ch s' = sdk_log ch s @ rs" "sdk_effect (de_sdk X) h s s' rs"
    using sdk_exec_effect [OF _ assms(1)] by fastforce
  have "followed (de_sdk X) ch s'" using followed_effect [OF fol _ s'(4,3)] room by simp
  with s' assms(2) show "\<exists>s'. sdk_exec (de_sdk X) s call = Inr s' \<and> sdk_room (de_sdk X) h ch n s' \<and> followed (de_sdk X) ch s'
      \<and> open_spans s' = open_spans s - E" by blast
qed

lemma settles_AddEvent: "settles X h ch {} 1 (AddEvent (de_sdk X) p name opts)"
proof -
  have "open_spans s' = open_spans s - {}" if "AddEvent (de_sdk X) p name opts s = Inr s'" for s s'
    using that
    by (auto simp: AddEvent_def open_spans_def time_Now_def timestamp_Now_def Let_def dest!: sdk_publish_spans split: option.splits if_splits)
  then show ?thesis
    using call_settles [of h "CallAddEvent p name opts" X] by (simp add: sdk_exec_def)
qed

lemma settles_SetAttributes: "settles X h ch {} 1 (SetAttributes (de_sdk X) p attrs)"
proof -
  have "open_spans s' = open_spans s - {}" if "SetAttributes (de_sdk X) p attrs s = Inr s'" for s s'
    using that
    by (auto simp: SetAttributes_def open_spans_def time_Now_def timestamp_Now_def Let_def dest!: sdk_publish_spans split: option.splits if_splits)
  then show ?thesis
    using call_settles [of h "CallSetAttributes p attrs" X] by (simp add: sdk_exec_def)
qed

lemma end_span_closes:
  assumes "end_span env (Some p) tt msg s = Inr s'"
  shows "open_spans s' = open_spans s - {p}"
proof (cases "p \<in> open_spans s")
  case True
  then obtain sp where sp: "sdk_spans s p = Some sp" "sp_hub sp \<noteq> None" "\<not> sp_ended sp" by (auto simp: open_spans_def)
  with assms have "sdk_spans s' = (sdk_spans s)(p \<mapsto> sp\<lparr>sp_ended := True\<rparr>)"
    by (auto simp: end_span_def timestamp_Now_def time_Now_def Let_def dest!: sdk_publish_spans)
  then show ?thesis by (auto simp: open_spans_def)
next
  case False
  with assms have "s' = s" by (auto simp: end_span_def open_spans_def split: option.splits if_splits)
  with False show ?thesis by simp
qed

lemma settles_ends:
  "settles X h ch {p} 1 (Complete (de_sdk X) (Some p))" "settles X h ch {p} 1 (Error (de_sdk X) (Some p) err)"
proof -
  show "settles X h ch {p} 1 (Complete (de_sdk X) (Some p))"
    using call_settles [of h "CallComplete (Some p)" X "{p}"] end_span_closes by (simp add: sdk_exec_def Complete_def [abs_def])
  show "settles X h ch {p} 1 (Error (de_sdk X) (Some p) err)"
    using call_settles [of h "CallError (Some p) err" X "{p}"] end_span_closes by (auto simp: sdk_exec_def Error_def [abs_def] split: option.splits)
qed

text \<open>A span is started and closed again by the body.\<close>

lemma settles_started:
  assumes "\<And>ctx p. settles X h ch {p} k (body ctx (Some p))"
  shows "settles X h ch {} (Suc k) (started_on X (Some h) ctx name attrs body)"
proof (rule settlesI)
  fix n s
  assume room: "sdk_room (de_sdk X) h ch (Suc k + n) s" and fol: "followed (de_sdk X) ch s"
  then have ok: "env_ok (de_sdk X)" "listens h ch (Suc (k + n)) s" by (simp_all add: sdk_room_def)
  obtain s1 emitted at ctx' where s1: "startWithHub (de_sdk X) ctx (Some h) name attrs s = Inr (ctx', sdk_next s, s1)"
      "sdk_spans s1 = (sdk_spans s)(sdk_next s \<mapsto> new_span (de_sdk X) h ctx s)"
    using startWithHub_logs [OF ok, of ctx name attrs] by blast
  have room': "sdk_room (de_sdk X) h ch (Suc (k + n)) s" using room by simp
  obtain rs where rs: "sdk_room (de_sdk X) h ch (k + n) s1" "sdk_log ch s1 = sdk_log ch s @ rs" "sdk_effect (de_sdk X) h s s1 rs"
    using start_on_hub [OF room', of "Some h" ctx name attrs] s1(1) by auto
  have "followed (de_sdk X) ch s1" using followed_effect [OF fol room' rs(3,2)] .
  with rs(1) obtain s2 where s2: "body ctx' (Some (sdk_next s)) s1 = Inr s2" "sdk_room (de_sdk X) h ch n s2" "followed (de_sdk X) ch s2"
      "open_spans s2 = open_spans s1 - {sdk_next s}"
    by (rule settlesE [OF assms])
  have "sdk_spans s (sdk_next s) = None"
    using ok(2) unfolding listens_def sdk_inv_def by (metis less_irrefl not_Some_eq)
  then have "open_spans s1 - {sdk_next s} = open_spans s" using s1(2) by (auto simp: open_spans_def)
  with s1(1) s2 show "\<exists>s'. started_on X (Some h) ctx name attrs body s = Inr s' \<and> sdk_room (de_sdk X) h ch n s'
      \<and> followed (de_sdk X) ch s' \<and> open_spans s' = open_spans s - {}"
    by (simp add: started_on_def Hub_Start_def)
qed

section \<open>The traces\<close>

lemma settles_eq: "settles X h ch E k f \<Longrightarrow> E = E' \<Longrightarrow> k \<le> k' \<Longrightarrow> settles X h ch E' k' f"
  using settles_more by blast

lemma settles_if:
  "settles X h ch E k f \<Longrightarrow> settles X h ch E k g \<Longrightarrow> settles X h ch E k (\<lambda>s. if c s then f s else g s)"
  unfolding settles_def by simp

lemma settles_map:
  "(\<And>i. i \<in> set is \<Longrightarrow> settles X h ch {} k (f i)) \<Longrightarrow> settles X h ch {} (length is * k) (in_sequence (map f is))"
proof (induction "is")
  case (Cons i "is")
  then have "settles X h ch {} k (f i)" "settles X h ch {} (length is * k) (in_sequence (map f is))" by simp_all
  from settles_Cons [OF this] show ?case by (simp del: in_sequence.simps)
qed (simp add: settles_def)

lemmas settles_intros = settles_Cons settles_Nil settles_AddEvent settles_SetAttributes settles_ends settles_started

lemma request_trace_settles: "settles X h ch {} 20 (request_trace X (Some h) fail)"
  unfolding request_trace_def Let_def
proof (rule settles_eq [OF settles_started [where k = 18]])
  fix ctx p
  have ending: "settles X h ch {p} 2 (in_sequence [if fail then Error (de_sdk X) (Some p) (Some ''upstream dependency failed'') else Inr,
      Complete (de_sdk X) (Some p)])"
    by (cases fail) (rule settles_eq, (rule settles_intros settles_idle | simp)+)+
  have load: "settles X h ch {} 3 (started_on X (Some h) ctx name attrs
      (\<lambda>_ q. in_sequence [AddEvent (de_sdk X) q n1 o1, Complete (de_sdk X) q]))" for name attrs n1 o1
    by (rule settles_eq [OF settles_started [where k = 2]]) (rule settles_eq, (rule settles_intros)+, simp_all)
  have assemble: "settles X h ch {} 5 (started_on X (Some h) ctx name attrs
      (\<lambda>_ q. in_sequence [AddEvent (de_sdk X) q n1 o1, AddEvent (de_sdk X) q n2 o2, SetAttributes (de_sdk X) q a, Complete (de_sdk X) q]))"
    for name attrs n1 o1 n2 o2 a
    by (rule settles_eq [OF settles_started [where k = 4]]) (rule settles_eq, (rule settles_intros)+, simp_all)
  show "settles X h ch {p} 18 (in_sequence
        [AddEvent (de_sdk X) (Some p) ''request.received'' [with_attrs [str_attr X ''remote_addr'' ''127.0.0.1'' [], str_attr X ''cache'' ''miss'' [''badge'']]],
         SetAttributes (de_sdk X) (Some p) [str_attr X ''status'' ''authorizing'' [''badge''], str_attr X ''input'' request_input [''code:json'']],
         started_on X (Some h) ctx ''load user'' [str_attr X ''query'' ''select id, role from users where id = $1'' [''code:sql'']]
           (\<lambda>_ loadUser. in_sequence
             [AddEvent (de_sdk X) loadUser ''db.row'' [with_attrs [str_attr X ''user_id'' ''7'' [], str_attr X ''role'' ''admin'' [''badge'']]],
              Complete (de_sdk X) loadUser]),
         started_on X (Some h) ctx ''assemble response'' [str_attr X ''template'' ''project_detail'' [''badge'']]
           (\<lambda>_ assemble. in_sequence
             [AddEvent (de_sdk X) assemble ''renderer.partial'' [with_attrs [str_attr X ''name'' ''header'' []]],
              AddEvent (de_sdk X) assemble ''warning'' [with_severity SeverityWarn,
                with_attrs [str_attr X ''detail'' ''owner profile missing avatar'' [''text'']]],
              SetAttributes (de_sdk X) assemble [str_attr X ''payload_preview'' payload_preview [''code:json'']],
              Complete (de_sdk X) assemble]),
         AddEvent (de_sdk X) (Some p) ''recoverable.error'' [with_severity SeverityError,
           with_attrs [str_attr X ''message'' ''cache backend timeout'' [''text'']]],
         if fail then Error (de_sdk X) (Some p) (Some ''upstream dependency failed'') else Inr,
         Complete (de_sdk X) (Some p)])"
    by (rule settles_eq, rule settles_Cons [OF settles_AddEvent], rule settles_Cons [OF settles_SetAttributes],
        rule settles_Cons [OF load], rule settles_Cons [OF assemble], rule settles_Cons [OF settles_AddEvent], rule ending) simp_all
qed simp_all

lemma nested_child_settles:
  assumes "\<And>ctx path. settles X h ch {} d (descend ctx path)"
  shows "settles X h ch {} (5 + d) (nested_child X (Some h) ctx level fanout path descend i)"
  unfolding nested_child_def Let_def
proof (rule settles_eq [OF settles_started [where k = "4 + d"]])
  fix ctx p
  have idle: "settles X h ch {} 0 (pause X b)" for b
    unfolding pause_def by (rule settles_draw) (rule settles_idle)
  have warn: "settles X h ch {} 1 (draw X b (\<lambda>r. if r = 0 then AddEvent (de_sdk X) q n o' else Inr))" for b q n o'
    by (rule settles_draw) (simp add: settles_AddEvent [simplified] settles_more [OF settles_idle])
  note rules = settles_Cons [OF settles_AddEvent] settles_Cons [OF settles_SetAttributes] settles_Cons [OF idle] settles_Cons [OF warn]
    settles_Cons [OF assms] settles_Cons [OF settles_ends(1)] settles_Nil
  show "settles X h ch {p} (4 + d) (in_sequence
         [pause X 40,
          SetAttributes (de_sdk X) (Some p) [str_attr X ''state'' ''expanding'' [''badge'']],
          AddEvent (de_sdk X) (Some p) ''node.expanded'' [with_attrs [int_attr X ''children'' fanout [''badge'']]],
          descend ctx (path @ ''.'' @ Itoa (int (i + 1))),
          draw X 12 (\<lambda>r. if r = 0 then AddEvent (de_sdk X) (Some p) ''contrived.warning'' [with_severity SeverityWarn,
            with_attrs [str_attr X ''message'' ''synthetic nested-span warning'' [''text'']]] else Inr),
          pause X 20,
          Complete (de_sdk X) (Some p)])"
    by (rule settles_eq, (rule rules)+) simp_all
qed simp_all

text \<open>The records of the spans below a node with \<open>d\<close> levels to go.\<close>

fun nested_room :: "nat \<Rightarrow> nat \<Rightarrow> nat" where
  "nested_room fanout 0 = 0"
| "nested_room fanout (Suc d) = fanout * (5 + nested_room fanout d)"

lemma emitNestedChildren_settles:
  "settles X h ch {} (nested_room fanout (Suc maxDepth - level)) (emitNestedChildren X (Some h) ctx level maxDepth fanout path)"
proof (induction "Suc maxDepth - level" arbitrary: level ctx path)
  case 0
  then show ?case by (subst emitNestedChildren.simps) (simp add: settles_idle)
next
  case (Suc d)
  then have d: "Suc maxDepth - level = Suc d" "Suc maxDepth - (level + 1) = d" "\<not> maxDepth < level" by simp_all
  have "settles X h ch {} (nested_room fanout d) (emitNestedChildren X (Some h) c (level + 1) maxDepth fanout q)" for c q
    using Suc.hyps(1) [of "level + 1" c q] d(2) by simp
  then have "settles X h ch {} (length [0..<fanout] * (5 + nested_room fanout d)) (in_sequence (map (nested_child X (Some h) ctx level fanout path
       (\<lambda>childCtx childPath. emitNestedChildren X (Some h) childCtx (level + 1) maxDepth fanout childPath)) [0..<fanout]))"
    by (intro settles_map nested_child_settles)
  then show ?case using d(1,3) by (subst emitNestedChildren.simps) simp
qed

lemma emitNestedTrace_settles: "settles X h ch {} 400 (emitNestedTrace X (Some h))"
  unfolding emitNestedTrace_def Let_def
proof (rule settles_eq [OF settles_started [where k = 399]])
  fix ctx p
  have children: "settles X h ch {} 310 (emitNestedChildren X (Some h) ctx 1 nested_maxDepth nested_fanout ''root'')"
    using emitNestedChildren_settles [of X h ch nested_fanout nested_maxDepth 1 ctx "''root''"]
    by (simp add: nested_maxDepth_def nested_fanout_def numeral_nat)
  show "settles X h ch {p} 399 (in_sequence
        [AddEvent (de_sdk X) (Some p) ''demo.started'' [with_attrs [str_attr X ''note'' ''creates a deliberately deep span tree'' [''text'']]],
         emitNestedChildren X (Some h) ctx 1 nested_maxDepth nested_fanout ''root'',
         AddEvent (de_sdk X) (Some p) ''demo.finished'' [with_attrs [str_attr X ''note'' ''all generated children completed'' [''text'']]],
         Complete (de_sdk X) (Some p)])"
    by (rule settles_eq, rule settles_Cons [OF settles_AddEvent], rule settles_Cons [OF children], (rule settles_intros)+) simp_all
qed simp_all

lemma append_loop_settles: "settles X h ch {} (1 + 5 * length is) (append_loop X (Some h) rootCtx root is)"
proof (induction "is")
  case Nil
  then show ?case using settles_AddEvent by simp
next
  case (Cons i "is")
  have body: "settles X h ch {p} (5 + 5 * length is) (\<lambda>s. bind_result (AddEvent (de_sdk X) (Some p) n1 o1 s) (\<lambda>s.
          if de_done X (sdk_ticks s)
          then in_sequence [AddEvent (de_sdk X) (Some p) n2 o2, Error (de_sdk X) (Some p) err, AddEvent (de_sdk X) root n3 o3] s
          else bind_result (Complete (de_sdk X) (Some p) s) (append_loop X (Some h) rootCtx root is)))" for p n1 o1 n2 o2 err n3 o3
  proof (rule settles_eq [OF settles_bind [OF settles_AddEvent settles_if [where k = "4 + 5 * length is" and E = "{p}"]]])
    show "settles X h ch {p} (4 + 5 * length is)
        (in_sequence [AddEvent (de_sdk X) (Some p) n2 o2, Error (de_sdk X) (Some p) err, AddEvent (de_sdk X) root n3 o3])"
      by (rule settles_eq, (rule settles_intros)+) simp_all
    show "settles X h ch {p} (4 + 5 * length is) (\<lambda>s. bind_result (Complete (de_sdk X) (Some p) s) (append_loop X (Some h) rootCtx root is))"
      by (rule settles_eq [OF settles_bind [OF settles_ends(1) Cons.IH]]) simp_all
  qed simp_all
  show ?case
    unfolding append_loop.simps Let_def by (rule settles_eq [OF settles_started [OF body]]) simp_all
qed

lemma emitAppendTrace_settles: "settles X h ch {} 400 (emitAppendTrace X ctx (Some h))"
  unfolding emitAppendTrace_def Let_def
  by (rule settles_eq [OF settles_started [where k = 399]], rule settles_eq, rule settles_Cons [OF settles_AddEvent],
      rule settles_Cons [OF append_loop_settles], (rule settles_intros)+) (simp_all add: append_spanCount_def)

lemma emitMode_settles:
  assumes "sdk_room (de_sdk X) h ch (400 + n) s" and "followed (de_sdk X) ch s"
  shows "\<exists>c s'. emitMode X ctx (Some h) mode (traces, s) = Inr (c, s') \<and> sdk_room (de_sdk X) h ch n s' \<and> followed (de_sdk X) ch s'
    \<and> open_spans s' = open_spans s"
proof -
  note run = settlesE [OF _ assms]
  have request: "settles X h ch {} 400 (request_trace X (Some h) fail)" for fail
    by (rule settles_more [OF request_trace_settles]) simp
  consider "mode = ''request''" | "mode = ''nested''" | "mode = ''append''" | "\<not> validMode mode" by (auto simp: validMode_def)
  then show ?thesis
  proof cases
    case 1
    obtain s' where "request_trace X (Some h) (go_rem (traces + 1) 2 = 0) s = Inr s'" "sdk_room (de_sdk X) h ch n s'" "followed (de_sdk X) ch s'"
        "open_spans s' = open_spans s - {}"
      using request by (rule run)
    with 1 show ?thesis by (simp add: emitMode_def emitTrace_def)
  next
    case 2
    obtain s' where "emitNestedTrace X (Some h) s = Inr s'" "sdk_room (de_sdk X) h ch n s'" "followed (de_sdk X) ch s'"
        "open_spans s' = open_spans s - {}"
      using emitNestedTrace_settles by (rule run)
    with 2 show ?thesis by (simp add: emitMode_def)
  next
    case 3
    obtain s' where "emitAppendTrace X ctx (Some h) s = Inr s'" "sdk_room (de_sdk X) h ch n s'" "followed (de_sdk X) ch s'"
        "open_spans s' = open_spans s - {}"
      using emitAppendTrace_settles by (rule run)
    with 3 show ?thesis by (simp add: emitMode_def)
  next
    case 4
    with assms sdk_room_less show ?thesis by (fastforce simp: emitMode_def validMode_def)
  qed
qed

lemma emit_settles:
  "sdk_room (de_sdk X) h ch (400 * length es) s \<Longrightarrow> followed (de_sdk X) ch s \<Longrightarrow>
   \<exists>c s'. emit X ctx (Some h) mode es (traces, s) = Inr (c, s') \<and> sdk_room (de_sdk X) h ch 0 s' \<and> followed (de_sdk X) ch s'
    \<and> open_spans s' = open_spans s"
proof (induction es arbitrary: traces s)
  case (Cons e es)
  show ?case
  proof (cases e)
    case EmitTick
    have "sdk_room (de_sdk X) h ch (400 + 400 * length es) s" using Cons.prems(1) by simp
    then obtain c s1 where s1: "emitMode X ctx (Some h) mode (traces, s) = Inr (c, s1)" "sdk_room (de_sdk X) h ch (400 * length es) s1"
        "followed (de_sdk X) ch s1" "open_spans s1 = open_spans s"
      using emitMode_settles [OF _ Cons.prems(2)] by blast
    with Cons.IH [OF s1(2,3), of c] EmitTick show ?thesis by simp
  next
    case EmitDone
    then show ?thesis using Cons.prems sdk_room_less [of "de_sdk X" h ch "400 * length (e # es)" 0 s] by simp
  qed
qed (simp)

lemma stream_refines:
  assumes "run_steps life_step Map.empty log = Some m"
  obtains store a where "run_steps (Apply rt) NewStore log = Some store" and "refines store a" and "follows a m"
proof -
  obtain store a where st: "run_steps (Apply rt) NewStore log = Some store" "abs_store store = Some a" "follows a m"
    using store_follows [OF assms] by blast
  have "refines NewStore (spec_new False)"
    using refines_new [of "\<lparr>AllowUnknownParents = False\<rparr>"] by (simp add: NewStore_def)
  from record_store.run_rel [OF this st(1)] st(2) have "refines store a"
    using refines_abs_store by fastforce
  with st that show thesis by blast
qed

lemma follows_closed:
  assumes "refines store a" and "follows a m" and "\<And>i trace e. m i = Some (trace, e) \<Longrightarrow> e"
  shows "HasOpenSpans store = Some False"
proof -
  have "Ended d" if "d \<in> set (forest_spans (forest a))" for d
    using assms(2,3) that unfolding follows_def by blast
  then show ?thesis using HasOpenSpans_refines [OF assms(1)] by (auto simp: spec_open_def)
qed

text \<open>C40: Whatever mode the example runs in, however often its ticker fires, whenever its context ends and
  whatever numbers it draws, no call panics and every span it starts ends: a store fed from a
  subscription that was there from the start, with a free buffer that has room for the records (400
  for each turn of the loop), holds no open span afterwards, as long as the random source of the
  span IDs does not repeat itself.\<close>

theorem demo_closes_all:
  assumes "observed (de_sdk X) h ch (400 * length es) s"
  shows "\<exists>c s'. emit X ctx (Some h) mode es (traces, s) = Inr (c, s') \<and> open_spans s' = {}
    \<and> (fresh_upto (de_sdk X) (sdk_ticks s') \<longrightarrow>
        (\<exists>store. run_steps (Apply (env_rt (de_sdk X))) NewStore (sdk_log ch s') = Some store \<and> HasOpenSpans store = Some False))"
proof -
  have room: "sdk_room (de_sdk X) h ch (400 * length es) s" and "sdk_spans s = Map.empty" using assms by (simp_all add: observed_def)
  then have "open_spans s = {}" by (simp add: open_spans_def)
  with emit_settles [OF room observed_followed [OF assms], of ctx mode traces] obtain c s' where
    s': "emit X ctx (Some h) mode es (traces, s) = Inr (c, s')" "sdk_room (de_sdk X) h ch 0 s'" "followed (de_sdk X) ch s'" "open_spans s' = {}"
    by auto
  have "\<exists>store. run_steps (Apply (env_rt (de_sdk X))) NewStore (sdk_log ch s') = Some store \<and> HasOpenSpans store = Some False"
    if fresh: "fresh_upto (de_sdk X) (sdk_ticks s')"
  proof -
    obtain m where m: "run_steps life_step Map.empty (sdk_log ch s') = Some m" "tracks (de_sdk X) s' m"
      using s'(3) fresh unfolding followed_def by blast
    obtain store a where st: "run_steps (Apply (env_rt (de_sdk X))) NewStore (sdk_log ch s') = Some store" "refines store a" "follows a m"
      using stream_refines [OF m(1)] by blast
    have "e" if "m i = Some (trace, e)" for i trace e
      using that s'(4) unfolding tracks_iff [OF m(2) s'(2)] open_spans_def by (auto, fastforce)
    with st follows_closed show ?thesis by blast
  qed
  with s' show ?thesis by blast
qed

definition demo :: demo_env where
  "demo = \<lparr>de_sdk = sample_env, de_IntN = (\<lambda>k n. int k mod n), de_done = (\<lambda>k. k = 50), de_Err = ''context canceled''\<rparr>"

definition roomy_sdk :: sdk where
  "roomy_sdk = sample_sdk\<lparr>sdk_chans := \<lparr>channels = [1 \<mapsto> \<lparr>buffered = [], capacity = 800, is_closed = False\<rparr>], next_chan = 2\<rparr>\<rparr>"

definition request_end :: sdk where
  "request_end = snd (projr (emit demo [] (Some 1) ''request'' [EmitTick] (0, roomy_sdk)))"

lemma request_end_reads: "sdk_ticks request_end \<le> 256" "length (sdk_log 1 request_end) = 13"
  by code_simp+

theorem demo_closes_all_witness:
  "\<exists>c store. emit demo [] (Some 1) ''request'' [EmitTick] (0, roomy_sdk) = Inr (c, request_end)
    \<and> run_steps (Apply ref_runtime) NewStore (sdk_log 1 request_end) = Some store \<and> HasOpenSpans store = Some False"
proof -
  have "observed (de_sdk demo) 1 1 (400 * length [EmitTick]) roomy_sdk"
    by (auto simp: observed_def sdk_room_def listens_def sdk_inv_def sample_sdk_def roomy_sdk_def demo_def sdk_log_def
      hub_inv_def world_inv_def)
  from demo_closes_all [OF this, of "[]" "''request''" 0] sample_fresh [OF request_end_reads(1)] show ?thesis
    by (auto simp: request_end_def demo_def sample_env_def)
qed

end
