(* ===== verification/Spec2Isabelle.thy ===== *)
theory Spec2Isabelle
  imports Attr Proto_Setters Hub_Conc Sdk_Methods Sse Web_Append Web_Frames Web_Ids Live Example
begin

text \<open>
  A verification of sap, a library and viewers for live traces of spans.

  \<^bold>\<open>The program.\<close> A Go program traces its work with the SDK: it starts spans, updates their
  attributes, adds events and ends them (\<open>src/sap.go\<close>, \<open>src/attr.go\<close>). Each call publishes one
  protobuf record (\<open>src/gen/sap/v1/record.pb.go\<close>) to a hub that fans it out to buffered channels
  (\<open>src/hub.go\<close>). An HTTP handler writes the records of a subscription as server-sent events and a
  client reads them back and reconnects when the stream ends (\<open>src/transport/sapsse/\<close>). A store
  rebuilds the tree of spans from the records (\<open>src/state/\<close>). Two viewers show it: one in the
  terminal (\<open>src/viewer/sap-tui/\<close>) and one that pushes HTML fragments to browsers
  (\<open>src/viewer/sap-web/\<close>). \<open>src/example/live/main.go\<close> produces sample traces.

  \<^bold>\<open>Shared.\<close> \<open>Prelude\<close> has the types that stand for Go's own, results that may panic
  (\<open>panic + 'a\<close>) and common facts; \<open>Simulation\<close> the locales \<open>simulation\<close> (operations refine an
  abstract function) and \<open>total_steps\<close> (an invariant under which every operation returns);
  \<open>Gostd\<close> and \<open>Gostd_Time\<close> what the sources use of the standard library: decimal and hexadecimal
  text, durations and their rounding, splitting and escaping of text.

  \<^bold>\<open>Records.\<close> \<open>Proto\<close>: messages as records with optional fields, builders, getters, presence tests and
  the oneof of kinds. Enumerations are 32-bit words. What the code relies on of the protobuf
  runtime is a record of functions, \<open>pb_runtime\<close>, with the laws \<open>pb_laws\<close>; \<open>ref_runtime\<close> satisfies
  them. \<open>Proto_Setters\<close> adds the methods that change a message and shows that a builder is the same
  as setting its fields (locale \<open>message_field\<close> for every field). \<open>Attr\<close>: the constructors of attributes; the formatting of floating point numbers is a
  parameter.

  \<^bold>\<open>Store.\<close> \<open>Store\<close> is \<open>state.go\<close>: a \<open>*SpanState\<close> is an address on a heap, the maps and the
  slice of roots are fields of \<open>store\<close>, and an operation returns \<open>None\<close> where the code would read
  through a nil pointer or recurse without end. \<open>Store_Spec\<close> is the specification, a forest of
  spans without addresses; \<open>Store_Shape\<close> says when the objects reachable from an address form a
  tree; \<open>Store_Inv\<close> is the invariant \<open>store_wf\<close> with the refinement of each operation, and
  \<open>Store_Props\<close>, \<open>Store_Life\<close>, \<open>Store_Attrs\<close> are the properties: reconstruction, agreement of
  index, tree and lookup in every reachable store, where spans are placed, what single records, pruning,
  eviction and updates change, and what becomes of records without a time. \<open>Timeline\<close> is
  \<open>timeline.go\<close>, proved over the contract of a comparator (locale \<open>comparator\<close>) to be the stable
  chronological order. \<open>Store_View\<close> and \<open>Span_Walks\<close> have what the viewers rely on: predicates
  on the spans of a store that records keep (locale \<open>span_predicate\<close>) and walks over timelines.

  \<^bold>\<open>Hub and SDK.\<close> \<open>Hub\<close> has channels with buffers and each method of the hub as one operation;
  \<open>Hub_Props\<close> shows what subscribers receive. \<open>Hub_Conc\<close> takes the methods apart into the steps of
  goroutines on the read-write mutex and shows that no interleaving panics or deadlocks. \<open>Sdk\<close>
  is \<open>sap.go\<close> on heaps of spans and hubs, with the clock and the random source read from an
  environment \<open>go_env\<close>. \<open>Sdk_Props\<close> shows which record each call publishes (locale \<open>logging\<close>),
  \<open>Protocol\<close> states the lifecycle of records between SDK and store and shows that the store's data
  of a span are all its records put in one after the other, and \<open>Sdk_Protocol\<close> and
  \<open>Sdk_Methods\<close> show that the SDK keeps it and that a store fed from a subscription holds the SDK's
  spans. \<open>Example\<close> is \<open>example/live/main.go\<close> on top of the SDK; its modes leave no span open.

  \<^bold>\<open>Transport.\<close> \<open>Sse\<close> is the handler of \<open>sse.go\<close> as a function of what its select statement sees,
  and the client of \<open>client.go\<close> as a function of what network, clock and context do; the JSON codec
  is a parameter. Records arrive as written, the client's states follow the connection
  protocol, and a request leaves no subscription behind.

  \<^bold>\<open>Web viewer.\<close> \<open>Templ\<close> is the templ runtime with its laws \<open>web_laws\<close>, \<open>Web_Styles\<close> the style
  classes, \<open>Web_Render\<close> the helpers of \<open>render.go\<close>, \<open>Web_Templates\<close> the generated templates write
  by write, \<open>Web_Server\<close> and \<open>Web_Http\<close> the server with its patches, broadcasts, handlers and
  frames. \<open>Web_Safety\<close> shows that fragments are well nested whatever the records contain,
  \<open>Web_Ids\<close> which element IDs are distinct, \<open>Web_Server_Props\<close> and \<open>Web_Props\<close> that the server never
  fails and what subscribers find, \<open>Web_Patches\<close> and \<open>Web_Append\<close> when patches agree with a full
  rendering, \<open>Web_Frames\<close> that a browser reads back the frames written.

  \<^bold>\<open>Terminal viewer.\<close> \<open>Tui_Render\<close> is \<open>render.go\<close> and \<open>highlight.go\<close> with their caches as state,
  \<open>Tui\<close> the model, \<open>Update\<close> by message, the view and the loops that feed the program. The
  invariants of the message loop are shown once in the locale \<open>viewer_invariant\<close>, interpreted in
  \<open>Tui_Props\<close> (every reaction returns) and in \<open>Tui_Cache\<close> (the caches agree with a rendering
  without caches). \<open>Tui_Closed\<close> shows that repaints of a store without open spans come from the
  cache; \<open>Tui_Views\<close> draws the conclusions, with the children of ended spans that the cache hides.

  \<^bold>\<open>Composition.\<close> \<open>Live\<close> follows the records the whole way: what a client decodes of a subscription to the SDK
  gives both viewers the store that holds the SDK's spans.

  \<^bold>\<open>Recursion.\<close> The recursive walks of the code over spans take fuel and are \<open>None\<close> without it. The callers
  pass \<open>walk_fuel\<close>, one more than the number of objects ever allocated; \<open>Store_Shape\<close> and \<open>Span_Walks\<close>
  prove it enough on every well-formed store, and every reachable store is well-formed, so
  the theorems state that the operations return. Loops over channels and connections are
  recursive on the sequence of events they see. The nested spans of the example recurse on a level
  that approaches its maximum.

  \<^bold>\<open>Parameters.\<close> Clock, random source, iteration order of maps, protobuf runtime, JSON codec, templ,
  chroma, lipgloss, bubbles and bubbletea are arguments of the definitions that use them, arbitrary
  but for the named laws, and concrete functions are given wherever a law is assumed.

  \<^bold>\<open>Not modelled.\<close> The descriptors, text forms and reflection tables of the generated records, which nothing
  in the sources calls; the checks for a cancelled context and the buffer pooling at the head of each generated
  template; the mains (flags, signals, starting and stopping an HTTP server or the terminal
  program) and the test for a terminal; the page's JavaScript and the protocol buffers schema.
  Integers are unbounded where they count list elements and depths, which stay below \<open>2 ^ 63\<close>;
  durations and timestamps that can reach the end of their range saturate as in Go. A buffer of
  any size can be allocated, where \<open>make\<close> would panic for a size beyond the memory
  (\<open>Subscribe\<close>). A request is one operation on the hub (\<open>serve\<close>) or the web server
  (\<open>handleStream\<close>): the records, snapshots and failures it sees while it runs are its arguments, but other
  operations on the hub or server during it are not interleaved. The example's sleeps are left
  out, and its counter of traces, of which only the parity matters, does not wrap.
\<close>

end
